(* ===== verification/Prelude.thy ===== *)
theory Prelude
  imports Main "HOL-Library.AList" "HOL-Library.Multiset" "HOL-Library.Char_ord" "HOL-Library.List_Lexorder"
begin

text \<open>
  Shared vocabulary of the development: the exceptions of the modelled program as a datatype,
  fallible computations as a sum type with its sequencing operators, Python dictionaries as
  association lists with unique keys in insertion order, and the generic facts about them.
  The collections \<open>result_simps\<close>, \<open>dict_simps\<close> and \<open>str_simps\<close> gather the rewrite rules that the
  component theories feed to the simplifier.
\<close>

named_theorems result_simps \<open>evaluation of fallible computations\<close>
named_theorems dict_simps \<open>lookup in dictionaries after updates\<close>
named_theorems str_simps \<open>evaluation of the string operations\<close>

section \<open>Exceptions and fallible computations\<close>

text \<open>
  Every exception class that the modelled code raises or catches. Messages are kept where the
  code builds them from its data; the interpreter's own messages are dropped.
\<close>

datatype py_error =
    KeyError string
  | ValueError string
  | TypeError
  | AttributeError
  | IndexError
  | UnicodeEncodeError
  | UnicodeDecodeError
  | JSONDecodeError
  | AssertionError string
  | OtherError string
  | RunUnknownError string
  | UnknownToolError string
  | UnknownSkillError string
  | SensitiveContentError string
  | SkillError string
  | LLMError string
  | CandidateError string
  | PipelineError string

text \<open>
  The subclass relation that the \<open>except ValueError\<close> clauses of the code rely on:
  \<open>JSONDecodeError\<close>, the two Unicode errors, \<open>RunUnknownError\<close>, \<open>SensitiveContentError\<close>,
  \<open>SkillError\<close> and \<open>CandidateError\<close> all derive from \<open>ValueError\<close>.
\<close>

fun is_value_error :: "py_error \<Rightarrow> bool" where
  "is_value_error (ValueError _) = True"
| "is_value_error UnicodeEncodeError = True"
| "is_value_error UnicodeDecodeError = True"
| "is_value_error JSONDecodeError = True"
| "is_value_error (RunUnknownError _) = True"
| "is_value_error (SensitiveContentError _) = True"
| "is_value_error (SkillError _) = True"
| "is_value_error (CandidateError _) = True"
| "is_value_error _ = False"

text \<open>Likewise \<open>except KeyError\<close>: the two registry errors derive from it.\<close>

fun is_key_error :: "py_error \<Rightarrow> bool" where
  "is_key_error (KeyError _) = True"
| "is_key_error (UnknownToolError _) = True"
| "is_key_error (UnknownSkillError _) = True"
| "is_key_error _ = False"

type_synonym 'a result = "py_error + 'a"

definition bindR :: "'a result \<Rightarrow> ('a \<Rightarrow> 'b result) \<Rightarrow> 'b result" where
  "bindR m f = (case m of Inl e \<Rightarrow> Inl e | Inr x \<Rightarrow> f x)"

text \<open>A Python list comprehension whose element expression may raise.\<close>

fun mapR :: "('a \<Rightarrow> 'b result) \<Rightarrow> 'a list \<Rightarrow> 'b list result" where
  "mapR f [] = Inr []"
| "mapR f (x # xs) = bindR (f x) (\<lambda>y. bindR (mapR f xs) (\<lambda>ys. Inr (y # ys)))"

lemma bindR_Inl [simp, result_simps]: "bindR (Inl e) f = Inl e"
  by (simp add: bindR_def)

lemma bindR_Inr [simp, result_simps]: "bindR (Inr x) f = f x"
  by (simp add: bindR_def)

lemma bindR_eq_Inr [result_simps]: "bindR m f = Inr y \<longleftrightarrow> (\<exists>x. m = Inr x \<and> f x = Inr y)"
  by (cases m) auto

lemma bindR_eq_Inl [result_simps]:
  "bindR m f = Inl e \<longleftrightarrow> m = Inl e \<or> (\<exists>x. m = Inr x \<and> f x = Inl e)"
  by (cases m) auto

lemma bindR_assoc: "bindR (bindR m f) g = bindR m (\<lambda>x. bindR (f x) g)"
  by (cases m) auto

lemma mapR_total: "(\<And>x. x \<in> set xs \<Longrightarrow> f x = Inr (g x)) \<Longrightarrow> mapR f xs = Inr (map g xs)"
  by (induction xs) auto

lemma mapR_length: "mapR f xs = Inr ys \<Longrightarrow> length ys = length xs"
  by (induction xs arbitrary: ys) (auto simp: bindR_eq_Inr)

lemma mapR_Inr_set: "mapR f xs = Inr ys \<Longrightarrow> y \<in> set ys \<Longrightarrow> \<exists>x \<in> set xs. f x = Inr y"
  by (induction xs arbitrary: ys) (auto simp: bindR_eq_Inr)

lemma mapR_Inr_all: "mapR f xs = Inr ys \<Longrightarrow> x \<in> set xs \<Longrightarrow> \<exists>y \<in> set ys. f x = Inr y"
  by (induction xs arbitrary: ys) (auto simp: bindR_eq_Inr)

section \<open>Dictionaries\<close>

text \<open>
  A Python \<open>dict\<close> with string keys keeps insertion order and overwrites in place: this is
  \<open>AList.update\<close> on an association list with distinct keys.
\<close>

type_synonym 'v dict = "(string \<times> 'v) list"

abbreviation dget :: "'v dict \<Rightarrow> string \<Rightarrow> 'v option" where
  "dget d k \<equiv> map_of d k"

abbreviation dset :: "string \<Rightarrow> 'v \<Rightarrow> 'v dict \<Rightarrow> 'v dict" where
  "dset k v d \<equiv> AList.update k v d"

abbreviation dkeys :: "'v dict \<Rightarrow> string list" where
  "dkeys d \<equiv> map fst d"

definition dict_wf :: "'v dict \<Rightarrow> bool" where
  "dict_wf d \<longleftrightarrow> distinct (dkeys d)"

text \<open>\<open>dict(pairs)\<close> and \<open>d.update(pairs)\<close>: later pairs overwrite earlier ones in place.\<close>

definition dupdate :: "'v dict \<Rightarrow> 'v dict \<Rightarrow> 'v dict" where
  "dupdate d ps = fold (\<lambda>(k, v). dset k v) ps d"

text \<open>\<open>d.setdefault(k, v)\<close>.\<close>

definition dsetdefault :: "string \<Rightarrow> 'v \<Rightarrow> 'v dict \<Rightarrow> 'v dict" where
  "dsetdefault k v d = (case dget d k of None \<Rightarrow> dset k v d | Some _ \<Rightarrow> d)"

lemma dget_dset [simp, dict_simps]: "dget (dset k v d) k' = (if k = k' then Some v else dget d k')"
  by (simp add: update_conv')

lemma dict_wf_Nil [simp]: "dict_wf []"
  by (simp add: dict_wf_def)

lemma dict_wf_dset [simp, intro]: "dict_wf d \<Longrightarrow> dict_wf (dset k v d)"
  by (simp add: dict_wf_def distinct_update)

lemma dict_wf_dupdate [intro]: "dict_wf d \<Longrightarrow> dict_wf (dupdate d ps)"
  unfolding dupdate_def by (induction ps arbitrary: d) auto

lemma dget_dsetdefault [simp, dict_simps]:
  "dget (dsetdefault k v d) k' =
     (if k = k' \<and> dget d k = None then Some v else dget d k')"
  by (auto simp: dsetdefault_def split: option.splits)

lemma dict_wf_dsetdefault [intro]: "dict_wf d \<Longrightarrow> dict_wf (dsetdefault k v d)"
  by (auto simp: dsetdefault_def split: option.splits)

lemma dset_fresh: "k \<notin> set (dkeys d) \<Longrightarrow> dset k v d = d @ [(k, v)]"
  by (induction d) auto

lemma dupdate_append: "dupdate d (ps @ qs) = dupdate (dupdate d ps) qs"
  by (simp add: dupdate_def)

lemma dupdate_fresh:
  "distinct (dkeys d @ dkeys ps) \<Longrightarrow> dupdate d ps = d @ ps"
proof (induction ps arbitrary: d)
  case Nil
  then show ?case by (simp add: dupdate_def)
next
  case (Cons p ps)
  obtain k v where p: "p = (k, v)" by (cases p)
  from Cons.prems p have "dset k v d = d @ [(k, v)]" by (intro dset_fresh) auto
  moreover have "dupdate (d @ [(k, v)]) ps = (d @ [(k, v)]) @ ps"
    using Cons.prems p by (intro Cons.IH) auto
  ultimately show ?case using p by (simp add: dupdate_def)
qed

lemma dupdate_id: "dict_wf ps \<Longrightarrow> dupdate [] ps = ps"
  using dupdate_fresh [of "[]" ps] by (simp add: dict_wf_def)

text \<open>Reordering a dictionary does not change what its keys map to.\<close>

lemma dget_perm:
  assumes "dict_wf d" "mset d = mset d'"
  shows "dget d' k = dget d k"
proof -
  from assms(2) have "set d = set d'" by (metis set_mset_mset)
  moreover have "distinct (dkeys d')"
    using assms unfolding dict_wf_def by (metis mset_map mset_eq_imp_distinct_iff)
  ultimately show ?thesis using assms(1) unfolding dict_wf_def
    by (metis map_of_inject_set)
qed

lemma dict_wf_sort [simp]: "dict_wf (sort_key fst d) \<longleftrightarrow> dict_wf d"
  unfolding dict_wf_def by (rule mset_eq_imp_distinct_iff) (simp add: mset_map)

lemma dget_sort: "dict_wf d \<Longrightarrow> dget (sort_key fst d) k = dget d k"
  by (rule dget_perm) simp_all

section \<open>Keyed collections as an interface\<close>

text \<open>
  Several components keep a collection indexed by a string (dictionaries of arguments, the run
  registry, the tool and skill registries, the content-addressed store). What their clients rely
  on is one law: a lookup after an insertion sees the new entry at its key and the old entries
  everywhere else.
\<close>

locale keyed_collection =
  fixes lookup :: "'s \<Rightarrow> 'k \<Rightarrow> 'v option"
    and insert :: "'k \<Rightarrow> 'v \<Rightarrow> 's \<Rightarrow> 's"
  assumes lookup_insert: "lookup (insert k v s) k' = (if k = k' then Some v else lookup s k')"
begin

lemma lookup_insert_same: "lookup (insert k v s) k = Some v"
  by (simp add: lookup_insert)

lemma lookup_insert_other: "k \<noteq> k' \<Longrightarrow> lookup (insert k v s) k' = lookup s k'"
  by (simp add: lookup_insert)

lemma lookup_insert_overwrite: "lookup (insert k v (insert k v' s)) = lookup (insert k v s)"
  by (auto simp: fun_eq_iff lookup_insert)

lemma lookup_insert_commute:
  "k \<noteq> k' \<Longrightarrow> lookup (insert k v (insert k' v' s)) = lookup (insert k' v' (insert k v s))"
  by (auto simp: fun_eq_iff lookup_insert)

lemma lookup_fold_insert_other:
  "k \<notin> set (map fst kvs) \<Longrightarrow> lookup (fold (\<lambda>(k, v). insert k v) kvs s) k = lookup s k"
  by (induction kvs arbitrary: s) (auto simp: lookup_insert)

end

interpretation dict_coll: keyed_collection dget dset
  by unfold_locales simp

end
