(* ===== verification/PyString.thy ===== *)
theory PyString
  imports Prelude
begin

text \<open>
  Python strings and the operations that the control plane applies to them.

  A \<open>str\<close> is represented by the bytes of its UTF-8 encoding (a list of \<^typ>\<open>char\<close>), generalised
  so that the lone surrogates a Python \<open>str\<close> may hold are encoded like any other code point
  (three bytes, the first of them \<open>0xED\<close>). Concatenation, equality, ordering, and searching for
  ASCII text are then the list operations, every Python string is representable, and
  \<open>s.encode("utf-8")\<close> is the identity except that it raises on a surrogate. Where the code counts
  or cuts characters, the model groups the bytes into characters first.
\<close>

section \<open>Strings\<close>

subsection \<open>Characters and encodings\<close>

abbreviation byte :: "char \<Rightarrow> nat" where
  "byte c \<equiv> of_char c"

definition is_cont :: "char \<Rightarrow> bool" where
  "is_cont c \<longleftrightarrow> 128 \<le> byte c \<and> byte c < 192"

text \<open>The characters of a string: a leading byte with the continuation bytes after it.\<close>

function py_chars :: "string \<Rightarrow> string list" where
  "py_chars [] = []"
| "py_chars (c # cs) = (c # takeWhile is_cont cs) # py_chars (dropWhile is_cont cs)"
  by pat_completeness auto
termination
  by (relation "measure length") (auto simp: le_imp_less_Suc length_dropWhile_le)

definition py_len :: "string \<Rightarrow> nat" where
  "py_len s = length (py_chars s)"

definition py_take :: "nat \<Rightarrow> string \<Rightarrow> string" where
  "py_take n s = concat (take n (py_chars s))"

text \<open>\<open>chr(n)\<close>, in the generalised UTF-8 representation.\<close>

definition py_chr :: "nat \<Rightarrow> string" where
  "py_chr n =
     (if n < 128 then [char_of n]
      else if n < 2048 then [char_of (192 + n div 64), char_of (128 + n mod 64)]
      else if n < 65536 then
        [char_of (224 + n div 4096), char_of (128 + n div 64 mod 64), char_of (128 + n mod 64)]
      else
        [char_of (240 + n div 262144), char_of (128 + n div 4096 mod 64),
         char_of (128 + n div 64 mod 64), char_of (128 + n mod 64)])"

text \<open>\<open>ord(c)\<close> of one character.\<close>

fun py_ord :: "string \<Rightarrow> nat" where
  "py_ord [a] = byte a"
| "py_ord [a, b] = (byte a - 192) * 64 + (byte b - 128)"
| "py_ord [a, b, c] = (byte a - 224) * 4096 + (byte b - 128) * 64 + (byte c - 128)"
| "py_ord [a, b, c, d] =
     (byte a - 240) * 262144 + (byte b - 128) * 4096 + (byte c - 128) * 64 + (byte d - 128)"
| "py_ord _ = 0"

text \<open>Well-formed encodings of one character (shortest form, at most \<open>0x10FFFF\<close>).\<close>

fun valid_char :: "string \<Rightarrow> bool" where
  "valid_char [a] = (byte a < 128)"
| "valid_char [a, b] = (194 \<le> byte a \<and> byte a < 224 \<and> is_cont b)"
| "valid_char [a, b, c] =
     (224 \<le> byte a \<and> byte a < 240 \<and> is_cont b \<and> is_cont c \<and> (byte a = 224 \<longrightarrow> 160 \<le> byte b))"
| "valid_char [a, b, c, d] =
     (240 \<le> byte a \<and> byte a \<le> 244 \<and> is_cont b \<and> is_cont c \<and> is_cont d
      \<and> (byte a = 240 \<longrightarrow> 144 \<le> byte b) \<and> (byte a = 244 \<longrightarrow> byte b < 144))"
| "valid_char _ = False"

text \<open>The byte strings that represent a Python \<open>str\<close>.\<close>

definition valid_str :: "string \<Rightarrow> bool" where
  "valid_str s \<longleftrightarrow> list_all valid_char (py_chars s)"

definition is_ascii :: "string \<Rightarrow> bool" where
  "is_ascii s \<longleftrightarrow> list_all (\<lambda>c. byte c < 128) s"

text \<open>A surrogate is a three-byte character \<open>ED A0..BF xx\<close>.\<close>

fun has_surrogate :: "string \<Rightarrow> bool" where
  "has_surrogate (a # b # s) \<longleftrightarrow> (byte a = 237 \<and> 160 \<le> byte b) \<or> has_surrogate (b # s)"
| "has_surrogate _ \<longleftrightarrow> False"

text \<open>\<open>s.encode("utf-8")\<close> and \<open>s.encode("ascii")\<close>.\<close>

definition encode_utf8 :: "string \<Rightarrow> string result" where
  "encode_utf8 s = (if has_surrogate s then Inl UnicodeEncodeError else Inr s)"

definition encode_ascii :: "string \<Rightarrow> string result" where
  "encode_ascii s = (if is_ascii s then Inr s else Inl UnicodeEncodeError)"

lemma concat_py_chars [simp]: "concat (py_chars s) = s"
  by (induction s rule: py_chars.induct) auto

lemma py_take_all: "py_len s \<le> n \<Longrightarrow> py_take n s = s"
  by (simp add: py_take_def py_len_def)

lemma is_ascii_Nil [simp, str_simps]: "is_ascii []"
  by (simp add: is_ascii_def)

lemma is_ascii_Cons [simp, str_simps]: "is_ascii (c # s) \<longleftrightarrow> byte c < 128 \<and> is_ascii s"
  by (simp add: is_ascii_def)

lemma is_ascii_append [simp, str_simps]: "is_ascii (s @ t) \<longleftrightarrow> is_ascii s \<and> is_ascii t"
  by (simp add: is_ascii_def)

lemma is_ascii_concat: "is_ascii (concat ss) \<longleftrightarrow> list_all is_ascii ss"
  by (induction ss) auto

lemma ascii_not_cont: "byte c < 128 \<Longrightarrow> \<not> is_cont c"
  by (simp add: is_cont_def)

lemma py_chars_ascii: "is_ascii s \<Longrightarrow> py_chars s = map (\<lambda>c. [c]) s"
proof (induction s)
  case Nil
  then show ?case by simp
next
  case (Cons c s)
  then have "takeWhile is_cont s = []" "dropWhile is_cont s = s"
    by (cases s; simp add: ascii_not_cont)+
  with Cons show ?case by simp
qed

lemma py_len_ascii [str_simps]: "is_ascii s \<Longrightarrow> py_len s = length s"
  by (simp add: py_len_def py_chars_ascii)

lemma valid_str_ascii: "is_ascii s \<Longrightarrow> valid_str s"
  by (simp add: valid_str_def py_chars_ascii list_all_iff is_ascii_def)

lemma no_surrogate_ascii: "is_ascii s \<Longrightarrow> \<not> has_surrogate s"
  by (induction s rule: has_surrogate.induct) auto

lemma encode_utf8_ascii [str_simps]: "is_ascii s \<Longrightarrow> encode_utf8 s = Inr s"
  by (simp add: encode_utf8_def no_surrogate_ascii)

lemma encode_utf8_Inr [simp]: "encode_utf8 s = Inr t \<longleftrightarrow> t = s \<and> \<not> has_surrogate s"
  by (auto simp: encode_utf8_def)

lemma encode_utf8_Inl [simp]: "encode_utf8 s = Inl e \<longleftrightarrow> e = UnicodeEncodeError \<and> has_surrogate s"
  by (auto simp: encode_utf8_def)

lemma encode_ascii_ascii [str_simps]: "is_ascii s \<Longrightarrow> encode_ascii s = Inr s"
  by (simp add: encode_ascii_def)

text \<open>On well-formed characters \<open>chr\<close> inverts \<open>ord\<close>.\<close>

lemma byte_less: "byte c < (256 :: nat)"
  using of_char_mod_256 [of c, where ?'a = nat] by (metis mod_less_divisor zero_less_numeral)

lemma char_of_byte [simp]: "char_of (byte c) = c"
  by simp

lemma radix_div: "r < k \<Longrightarrow> (q * k + r) div k = (q :: nat)"
  by simp

lemma radix_mod: "r < k \<Longrightarrow> (q * k + r) mod k = (r :: nat)"
  by simp

lemma py_chr_ord: "valid_char c \<Longrightarrow> py_chr (py_ord c) = c"
proof (induction c rule: valid_char.induct)
  case (1 a)
  then show ?case by (simp add: py_chr_def)
next
  case (2 a b)
  define x y where "x = byte a - 192" and "y = byte b - 128"
  from 2 have *: "byte a = 192 + x" "byte b = 128 + y" "2 \<le> x" "x < 32" "y < 64"
    by (auto simp: x_def y_def is_cont_def)
  then have n: "128 \<le> x * 64 + y" "x * 64 + y < 2048" "(x * 64 + y) div 64 = x" "(x * 64 + y) mod 64 = y"
    by auto
  have "char_of (192 + x) = a" "char_of (128 + y) = b" using *(1,2) by (metis char_of_byte)+
  with n show ?case by (simp add: py_chr_def x_def [symmetric] y_def [symmetric])
next
  case (3 a b c)
  define x y z where "x = byte a - 224" and "y = byte b - 128" and "z = byte c - 128"
  from 3 have *: "byte a = 224 + x" "byte b = 128 + y" "byte c = 128 + z" "x < 16" "y < 64" "z < 64"
      "x = 0 \<longrightarrow> 32 \<le> y"
    by (auto simp: x_def y_def z_def is_cont_def)
  define n where "n = x * 4096 + y * 64 + z"
  have "n = x * 4096 + (y * 64 + z)" "n = (x * 64 + y) * 64 + z" by (simp_all add: n_def)
  moreover have "y * 64 + z < 4096" using *(5,6) by simp
  ultimately have "n div 4096 = x" "n div 64 = x * 64 + y" "n mod 64 = z"
    using *(5,6) by (metis radix_div radix_mod)+
  moreover have "\<not> n < 2048" "n < 65536" using *(4-7) by (auto simp: n_def)
  ultimately have r: "\<not> n < 2048" "n < 65536" "n div 4096 = x" "n div 64 mod 64 = y" "n mod 64 = z"
    using *(5,6) by simp_all
  then have "\<not> n < 128" by simp
  have "char_of (224 + x) = a" "char_of (128 + y) = b" "char_of (128 + z) = c"
    using *(1-3) by (metis char_of_byte)+
  with r \<open>\<not> n < 128\<close> show ?case
    by (simp add: py_chr_def x_def [symmetric] y_def [symmetric] z_def [symmetric] n_def [symmetric])
next
  case (4 a b c d)
  define x y z w where "x = byte a - 240" and "y = byte b - 128" and "z = byte c - 128"
    and "w = byte d - 128"
  from 4 have *: "byte a = 240 + x" "byte b = 128 + y" "byte c = 128 + z" "byte d = 128 + w"
      "x \<le> 4" "y < 64" "z < 64" "w < 64" "x = 0 \<longrightarrow> 16 \<le> y"
    by (auto simp: x_def y_def z_def w_def is_cont_def)
  define n where "n = x * 262144 + y * 4096 + z * 64 + w"
  have "n = x * 262144 + (y * 4096 + z * 64 + w)" "n = (x * 64 + y) * 4096 + (z * 64 + w)"
      "n = ((x * 64 + y) * 64 + z) * 64 + w"
    by (simp_all add: n_def)
  moreover have "y * 4096 + z * 64 + w < 262144" "z * 64 + w < 4096" using *(6-8) by simp_all
  ultimately have "n div 262144 = x" "n div 4096 = x * 64 + y" "n div 64 = (x * 64 + y) * 64 + z"
      "n mod 64 = w"
    using *(6-8) by (metis radix_div radix_mod)+
  moreover have "\<not> n < 65536" using *(9) by (auto simp: n_def)
  ultimately have r: "\<not> n < 65536" "n div 262144 = x" "n div 4096 mod 64 = y" "n div 64 mod 64 = z"
      "n mod 64 = w"
    using *(6,7) by (simp_all only: radix_mod not_False_eq_True)
  then have "\<not> n < 128" "\<not> n < 2048" by simp_all
  have "char_of (240 + x) = a" "char_of (128 + y) = b" "char_of (128 + z) = c" "char_of (128 + w) = d"
    using *(1-4) by (metis char_of_byte)+
  with r \<open>\<not> n < 128\<close> \<open>\<not> n < 2048\<close> show ?case
    by (simp add: py_chr_def x_def [symmetric] y_def [symmetric] z_def [symmetric] w_def [symmetric]
        n_def [symmetric])
qed auto

subsection \<open>The string methods the code uses\<close>

definition starts_with :: "string \<Rightarrow> string \<Rightarrow> bool" where
  "starts_with p s \<longleftrightarrow> take (length p) s = p"

definition ends_with :: "string \<Rightarrow> string \<Rightarrow> bool" where
  "ends_with p s \<longleftrightarrow> length p \<le> length s \<and> drop (length s - length p) s = p"

text \<open>\<open>needle in s\<close>.\<close>

fun contains :: "string \<Rightarrow> string \<Rightarrow> bool" where
  "contains p [] = (p = [])"
| "contains p (c # s) = (starts_with p (c # s) \<or> contains p s)"

text \<open>\<open>s.split(sep)\<close> for a separator of one character.\<close>

fun split_on :: "char \<Rightarrow> string \<Rightarrow> string list" where
  "split_on x [] = [[]]"
| "split_on x (c # s) =
     (if c = x then [] # split_on x s
      else (case split_on x s of [] \<Rightarrow> [[c]] | w # ws \<Rightarrow> (c # w) # ws))"

text \<open>\<open>sep.join(ss)\<close>.\<close>

fun join :: "string \<Rightarrow> string list \<Rightarrow> string" where
  "join sep [] = []"
| "join sep [s] = s"
| "join sep (s # t # ts) = s @ sep @ join sep (t # ts)"

definition replace_char :: "char \<Rightarrow> char \<Rightarrow> string \<Rightarrow> string" where
  "replace_char a b s = map (\<lambda>c. if c = a then b else c) s"

text \<open>
  The whitespace characters of \<open>str.strip()\<close>: the ASCII ones, then \<open>U+0085\<close>, \<open>U+00A0\<close>,
  \<open>U+1680\<close>, \<open>U+2000..U+200A\<close>, \<open>U+2028\<close>, \<open>U+2029\<close>, \<open>U+202F\<close>, \<open>U+205F\<close> and \<open>U+3000\<close>.
\<close>

definition space_points :: "nat list" where
  "space_points = [9, 10, 11, 12, 13, 28, 29, 30, 31, 32, 133, 160, 5760] @ [8192..<8203]
     @ [8232, 8233, 8239, 8287, 12288]"

definition is_space :: "string \<Rightarrow> bool" where
  "is_space c \<longleftrightarrow> List.member space_points (py_ord c)"

definition strip :: "string \<Rightarrow> string" where
  "strip s = concat (rev (dropWhile is_space (rev (dropWhile is_space (py_chars s)))))"

text \<open>\<open>s.rstrip(c)\<close> for one ASCII character.\<close>

definition rstrip_char :: "char \<Rightarrow> string \<Rightarrow> string" where
  "rstrip_char x s = rev (dropWhile (\<lambda>c. c = x) (rev s))"

lemma starts_with_append [simp, str_simps]: "starts_with p (p @ s)"
  by (simp add: starts_with_def)

lemma ends_with_append [simp, str_simps]: "ends_with p (s @ p)"
  by (simp add: ends_with_def)

lemma split_on_ne [simp]: "split_on x s \<noteq> []"
  by (cases s) (auto split: list.splits)

lemma split_on_none: "x \<notin> set s \<Longrightarrow> split_on x s = [s]"
  by (induction s) auto

lemma split_on_append:
  "x \<notin> set s \<Longrightarrow> split_on x (s @ x # t) = s # split_on x t"
  by (induction s) auto

lemma join_split_on: "join [x] (split_on x s) = s"
proof (induction s)
  case Nil
  then show ?case by simp
next
  case (Cons c s)
  then show ?case by (cases "split_on x s"; cases "tl (split_on x s)") auto
qed

lemma split_on_set: "w \<in> set (split_on x s) \<Longrightarrow> x \<notin> set w"
proof (induction s arbitrary: w)
  case (Cons c s)
  then show ?case by (cases "split_on x s") (auto split: if_splits)
qed simp

lemma rstrip_char_append:
  "s = [] \<or> last s \<noteq> x \<Longrightarrow> rstrip_char x (s @ replicate n x) = s"
  by (cases s rule: rev_cases) (auto simp: rstrip_char_def dropWhile_append)

subsection \<open>Decimal notation\<close>

lemmas char_of_eval = char_of_def bit_iff_odd

definition digit :: "nat \<Rightarrow> char" where
  "digit n = char_of (48 + n)"

fun dec_nat :: "nat \<Rightarrow> string" where
  "dec_nat n = (if n < 10 then [digit n] else dec_nat (n div 10) @ [digit (n mod 10)])"

declare dec_nat.simps [simp del]

definition dec_int :: "int \<Rightarrow> string" where
  "dec_int i = (if i < 0 then CHR ''-'' # dec_nat (nat (- i)) else dec_nat (nat i))"

text \<open>The format specification \<open>:04d\<close> on a natural number.\<close>

definition zero_pad :: "nat \<Rightarrow> nat \<Rightarrow> string" where
  "zero_pad w n = replicate (w - length (dec_nat n)) CHR ''0'' @ dec_nat n"

definition is_digit :: "char \<Rightarrow> bool" where
  "is_digit c \<longleftrightarrow> 48 \<le> byte c \<and> byte c \<le> 57"

text \<open>\<open>int(s)\<close> of a string of decimal digits.\<close>

definition read_nat :: "string \<Rightarrow> nat" where
  "read_nat s = foldl (\<lambda>n c. 10 * n + (byte c - 48)) 0 s"

lemma byte_digit [simp]: "n < 10 \<Longrightarrow> byte (digit n) = 48 + n"
  by (simp add: digit_def)

lemma is_digit_digit [simp]: "n < 10 \<Longrightarrow> is_digit (digit n)"
  by (simp add: is_digit_def)

lemma dec_nat_digits: "c \<in> set (dec_nat n) \<Longrightarrow> is_digit c"
proof (induction n rule: dec_nat.induct)
  case (1 n)
  then show ?case by (cases "n < 10") (auto simp: dec_nat.simps [of n])
qed

lemma dec_nat_ne [simp]: "dec_nat n \<noteq> []"
  by (subst dec_nat.simps) simp

lemma read_nat_snoc: "read_nat (s @ [c]) = 10 * read_nat s + (byte c - 48)"
  by (simp add: read_nat_def)

lemma read_dec_nat [simp]: "read_nat (dec_nat n) = n"
proof (induction n rule: dec_nat.induct)
  case (1 n)
  then show ?case
    by (cases "n < 10") (simp_all add: dec_nat.simps [of n] read_nat_snoc, simp add: read_nat_def)
qed

lemma dec_nat_inj [simp]: "dec_nat m = dec_nat n \<longleftrightarrow> m = n"
  by (metis read_dec_nat)

lemma read_nat_zeros: "read_nat (replicate k CHR ''0'' @ s) = read_nat s"
  by (induction k) (simp_all add: read_nat_def)

lemma zero_pad_inj: "zero_pad w m = zero_pad w n \<longleftrightarrow> m = n"
  by (metis zero_pad_def read_nat_zeros read_dec_nat)

lemma dec_nat_hd: "0 < n \<Longrightarrow> hd (dec_nat n) \<noteq> CHR ''0''"
proof (induction n rule: dec_nat.induct)
  case (1 n)
  show ?case
  proof (cases "n < 10")
    case True
    then have "byte (digit n) \<noteq> byte (CHR ''0'')" using 1 by simp
    then have "digit n \<noteq> CHR ''0''" by metis
    with True show ?thesis by (simp add: dec_nat.simps [of n])
  next
    case False
    with 1 have "hd (dec_nat (n div 10)) \<noteq> CHR ''0''" by simp
    with False show ?thesis by (simp add: dec_nat.simps [of n])
  qed
qed

lemma is_digit_ascii: "is_digit c \<Longrightarrow> byte c < 128"
  by (simp add: is_digit_def)

lemma dec_nat_ascii [simp]: "is_ascii (dec_nat n)"
  using dec_nat_digits is_digit_ascii by (auto simp: is_ascii_def list_all_iff)

lemma dec_int_ascii [simp]: "is_ascii (dec_int i)"
  by (simp add: dec_int_def)

subsection \<open>Lines\<close>

text \<open>\<open>s.splitlines()\<close>: the line boundaries are the ASCII ones, \<open>U+001C\<close> to \<open>U+001E\<close>, \<open>U+0085\<close>, \<open>U+2028\<close> and
  \<open>U+2029\<close>; a carriage return followed by a newline is one boundary.\<close>

definition line_breaks :: "nat list" where
  "line_breaks = [10, 11, 12, 13, 28, 29, 30, 133, 8232, 8233]"

definition in_line :: "string \<Rightarrow> bool" where
  "in_line c \<longleftrightarrow> \<not> List.member line_breaks (py_ord c)"

fun after_break :: "string list \<Rightarrow> string list" where
  "after_break [] = []"
| "after_break [b] = []"
| "after_break (b # c # cs) = (if b = [CHR 0x0D] \<and> c = [CHR 0x0A] then cs else c # cs)"

function split_lines :: "string list \<Rightarrow> string list" where
  "split_lines [] = []"
| "split_lines (c # cs) =
     concat (takeWhile in_line (c # cs)) # split_lines (after_break (dropWhile in_line (c # cs)))"
  by pat_completeness auto
termination
proof (relation "measure length")
  fix c :: string and cs
  have a: "length (after_break xs) \<le> length xs - 1" for xs
    by (induction xs rule: after_break.induct) auto
  define d where "d = dropWhile in_line (c # cs)"
  have "length d \<le> Suc (length cs)" using length_dropWhile_le [of in_line "c # cs"] unfolding d_def by simp
  with a [of d] have "length (after_break d) < Suc (length cs)" by linarith
  then show "(after_break (dropWhile in_line (c # cs)), c # cs) \<in> measure length"
    unfolding d_def in_measure length_Cons .
qed simp

definition splitlines :: "string \<Rightarrow> string list" where
  "splitlines s = split_lines (py_chars s)"

lemma splitlines_ne: "s \<noteq> [] \<Longrightarrow> splitlines s \<noteq> []"
  by (cases s) (simp_all add: splitlines_def)

section \<open>Stripping ASCII text\<close>

lemma strip_ascii_plain:
  "is_ascii s \<Longrightarrow> s = [] \<or> (32 < byte (hd s) \<and> 32 < byte (last s)) \<Longrightarrow> strip s = s"
proof -
  assume a: "is_ascii s" "s = [] \<or> (32 < byte (hd s) \<and> 32 < byte (last s))"
  have sp: "\<not> is_space [c]" if "32 < byte c" "byte c < 128" for c
    using that by (simp add: is_space_def space_points_def)
  have head: "dropWhile is_space (map (\<lambda>c. [c]) t) = map (\<lambda>c. [c]) t" if "t = [] \<or> \<not> is_space [hd t]" for t
    using that by (cases t) simp_all
  have "is_ascii s \<Longrightarrow> s \<noteq> [] \<Longrightarrow> byte (hd s) < 128 \<and> byte (last s) < 128" by (simp add: is_ascii_def list_all_iff)
  then have "s = [] \<or> \<not> is_space [hd s] \<and> \<not> is_space [last s]" using a sp by blast
  then have "dropWhile is_space (map (\<lambda>c. [c]) s) = map (\<lambda>c. [c]) s"
    "dropWhile is_space (rev (map (\<lambda>c. [c]) s)) = rev (map (\<lambda>c. [c]) s)"
    using head [of s] head [of "rev s"] by (auto simp: rev_map hd_rev)
  then show ?thesis unfolding strip_def py_chars_ascii [OF a(1)] by (simp only: rev_rev_ident concat_map_singleton list.map_ident)
qed

lemma strip_ascii_blank: "is_ascii s \<Longrightarrow> \<forall>c \<in> set s. byte c = 32 \<or> byte c = 10 \<Longrightarrow> strip s = []"
proof -
  assume a: "is_ascii s" "\<forall>c \<in> set s. byte c = 32 \<or> byte c = 10"
  then have "dropWhile is_space (map (\<lambda>c. [c]) s) = []"
    by (auto simp: dropWhile_eq_Nil_conv is_space_def space_points_def)
  then show ?thesis unfolding strip_def py_chars_ascii [OF a(1)] by (simp only: rev.simps dropWhile.simps concat.simps)
qed

end
