(* ===== verification/PyValue.thy ===== *)
theory PyValue
  imports PyString
begin

text \<open>
  The dynamically typed values that flow through the control plane: the values of
  \<open>json.loads\<close>, that is \<open>None\<close>, booleans, integers, floats, strings, lists and dictionaries with
  string keys. With them come the built-in operations the code applies to values of unknown
  type: truth testing, \<open>str()\<close> and \<open>repr()\<close>, \<open>.get\<close>, iteration and subscription, each with the
  exception it raises on a value of the wrong type.

  A \<open>float\<close> is kept as the exact decimal it was read from. This agrees with the interpreter's
  doubles on every decimal with at most 15 significant digits and an exponent in range.
\<close>

section \<open>Values\<close>

datatype pyfloat = Decimal int int | NaN | Infinity bool

text \<open>\<open>Decimal m e\<close> is \<open>m * 10 ^ e\<close>; the mantissa of a non-zero number has no trailing zero.\<close>

function mk_decimal :: "int \<Rightarrow> int \<Rightarrow> pyfloat" where
  "mk_decimal m e =
     (if m = 0 then Decimal 0 0 else if m mod 10 = 0 then mk_decimal (m div 10) (e + 1) else Decimal m e)"
  by pat_completeness auto
termination
proof (relation "measure (\<lambda>(m, e). nat \<bar>m\<bar>)")
  fix m :: int assume "m \<noteq> 0" "m mod 10 = 0"
  then obtain k where "m = 10 * k" "k \<noteq> 0" by (auto simp: mod_eq_0_iff_dvd dvd_def)
  then have "\<bar>m div 10\<bar> < \<bar>m\<bar>" by simp
  then show "((m div 10, e + 1), m, e) \<in> measure (\<lambda>(m, e). nat \<bar>m\<bar>)" for e :: int by simp
qed simp

declare mk_decimal.simps [simp del]

datatype pyval =
    PNone
  | PBool bool
  | PInt int
  | PFloat pyfloat
  | PStr string
  | PList "pyval list"
  | PDict "(string \<times> pyval) list"

type_synonym pydict = "pyval dict"

fun truthy :: "pyval \<Rightarrow> bool" where
  "truthy PNone = False"
| "truthy (PBool b) = b"
| "truthy (PInt i) = (i \<noteq> 0)"
| "truthy (PFloat (Decimal m e)) = (m \<noteq> 0)"
| "truthy (PFloat _) = True"
| "truthy (PStr s) = (s \<noteq> [])"
| "truthy (PList xs) = (xs \<noteq> [])"
| "truthy (PDict d) = (d \<noteq> [])"

fun is_str :: "pyval \<Rightarrow> bool" where
  "is_str (PStr _) = True"
| "is_str _ = False"

fun is_dict :: "pyval \<Rightarrow> bool" where
  "is_dict (PDict _) = True"
| "is_dict _ = False"

text \<open>\<open>d.get(k, default)\<close> on a dictionary.\<close>

definition dget_or :: "pydict \<Rightarrow> string \<Rightarrow> pyval \<Rightarrow> pyval" where
  "dget_or d k v = (case dget d k of None \<Rightarrow> v | Some x \<Rightarrow> x)"

text \<open>\<open>d[k]\<close> on a dictionary.\<close>

definition dindex :: "pydict \<Rightarrow> string \<Rightarrow> pyval result" where
  "dindex d k = (case dget d k of None \<Rightarrow> Inl (KeyError k) | Some x \<Rightarrow> Inr x)"

text \<open>\<open>v.get(k, default)\<close> on a value of unknown type: only dictionaries have \<open>get\<close>.\<close>

fun val_get :: "pyval \<Rightarrow> string \<Rightarrow> pyval \<Rightarrow> pyval result" where
  "val_get (PDict d) k v = Inr (dget_or d k v)"
| "val_get _ k v = Inl AttributeError"

text \<open>Iteration over a value of unknown type.\<close>

fun val_iter :: "pyval \<Rightarrow> pyval list result" where
  "val_iter (PList xs) = Inr xs"
| "val_iter (PDict d) = Inr (map (PStr \<circ> fst) d)"
| "val_iter (PStr s) = Inr (map PStr (py_chars s))"
| "val_iter _ = Inl TypeError"

text \<open>
  \<open>dict(v)\<close>, which the code applies to mappings only; the constructor's other accepted argument,
  a sequence of pairs, is not in use and is treated like every other value.
\<close>

fun val_dict :: "pyval \<Rightarrow> pydict result" where
  "val_dict (PDict d) = Inr d"
| "val_dict _ = Inl TypeError"

section \<open>Text of a value\<close>

text \<open>\<open>repr\<close> of a float: fixed notation for exponents from -4 to 15, scientific otherwise.\<close>

definition show_decimal :: "int \<Rightarrow> int \<Rightarrow> string" where
  "show_decimal m e =
     (let ds = dec_nat (nat \<bar>m\<bar>); n = int (length ds); p = n + e;
          sign = (if m < 0 then ''-'' else []);
          body =
            (if m = 0 then ''0.0''
             else if p \<le> -4 \<or> p > 16 then
               (let x = p - 1; xs = zero_pad 2 (nat \<bar>x\<bar>)
                in [hd ds] @ (if tl ds = [] then [] else CHR ''.'' # tl ds)
                     @ ''e'' @ (if x < 0 then ''-'' else ''+'') @ xs)
             else if p \<le> 0 then ''0.'' @ replicate (nat (- p)) CHR ''0'' @ ds
             else if n \<le> p then ds @ replicate (nat (p - n)) CHR ''0'' @ ''.0''
             else take (nat p) ds @ ''.'' @ drop (nat p) ds)
      in sign @ body)"

fun show_float :: "pyfloat \<Rightarrow> string" where
  "show_float (Decimal m e) = show_decimal m e"
| "show_float NaN = ''nan''"
| "show_float (Infinity neg) = (if neg then ''-inf'' else ''inf'')"

definition hex_digit :: "nat \<Rightarrow> char" where
  "hex_digit n = char_of (if n < 10 then 48 + n else 87 + n)"

abbreviation backslash :: char where
  "backslash \<equiv> CHR 0x5C"

abbreviation quote1 :: char where
  "quote1 \<equiv> CHR 0x27"

abbreviation quote2 :: char where
  "quote2 \<equiv> CHR 0x22"

abbreviation newline :: char where
  "newline \<equiv> CHR 0x0A"

text \<open>\<open>repr(s)\<close> of a string; characters beyond ASCII count as printable.\<close>

definition repr_char :: "char \<Rightarrow> char \<Rightarrow> string" where
  "repr_char q c =
     (if c = q \<or> c = backslash then [backslash, c]
      else if c = CHR 0x0A then [backslash, CHR ''n'']
      else if c = CHR 0x0D then [backslash, CHR ''r'']
      else if c = CHR 0x09 then [backslash, CHR ''t'']
      else if byte c < 32 \<or> byte c = 127 then
        [backslash, CHR ''x'', hex_digit (byte c div 16), hex_digit (byte c mod 16)]
      else [c])"

definition repr_str :: "string \<Rightarrow> string" where
  "repr_str s =
     (let q = (if List.member s quote1 \<and> \<not> List.member s quote2 then quote2 else quote1)
      in [q] @ concat (map (repr_char q) s) @ [q])"

fun py_repr :: "pyval \<Rightarrow> string"
  and py_repr_items :: "pyval list \<Rightarrow> string list"
  and py_repr_pairs :: "(string \<times> pyval) list \<Rightarrow> string list" where
  "py_repr PNone = ''None''"
| "py_repr (PBool b) = (if b then ''True'' else ''False'')"
| "py_repr (PInt i) = dec_int i"
| "py_repr (PFloat f) = show_float f"
| "py_repr (PStr s) = repr_str s"
| "py_repr (PList xs) = ''['' @ join '', '' (py_repr_items xs) @ '']''"
| "py_repr (PDict d) = ''{'' @ join '', '' (py_repr_pairs d) @ ''}''"
| "py_repr_items [] = []"
| "py_repr_items (x # xs) = py_repr x # py_repr_items xs"
| "py_repr_pairs [] = []"
| "py_repr_pairs ((k, v) # d) = (repr_str k @ '': '' @ py_repr v) # py_repr_pairs d"

text \<open>\<open>str(v)\<close>.\<close>

fun py_str :: "pyval \<Rightarrow> string" where
  "py_str (PStr s) = s"
| "py_str v = py_repr v"

section \<open>Well-formed values\<close>

text \<open>
  The values that occur: dictionary keys are distinct at every level and every string is the
  encoding of a Python \<open>str\<close>.
\<close>

fun wf_val :: "pyval \<Rightarrow> bool"
  and wf_vals :: "pyval list \<Rightarrow> bool"
  and wf_pairs :: "(string \<times> pyval) list \<Rightarrow> bool" where
  "wf_val (PStr s) = valid_str s"
| "wf_val (PList xs) = wf_vals xs"
| "wf_val (PDict d) = (dict_wf d \<and> wf_pairs d)"
| "wf_val _ = True"
| "wf_vals [] = True"
| "wf_vals (x # xs) = (wf_val x \<and> wf_vals xs)"
| "wf_pairs [] = True"
| "wf_pairs ((k, v) # d) = (valid_str k \<and> wf_val v \<and> wf_pairs d)"

lemma wf_vals_iff: "wf_vals xs \<longleftrightarrow> (\<forall>x \<in> set xs. wf_val x)"
  by (induction xs) auto

lemma wf_pairs_iff: "wf_pairs d \<longleftrightarrow> (\<forall>(k, v) \<in> set d. valid_str k \<and> wf_val v)"
  by (induction d) auto

lemma dget_or_Some [simp, dict_simps]: "dget d k = Some v \<Longrightarrow> dget_or d k x = v"
  by (simp add: dget_or_def)

lemma dget_or_None [simp, dict_simps]: "dget d k = None \<Longrightarrow> dget_or d k x = x"
  by (simp add: dget_or_def)

lemma wf_dget: "wf_pairs d \<Longrightarrow> dget d k = Some v \<Longrightarrow> wf_val v"
  by (auto simp: wf_pairs_iff dest!: map_of_SomeD)

end
