(* ===== verification/Json.thy ===== *)
theory Json
  imports PyValue
begin

text \<open>
  The standard library's \<open>json.dumps\<close> and \<open>json.loads\<close>, as far as the control plane uses them:
  printing with the options \<open>sort_keys\<close>, \<open>ensure_ascii\<close> and the compact separators, and reading
  from a \<open>str\<close> or from \<open>bytes\<close>. The reader follows the interpreter's scanner, including its
  extensions (\<open>NaN\<close>, \<open>Infinity\<close>, duplicate keys where the last one wins, lone surrogates) and the
  limit of 4300 digits on integers (the interpreter's recursion limit is not modelled). The main result is the round trip: what \<open>dumps\<close> prints,
  \<open>loads\<close> reads back, up to the order of keys when they were sorted.

  The reader recurses on a fuel argument. A text of length \<open>n\<close> needs at most \<open>2 * n + 1\<close>
  (\<open>scan_value_fuel\<close>), and this is the fuel \<open>json_loads\<close> supplies, so running out never shows.
\<close>

section \<open>Printing\<close>

record dump_opts =
  sort_keys :: bool
  compact :: bool
  ensure_ascii :: bool

definition item_sep :: "dump_opts \<Rightarrow> string" where
  "item_sep opts = (if compact opts then '','' else '', '')"

definition key_sep :: "dump_opts \<Rightarrow> string" where
  "key_sep opts = (if compact opts then '':'' else '': '')"

text \<open>The escape \<open>\uXXXX\<close> with lower-case hexadecimal digits.\<close>

definition u_escape :: "nat \<Rightarrow> string" where
  "u_escape n = [backslash, CHR ''u'', hex_digit (n div 4096 mod 16), hex_digit (n div 256 mod 16),
     hex_digit (n div 16 mod 16), hex_digit (n mod 16)]"

definition esc_byte :: "char \<Rightarrow> string" where
  "esc_byte c =
     (if c = quote2 then [backslash, quote2]
      else if c = backslash then [backslash, backslash]
      else if c = CHR 0x0A then [backslash, CHR ''n'']
      else if c = CHR 0x0D then [backslash, CHR ''r'']
      else if c = CHR 0x09 then [backslash, CHR ''t'']
      else if c = CHR 0x0C then [backslash, CHR ''f'']
      else if c = CHR 0x08 then [backslash, CHR ''b'']
      else if byte c < 32 then u_escape (byte c)
      else [c])"

text \<open>With \<open>ensure_ascii\<close>, a character outside the printable ASCII range is escaped too.\<close>

definition esc_char_ascii :: "string \<Rightarrow> string" where
  "esc_char_ascii g =
     (let n = py_ord g
      in if n < 127 then concat (map esc_byte g)
         else if n < 65536 then u_escape n
         else u_escape (55296 + (n - 65536) div 1024) @ u_escape (56320 + (n - 65536) mod 1024))"

definition esc_str :: "dump_opts \<Rightarrow> string \<Rightarrow> string" where
  "esc_str opts s =
     [quote2] @ (if ensure_ascii opts then concat (map esc_char_ascii (py_chars s))
                 else concat (map esc_byte s)) @ [quote2]"

fun dump_float :: "pyfloat \<Rightarrow> string" where
  "dump_float (Decimal m e) = show_decimal m e"
| "dump_float NaN = ''NaN''"
| "dump_float (Infinity neg) = (if neg then ''-Infinity'' else ''Infinity'')"

definition dump_members :: "dump_opts \<Rightarrow> (string \<times> string) list \<Rightarrow> string" where
  "dump_members opts ms =
     ''{'' @ join (item_sep opts)
       (map (\<lambda>(k, t). esc_str opts k @ key_sep opts @ t)
         (if sort_keys opts then sort_key fst ms else ms)) @ ''}''"

fun json_dumps :: "dump_opts \<Rightarrow> pyval \<Rightarrow> string"
  and dump_items :: "dump_opts \<Rightarrow> pyval list \<Rightarrow> string list"
  and dump_pairs :: "dump_opts \<Rightarrow> (string \<times> pyval) list \<Rightarrow> (string \<times> string) list" where
  "json_dumps opts PNone = ''null''"
| "json_dumps opts (PBool b) = (if b then ''true'' else ''false'')"
| "json_dumps opts (PInt i) = dec_int i"
| "json_dumps opts (PFloat f) = dump_float f"
| "json_dumps opts (PStr s) = esc_str opts s"
| "json_dumps opts (PList xs) = ''['' @ join (item_sep opts) (dump_items opts xs) @ '']''"
| "json_dumps opts (PDict d) = dump_members opts (dump_pairs opts d)"
| "dump_items opts [] = []"
| "dump_items opts (x # xs) = json_dumps opts x # dump_items opts xs"
| "dump_pairs opts [] = []"
| "dump_pairs opts ((k, v) # d) = (k, json_dumps opts v) # dump_pairs opts d"

text \<open>
  The option sets in use: the default of \<open>json.dumps\<close>, the default without ASCII escaping, and
  the two canonical forms (sorted keys, compact separators) with and without ASCII escaping.
\<close>

definition opts_default :: dump_opts where
  "opts_default = \<lparr>sort_keys = False, compact = False, ensure_ascii = True\<rparr>"

definition opts_unicode :: dump_opts where
  "opts_unicode = \<lparr>sort_keys = False, compact = False, ensure_ascii = False\<rparr>"

definition opts_canonical :: dump_opts where
  "opts_canonical = \<lparr>sort_keys = True, compact = True, ensure_ascii = False\<rparr>"

definition opts_canonical_ascii :: dump_opts where
  "opts_canonical_ascii = \<lparr>sort_keys = True, compact = True, ensure_ascii = True\<rparr>"

definition opts_sorted_unicode :: dump_opts where
  "opts_sorted_unicode = \<lparr>sort_keys = True, compact = False, ensure_ascii = False\<rparr>"

section \<open>Reading\<close>

text \<open>The outcome of a scanner: a value with the rest of the text, an exception, or no fuel.\<close>

datatype 'a scan = SOk 'a string | SErr py_error | SFuel

fun bindS :: "'a scan \<Rightarrow> ('a \<Rightarrow> string \<Rightarrow> 'b scan) \<Rightarrow> 'b scan" where
  "bindS (SOk x r) f = f x r"
| "bindS (SErr e) f = SErr e"
| "bindS SFuel f = SFuel"

definition is_ws :: "char \<Rightarrow> bool" where
  "is_ws c \<longleftrightarrow> c = CHR '' '' \<or> c = CHR 0x09 \<or> c = CHR 0x0A \<or> c = CHR 0x0D"

definition skip_ws :: "string \<Rightarrow> string" where
  "skip_ws s = dropWhile is_ws s"

subsection \<open>String literals\<close>

definition hex_val :: "char \<Rightarrow> nat option" where
  "hex_val c =
     (let n = byte c
      in if 48 \<le> n \<and> n \<le> 57 then Some (n - 48)
         else if 97 \<le> n \<and> n \<le> 102 then Some (n - 87)
         else if 65 \<le> n \<and> n \<le> 70 then Some (n - 55)
         else None)"

text \<open>Four hexadecimal digits at the start of a text.\<close>

fun scan_hex4 :: "string \<Rightarrow> (nat \<times> string) option" where
  "scan_hex4 (a # b # c # d # r) =
     (case (hex_val a, hex_val b, hex_val c, hex_val d) of
        (Some w, Some x, Some y, Some z) \<Rightarrow> Some (w * 4096 + x * 256 + y * 16 + z, r)
      | _ \<Rightarrow> None)"
| "scan_hex4 _ = None"

text \<open>
  The text after \<open>\u\<close>: a high surrogate directly followed by an escaped low surrogate is joined
  with it; a high surrogate followed by any other escape, and a lone low surrogate, stay as they are.
\<close>

definition scan_u :: "string \<Rightarrow> (string \<times> string) option" where
  "scan_u s =
     (case scan_hex4 s of
        None \<Rightarrow> None
      | Some (u, r) \<Rightarrow>
          (if 55296 \<le> u \<and> u \<le> 56319 \<and> take 2 r = [backslash, CHR ''u''] then
             (case scan_hex4 (drop 2 r) of
                None \<Rightarrow> None
              | Some (v, r') \<Rightarrow>
                  (if 56320 \<le> v \<and> v \<le> 57343
                   then Some (py_chr (65536 + (u - 55296) * 1024 + (v - 56320)), r')
                   else Some (py_chr u, r)))
           else Some (py_chr u, r)))"

definition simple_escape :: "char \<Rightarrow> char option" where
  "simple_escape c =
     (if c = quote2 \<or> c = backslash \<or> c = CHR ''/'' then Some c
      else if c = CHR ''b'' then Some (CHR 0x08)
      else if c = CHR ''f'' then Some (CHR 0x0C)
      else if c = CHR ''n'' then Some (CHR 0x0A)
      else if c = CHR ''r'' then Some (CHR 0x0D)
      else if c = CHR ''t'' then Some (CHR 0x09)
      else None)"

lemma scan_hex4_length: "scan_hex4 s = Some (n, r) \<Longrightarrow> length r < length s"
  by (induction s rule: scan_hex4.induct) (auto split: option.splits)

lemma scan_u_length: "scan_u s = Some (c, r) \<Longrightarrow> length r < length s"
  by (auto simp: scan_u_def split: option.splits if_splits dest!: scan_hex4_length)

text \<open>The body of a string literal, after its opening quote.\<close>

function scan_string :: "string \<Rightarrow> (string \<times> string) option" where
  "scan_string [] = None"
| "scan_string (c # s) =
     (if c = quote2 then Some ([], s)
      else if byte c < 32 then None
      else if c = backslash then
        (case s of
           [] \<Rightarrow> None
         | e # s' \<Rightarrow>
             (if e = CHR ''u'' then
                (case scan_u s' of
                   None \<Rightarrow> None
                 | Some (g, r) \<Rightarrow> map_option (\<lambda>(t, q). (g @ t, q)) (scan_string r))
              else
                (case simple_escape e of
                   None \<Rightarrow> None
                 | Some x \<Rightarrow> map_option (\<lambda>(t, q). (x # t, q)) (scan_string s'))))
      else map_option (\<lambda>(t, q). (c # t, q)) (scan_string s))"
  by pat_completeness auto
termination
  by (relation "measure length") (auto dest!: scan_u_length)

subsection \<open>Numbers\<close>

definition max_int_digits :: nat where
  "max_int_digits = 4300"

text \<open>The optional fraction and exponent of a number: the digits read and the rest.\<close>

definition scan_frac :: "string \<Rightarrow> string \<times> string" where
  "scan_frac s =
     (case s of
        [] \<Rightarrow> ([], s)
      | c # r \<Rightarrow>
          (if c = CHR ''.'' \<and> takeWhile is_digit r \<noteq> []
           then (takeWhile is_digit r, dropWhile is_digit r) else ([], s)))"

definition scan_exp :: "string \<Rightarrow> int option \<times> string" where
  "scan_exp s =
     (case s of
        [] \<Rightarrow> (None, s)
      | c # r \<Rightarrow>
          (if c = CHR ''e'' \<or> c = CHR ''E'' then
             (let neg = (r \<noteq> [] \<and> hd r = CHR ''-'');
                  r' = (if r \<noteq> [] \<and> (hd r = CHR ''-'' \<or> hd r = CHR ''+'') then tl r else r);
                  ds = takeWhile is_digit r'
              in if ds = [] then (None, s)
                 else (Some (if neg then - int (read_nat ds) else int (read_nat ds)),
                       dropWhile is_digit r'))
           else (None, s)))"

text \<open>The digits of the integer part: a single zero, or digits that do not start with zero.\<close>

definition scan_digits :: "string \<Rightarrow> string \<times> string" where
  "scan_digits s =
     (case s of
        [] \<Rightarrow> ([], s)
      | c # r \<Rightarrow>
          (if c = CHR ''0'' then ([c], r)
           else if is_digit c then (takeWhile is_digit s, dropWhile is_digit s)
           else ([], s)))"

definition scan_number :: "string \<Rightarrow> pyval scan" where
  "scan_number s =
     (let neg = (s \<noteq> [] \<and> hd s = CHR ''-'');
          (ds, r) = scan_digits (if neg then tl s else s);
          sign = (\<lambda>i. if neg then - i else i :: int)
      in if ds = [] then
           (if take 3 s = ''NaN'' then SOk (PFloat NaN) (drop 3 s)
            else if take 8 s = ''Infinity'' then SOk (PFloat (Infinity False)) (drop 8 s)
            else if take 9 s = ''-Infinity'' then SOk (PFloat (Infinity True)) (drop 9 s)
            else SErr JSONDecodeError)
         else
           (let (fs, r') = scan_frac r; (ex, r'') = scan_exp r'
            in if fs = [] \<and> ex = None then
                 (if length ds > max_int_digits then SErr (ValueError [])
                  else SOk (PInt (sign (int (read_nat ds)))) r'')
               else
                 SOk (PFloat (mk_decimal (sign (int (read_nat (ds @ fs))))
                   ((case ex of None \<Rightarrow> 0 | Some x \<Rightarrow> x) - int (length fs)))) r''))"

subsection \<open>Values\<close>

definition expect :: "char \<Rightarrow> string \<Rightarrow> unit scan" where
  "expect c s = (case s of [] \<Rightarrow> SErr JSONDecodeError
     | x # r \<Rightarrow> if x = c then SOk () r else SErr JSONDecodeError)"

definition scan_key :: "string \<Rightarrow> string scan" where
  "scan_key s = (case s of [] \<Rightarrow> SErr JSONDecodeError
     | x # r \<Rightarrow> if x = quote2 then
          (case scan_string r of None \<Rightarrow> SErr JSONDecodeError | Some (k, r') \<Rightarrow> SOk k r')
        else SErr JSONDecodeError)"

definition scan_atom :: "string \<Rightarrow> pyval scan" where
  "scan_atom s =
     (if take 4 s = ''null'' then SOk PNone (drop 4 s)
      else if take 4 s = ''true'' then SOk (PBool True) (drop 4 s)
      else if take 5 s = ''false'' then SOk (PBool False) (drop 5 s)
      else scan_number s)"

fun scan_value :: "nat \<Rightarrow> string \<Rightarrow> pyval scan"
  and scan_elems :: "nat \<Rightarrow> string \<Rightarrow> pyval list scan"
  and scan_members :: "nat \<Rightarrow> string \<Rightarrow> (string \<times> pyval) list scan" where
  "scan_value 0 s = SFuel"
| "scan_value (Suc f) s =
     (case s of
        [] \<Rightarrow> SErr JSONDecodeError
      | c # r \<Rightarrow>
          (if c = quote2 then bindS (scan_key s) (\<lambda>t r'. SOk (PStr t) r')
           else if c = CHR ''{'' then
             (case skip_ws r of
                [] \<Rightarrow> SErr JSONDecodeError
              | x # r' \<Rightarrow>
                  (if x = CHR ''}'' then SOk (PDict []) r'
                   else bindS (scan_members f (x # r')) (\<lambda>ps q. SOk (PDict (dupdate [] ps)) q)))
           else if c = CHR ''['' then
             (case skip_ws r of
                [] \<Rightarrow> SErr JSONDecodeError
              | x # r' \<Rightarrow>
                  (if x = CHR '']'' then SOk (PList []) r'
                   else bindS (scan_elems f (x # r')) (\<lambda>xs q. SOk (PList xs) q)))
           else scan_atom s))"
| "scan_elems 0 s = SFuel"
| "scan_elems (Suc f) s =
     bindS (scan_value f s) (\<lambda>v r.
       (case skip_ws r of
          [] \<Rightarrow> SErr JSONDecodeError
        | x # r' \<Rightarrow>
            (if x = CHR '']'' then SOk [v] r'
             else if x = CHR '','' then
               bindS (scan_elems f (skip_ws r')) (\<lambda>vs q. SOk (v # vs) q)
             else SErr JSONDecodeError)))"
| "scan_members 0 s = SFuel"
| "scan_members (Suc f) s =
     bindS (scan_key s) (\<lambda>k r. bindS (expect CHR '':'' (skip_ws r)) (\<lambda>_ r1.
       bindS (scan_value f (skip_ws r1)) (\<lambda>v r2.
         (case skip_ws r2 of
            [] \<Rightarrow> SErr JSONDecodeError
          | x # r3 \<Rightarrow>
              (if x = CHR ''}'' then SOk [(k, v)] r3
               else if x = CHR '','' then
                 bindS (scan_members f (skip_ws r3)) (\<lambda>ps q. SOk ((k, v) # ps) q)
               else SErr JSONDecodeError)))))"

text \<open>\<open>JSONDecoder.decode\<close>: one document with white space around it.\<close>

definition json_decode :: "string \<Rightarrow> pyval result" where
  "json_decode s =
     (case scan_value (2 * length s + 1) (skip_ws s) of
        SOk v r \<Rightarrow> (if skip_ws r = [] then Inr v else Inl JSONDecodeError)
      | SErr e \<Rightarrow> Inl e
      | SFuel \<Rightarrow> Inl (OtherError ''fuel''))"

definition bom :: string where
  "bom = [CHR 0xEF, CHR 0xBB, CHR 0xBF]"

text \<open>\<open>json.loads\<close> of a \<open>str\<close>.\<close>

definition json_loads :: "string \<Rightarrow> pyval result" where
  "json_loads s = (if starts_with bom s then Inl JSONDecodeError else json_decode s)"

subsection \<open>Byte strings\<close>

text \<open>
  \<open>json.loads\<close> of \<open>bytes\<close> guesses the encoding from the first bytes and decodes with the error
  handler \<open>surrogatepass\<close>; anything undecodable raises \<open>UnicodeDecodeError\<close>.
\<close>

datatype encoding = UTF8 | UTF8_SIG | UTF16 | UTF16_BE | UTF16_LE | UTF32 | UTF32_BE | UTF32_LE

definition nul :: "char \<Rightarrow> bool" where
  "nul c \<longleftrightarrow> byte c = 0"

definition detect_encoding :: "string \<Rightarrow> encoding" where
  "detect_encoding b =
     (if starts_with [CHR 0x00, CHR 0x00, CHR 0xFE, CHR 0xFF] b
         \<or> starts_with [CHR 0xFF, CHR 0xFE, CHR 0x00, CHR 0x00] b then UTF32
      else if starts_with [CHR 0xFE, CHR 0xFF] b \<or> starts_with [CHR 0xFF, CHR 0xFE] b then UTF16
      else if starts_with bom b then UTF8_SIG
      else if length b \<ge> 4 then
        (if nul (b ! 0) then (if nul (b ! 1) then UTF32_BE else UTF16_BE)
         else if nul (b ! 1) then (if nul (b ! 2) \<and> nul (b ! 3) then UTF32_LE else UTF16_LE)
         else UTF8)
      else if length b = 2 then
        (if nul (b ! 0) then UTF16_BE else if nul (b ! 1) then UTF16_LE else UTF8)
      else UTF8)"

fun units16 :: "bool \<Rightarrow> string \<Rightarrow> nat list option" where
  "units16 be [] = Some []"
| "units16 be [a] = None"
| "units16 be (a # b # r) =
     map_option ((#) (if be then byte a * 256 + byte b else byte b * 256 + byte a)) (units16 be r)"

fun units32 :: "bool \<Rightarrow> string \<Rightarrow> nat list option" where
  "units32 be [] = Some []"
| "units32 be (a # b # c # d # r) =
     (let n = (if be then ((byte a * 256 + byte b) * 256 + byte c) * 256 + byte d
               else ((byte d * 256 + byte c) * 256 + byte b) * 256 + byte a)
      in if n > 1114111 then None else map_option ((#) n) (units32 be r))"
| "units32 be _ = None"

fun join_surrogates :: "nat list \<Rightarrow> nat list" where
  "join_surrogates (u # v # r) =
     (if 55296 \<le> u \<and> u \<le> 56319 \<and> 56320 \<le> v \<and> v \<le> 57343
      then (65536 + (u - 55296) * 1024 + (v - 56320)) # join_surrogates r
      else u # join_surrogates (v # r))"
| "join_surrogates us = us"

definition decode16 :: "bool \<Rightarrow> string \<Rightarrow> string option" where
  "decode16 be b = map_option (\<lambda>us. concat (map py_chr (join_surrogates us))) (units16 be b)"

definition decode32 :: "bool \<Rightarrow> string \<Rightarrow> string option" where
  "decode32 be b = map_option (\<lambda>us. concat (map py_chr us)) (units32 be b)"

definition decode8 :: "string \<Rightarrow> string option" where
  "decode8 b = (if valid_str b then Some b else None)"

definition decode_detected :: "string \<Rightarrow> string option" where
  "decode_detected b =
     (case detect_encoding b of
        UTF8 \<Rightarrow> decode8 b
      | UTF8_SIG \<Rightarrow> decode8 (drop 3 b)
      | UTF16 \<Rightarrow> decode16 (starts_with [CHR 0xFE, CHR 0xFF] b) (drop 2 b)
      | UTF16_BE \<Rightarrow> decode16 True b
      | UTF16_LE \<Rightarrow> decode16 False b
      | UTF32 \<Rightarrow> decode32 (starts_with [CHR 0x00, CHR 0x00, CHR 0xFE, CHR 0xFF] b) (drop 4 b)
      | UTF32_BE \<Rightarrow> decode32 True b
      | UTF32_LE \<Rightarrow> decode32 False b)"

definition json_loads_bytes :: "string \<Rightarrow> pyval result" where
  "json_loads_bytes b =
     (case decode_detected b of None \<Rightarrow> Inl UnicodeDecodeError | Some s \<Rightarrow> json_decode s)"

section \<open>Fuel is sufficient\<close>

lemma skip_ws_length: "length (skip_ws s) \<le> length s"
  by (simp add: skip_ws_def length_dropWhile_le)

lemma skip_ws_Cons_length: "skip_ws s = x # r \<Longrightarrow> length r < length s"
  using skip_ws_length [of s] by simp

lemma scan_string_length: "scan_string s = Some (t, r) \<Longrightarrow> length r < length s"
proof (induction s arbitrary: t r rule: scan_string.induct)
  case (2 c s)
  then show ?case
    by (fastforce split: if_splits list.splits option.splits dest!: scan_u_length)
qed simp

lemma scan_key_length: "scan_key s = SOk k r \<Longrightarrow> length r < length s"
  by (auto simp: scan_key_def split: list.splits if_splits option.splits dest!: scan_string_length)

lemma scan_key_not_fuel [simp]: "scan_key s \<noteq> SFuel"
  by (auto simp: scan_key_def split: list.splits option.splits)

lemma expect_length: "expect c s = SOk u r \<Longrightarrow> length r < length s"
  by (auto simp: expect_def split: list.splits if_splits)

lemma expect_not_fuel [simp]: "expect c s \<noteq> SFuel"
  by (auto simp: expect_def split: list.splits)

lemma bindS_eq_SFuel: "bindS m f = SFuel \<longleftrightarrow> m = SFuel \<or> (\<exists>x r. m = SOk x r \<and> f x r = SFuel)"
  by (cases m) auto

lemma bindS_eq_SOk: "bindS m f = SOk y q \<longleftrightarrow> (\<exists>x r. m = SOk x r \<and> f x r = SOk y q)"
  by (cases m) auto

lemma scan_digits_length: "scan_digits s = (ds, r) \<Longrightarrow> length ds + length r = length s"
  unfolding scan_digits_def
  by (auto split: list.splits if_splits simp flip: length_append)

lemma scan_frac_length: "scan_frac s = (fs, r) \<Longrightarrow> length r \<le> length s"
  by (auto simp: scan_frac_def split: list.splits if_splits intro: le_SucI length_dropWhile_le)

lemma scan_exp_length: "scan_exp s = (x, r) \<Longrightarrow> length r \<le> length s"
proof -
  assume a: "scan_exp s = (x, r)"
  have "length (dropWhile is_digit t) \<le> Suc (length (t :: string))" for t
    by (simp add: le_SucI length_dropWhile_le)
  moreover have "length (dropWhile is_digit (tl t)) \<le> Suc (length (t :: string))" for t
    by (cases t) (simp_all add: le_SucI length_dropWhile_le)
  ultimately show ?thesis
    using a by (auto simp: scan_exp_def Let_def split: list.splits if_splits)
qed

lemma take_lit_length: "take n s = t \<Longrightarrow> length t = n \<Longrightarrow> 0 < n \<Longrightarrow> length (drop n s) < length s"
  by auto

lemma scan_number_length:
  assumes "scan_number s = SOk v r"
  shows "length r < length s"
proof -
  obtain ds q where d: "scan_digits (if s \<noteq> [] \<and> hd s = CHR ''-'' then tl s else s) = (ds, q)"
    by fastforce
  obtain fs q' where f: "scan_frac q = (fs, q')" by fastforce
  obtain x q'' where e: "scan_exp q' = (x, q'')" by fastforce
  show ?thesis
  proof (cases "ds = []")
    case True
    then consider "take 3 s = ''NaN''" "r = drop 3 s" | "take 8 s = ''Infinity''" "r = drop 8 s"
      | "take 9 s = ''-Infinity''" "r = drop 9 s"
      using assms d unfolding scan_number_def Let_def by (force split: if_splits)
    then show ?thesis by cases (auto dest: take_lit_length)
  next
    case False
    have "length ds + length q \<le> length s"
      using scan_digits_length [OF d] by (cases s) (auto split: if_splits)
    moreover have "r = q''"
      using assms d f e False unfolding scan_number_def Let_def by (auto split: if_splits)
    ultimately show ?thesis
      using False scan_frac_length [OF f] scan_exp_length [OF e] by (cases ds) auto
  qed
qed

lemma scan_atom_length:
  assumes "scan_atom s = SOk v r"
  shows "length r < length s"
proof -
  consider "take 4 s = ''null''" "r = drop 4 s" | "take 4 s = ''true''" "r = drop 4 s"
    | "take 5 s = ''false''" "r = drop 5 s" | "scan_number s = SOk v r"
    using assms unfolding scan_atom_def by (force split: if_splits)
  then show ?thesis by cases (auto dest: take_lit_length scan_number_length)
qed

lemma if_not_fuel: "x \<noteq> SFuel \<Longrightarrow> y \<noteq> SFuel \<Longrightarrow> (if b then x else y) \<noteq> SFuel"
  by simp

lemma case_prod_not_fuel: "(\<And>a b. g a b \<noteq> SFuel) \<Longrightarrow> (case p of (a, b) \<Rightarrow> g a b) \<noteq> SFuel"
  by (cases p) simp

lemma scan_atom_not_fuel [simp]: "scan_atom s \<noteq> SFuel"
  unfolding scan_atom_def scan_number_def Let_def
  by (intro if_not_fuel case_prod_not_fuel) (rule scan.distinct)+

lemma scan_lengths:
  "scan_value f s = SOk v r \<Longrightarrow> length r < length s"
  "scan_elems f s = SOk vs r \<Longrightarrow> length r < length s"
  "scan_members f s = SOk ps r \<Longrightarrow> length r < length s"
proof (induction f arbitrary: s v r vs ps)
  case (Suc f)
  {
    case 1
    then obtain c t where s: "s = c # t" by (cases s) auto
    show ?case
    proof (cases "skip_ws t")
      case Nil
      with 1 s show ?thesis
        by (auto simp: bindS_eq_SOk split: if_splits dest: scan_key_length scan_atom_length)
    next
      case (Cons x u)
      have "length r < length s" if "scan_elems f (x # u) = SOk vs r \<or> scan_members f (x # u) = SOk ps r"
        for vs ps
        using that Suc(2,3) [of "x # u"] Cons s skip_ws_length [of t] by fastforce
      moreover have "length u < length s" using skip_ws_Cons_length [OF Cons] s by simp
      ultimately show ?thesis using 1 s Cons
        by (auto simp: bindS_eq_SOk split: if_splits dest: scan_key_length scan_atom_length)
    qed
  next
    case 2
    then obtain w q where w: "scan_value f s = SOk w q" by (auto simp: bindS_eq_SOk)
    with 2 obtain x u where "skip_ws q = x # u" by (cases "skip_ws q") auto
    note v = w this
    have "length u < length s"
      using Suc(1) [OF v(1)] skip_ws_Cons_length [OF v(2)] by simp
    moreover have "length r < length s" if "scan_elems f (skip_ws u) = SOk zs r" for zs
      using Suc(2) [OF that] skip_ws_length [of u] \<open>length u < length s\<close> by simp
    ultimately show ?case using 2 v by (auto simp: bindS_eq_SOk split: if_splits)
  next
    case 3
    then obtain k r0 u r1 w r2 where w: "scan_key s = SOk k r0"
        "expect CHR '':'' (skip_ws r0) = SOk u r1" "scan_value f (skip_ws r1) = SOk w r2"
      by (auto simp: bindS_eq_SOk)
    with 3 obtain x r3 where "skip_ws r2 = x # r3" by (cases "skip_ws r2") auto
    note k = w this
    have l: "length r3 < length s"
      using Suc(1) [OF k(3)] scan_key_length [OF k(1)] expect_length [OF k(2)]
        skip_ws_length [of r0] skip_ws_length [of r1] skip_ws_Cons_length [OF k(4)] by simp
    moreover have "length r < length s" if "scan_members f (skip_ws r3) = SOk zs r" for zs
      using Suc(3) [OF that] skip_ws_length [of r3] l by simp
    ultimately show ?case using 3 k by (auto simp: bindS_eq_SOk split: if_splits)
  }
qed auto

lemma scan_fuels:
  "2 * length s < f \<Longrightarrow> scan_value f s \<noteq> SFuel"
  "2 * length s + 1 < f \<Longrightarrow> scan_elems f s \<noteq> SFuel"
  "2 * length s + 1 < f \<Longrightarrow> scan_members f s \<noteq> SFuel"
proof (induction f arbitrary: s)
  case (Suc f)
  {
    case 1
    show ?case
    proof (cases s)
      case (Cons c t)
      show ?thesis
      proof (cases "skip_ws t")
        case (Cons x u)
        then have "2 * length (x # u) + 1 < f"
          using 1 \<open>s = c # t\<close> skip_ws_length [of t] by simp
        then have "scan_elems f (x # u) \<noteq> SFuel" "scan_members f (x # u) \<noteq> SFuel"
          using Suc(2,3) by blast+
        with \<open>s = c # t\<close> Cons show ?thesis by (auto simp: bindS_eq_SFuel)
      qed (use Cons in \<open>auto simp: bindS_eq_SFuel\<close>)
    qed simp
  next
    case 2
    then have v: "scan_value f s \<noteq> SFuel" using Suc(1) by simp
    have "scan_elems f (skip_ws r') \<noteq> SFuel"
      if "scan_value f s = SOk v r" "skip_ws r = x # r'" for v r x r'
      using scan_lengths(1) [OF that(1)] skip_ws_Cons_length [OF that(2)] skip_ws_length [of r'] 2
      by (intro Suc(2)) simp
    with v show ?case by (auto simp: bindS_eq_SFuel split: list.splits if_splits)
  next
    case 3
    have v: "scan_value f (skip_ws r1) \<noteq> SFuel"
      if "scan_key s = SOk k r0" "expect CHR '':'' (skip_ws r0) = SOk u r1" for k r0 u r1
      using scan_key_length [OF that(1)] expect_length [OF that(2)] skip_ws_length [of r0]
        skip_ws_length [of r1] 3 by (intro Suc(1)) simp
    have m: "scan_members f (skip_ws r3) \<noteq> SFuel"
      if "scan_key s = SOk k r0" "expect CHR '':'' (skip_ws r0) = SOk u r1"
        "scan_value f (skip_ws r1) = SOk v r2" "skip_ws r2 = x # r3" for k r0 u r1 v r2 x r3
      using scan_key_length [OF that(1)] expect_length [OF that(2)] skip_ws_length [of r0]
        scan_lengths(1) [OF that(3)] skip_ws_Cons_length [OF that(4)] skip_ws_length [of r1]
        skip_ws_length [of r3] 3 by (intro Suc(3)) simp
    show ?case
      using v m by (auto simp: bindS_eq_SFuel split: list.splits if_splits)
  }
qed auto

lemma scan_value_fuel: "scan_value (2 * length s + 1) (skip_ws s) \<noteq> SFuel"
  using scan_fuels(1) [of "skip_ws s" "2 * length s + 1"] skip_ws_length [of s] by simp

section \<open>Round trip\<close>

subsection \<open>String literals\<close>

lemma hex_val_digit: "n < 16 \<Longrightarrow> hex_val (hex_digit n) = Some n"
  by (simp add: hex_val_def hex_digit_def Let_def)

lemma scan_hex4_u_escape:
  assumes "n < 65536"
  shows "scan_hex4 (drop 2 (u_escape n) @ s) = Some (n, s)"
proof -
  have "n = n div 16 * 16 + n mod 16" "n div 16 = n div 256 * 16 + n div 16 mod 16"
      "n div 256 = n div 4096 * 16 + n div 256 mod 16"
    using div_mult2_eq [of n 16 16] div_mult2_eq [of n 256 16] by simp_all
  then have "n div 4096 * 4096 + n div 256 mod 16 * 256 + n div 16 mod 16 * 16 + n mod 16 = n"
    by linarith
  moreover have "n div 4096 mod 16 = n div 4096" using assms by simp
  ultimately show ?thesis using assms by (simp add: u_escape_def hex_val_digit)
qed

lemma scan_string_u:
  "scan_string (backslash # CHR ''u'' # s) =
     (case scan_u s of None \<Rightarrow> None | Some (g, r) \<Rightarrow> map_option (\<lambda>(t, q). (g @ t, q)) (scan_string r))"
  by simp

lemma scan_string_simple:
  "e \<noteq> CHR ''u'' \<Longrightarrow> simple_escape e = Some x \<Longrightarrow>
   scan_string (backslash # e # s) = map_option (\<lambda>(t, q). (x # t, q)) (scan_string s)"
  by simp

lemma scan_string_plain:
  "c \<noteq> quote2 \<Longrightarrow> c \<noteq> backslash \<Longrightarrow> 32 \<le> byte c \<Longrightarrow>
   scan_string (c # s) = map_option (\<lambda>(t, q). (c # t, q)) (scan_string s)"
  by simp

lemma scan_string_end: "scan_string (quote2 # s) = Some ([], s)"
  by simp

declare scan_string.simps(2) [simp del]

lemma scan_u_single:
  assumes "n < 65536" "\<not> (55296 \<le> n \<and> n \<le> 56319)"
  shows "scan_u (drop 2 (u_escape n) @ s) = Some (py_chr n, s)"
  unfolding scan_u_def scan_hex4_u_escape [OF assms(1)] using assms(2) by auto

lemma scan_u_pair:
  assumes "65536 \<le> n" "n < 1114112"
  shows "scan_u (drop 2 (u_escape (55296 + (n - 65536) div 1024))
           @ u_escape (56320 + (n - 65536) mod 1024) @ s) = Some (py_chr n, s)"
proof -
  define u v where "u = (n - 65536) div 1024" and "v = (n - 65536) mod 1024"
  have b: "u < 1024" "v < 1024" using assms unfolding u_def v_def by auto
  have n: "65536 + u * 1024 + v = n" using assms(1) unfolding u_def v_def by simp
  have "take 2 (u_escape (56320 + v) @ s) = [backslash, CHR ''u'']"
      "drop 2 (u_escape (56320 + v) @ s) = drop 2 (u_escape (56320 + v)) @ s"
    by (simp_all add: u_escape_def)
  with b n show ?thesis
    unfolding scan_u_def u_def [symmetric] v_def [symmetric]
    by (simp add: scan_hex4_u_escape)
qed

lemma u_escape_Cons: "u_escape n = backslash # CHR ''u'' # drop 2 (u_escape n)"
  by (simp add: u_escape_def)

lemma scan_string_u_escape:
  assumes "n < 65536" "\<not> (55296 \<le> n \<and> n \<le> 56319)"
  shows "scan_string (u_escape n @ s) = map_option (\<lambda>(t, q). (py_chr n @ t, q)) (scan_string s)"
  by (subst u_escape_Cons) (simp add: scan_string_u scan_u_single [OF assms])

lemma scan_string_esc_byte:
  "scan_string (esc_byte c @ s) = map_option (\<lambda>(t, q). (c # t, q)) (scan_string s)"
proof -
  consider (q) "c = quote2" | (b) "c = backslash" | (n) "c = CHR 0x0A" | (r) "c = CHR 0x0D"
    | (t) "c = CHR 0x09" | (f) "c = CHR 0x0C" | (h) "c = CHR 0x08"
    | (ctl) "byte c < 32" "c \<noteq> quote2" "c \<noteq> backslash" "c \<noteq> CHR 0x0A" "c \<noteq> CHR 0x0D"
        "c \<noteq> CHR 0x09" "c \<noteq> CHR 0x0C" "c \<noteq> CHR 0x08"
    | (plain) "32 \<le> byte c" "c \<noteq> quote2" "c \<noteq> backslash"
    by linarith
  then show ?thesis
  proof cases
    case ctl
    then have "esc_byte c = u_escape (byte c)" by (simp add: esc_byte_def)
    moreover have "py_chr (byte c) = [c]" using ctl by (simp add: py_chr_def)
    ultimately show ?thesis using ctl scan_string_u_escape [of "byte c" s] by simp
  next
    case plain
    then have "c \<noteq> CHR 0x0A" "c \<noteq> CHR 0x0D" "c \<noteq> CHR 0x09" "c \<noteq> CHR 0x0C" "c \<noteq> CHR 0x08" by auto
    with plain show ?thesis by (simp add: esc_byte_def scan_string_plain)
  qed (simp_all add: esc_byte_def scan_string_simple simple_escape_def)
qed

lemma scan_string_esc_bytes:
  "scan_string (concat (map esc_byte t) @ s) = map_option (\<lambda>(u, q). (t @ u, q)) (scan_string s)"
proof (induction t)
  case Nil
  then show ?case by (simp add: option.map_ident case_prod_unfold)
next
  case (Cons c t)
  then show ?case
    by (simp add: scan_string_esc_byte option.map_comp comp_def case_prod_unfold)
qed

definition is_surrogate :: "nat \<Rightarrow> bool" where
  "is_surrogate n \<longleftrightarrow> 55296 \<le> n \<and> n \<le> 57343"

lemma valid_char_ord_bound: "valid_char g \<Longrightarrow> py_ord g < 1114112"
  by (induction g rule: valid_char.induct) (auto simp: is_cont_def)

lemma valid_char_small: "valid_char g \<Longrightarrow> py_ord g < 128 \<Longrightarrow> \<exists>a. g = [a]"
  by (induction g rule: valid_char.induct) (auto simp: is_cont_def)

lemma scan_string_esc_char_ascii:
  assumes "valid_char g" "\<not> is_surrogate (py_ord g)"
  shows "scan_string (esc_char_ascii g @ s) = map_option (\<lambda>(t, q). (g @ t, q)) (scan_string s)"
proof -
  let ?n = "py_ord g"
  consider "?n < 127" | "127 \<le> ?n" "?n < 65536" | "65536 \<le> ?n" by linarith
  then show ?thesis
  proof cases
    case 1
    then show ?thesis by (simp add: esc_char_ascii_def Let_def scan_string_esc_bytes)
  next
    case 2
    moreover have "\<not> (55296 \<le> ?n \<and> ?n \<le> 56319)" using assms(2) by (auto simp: is_surrogate_def)
    ultimately show ?thesis
      using assms(1) scan_string_u_escape [of ?n s]
      by (simp add: esc_char_ascii_def Let_def py_chr_ord)
  next
    case 3
    let ?u = "55296 + (?n - 65536) div 1024" and ?v = "56320 + (?n - 65536) mod 1024"
    have "scan_string (u_escape ?u @ u_escape ?v @ s)
        = (case scan_u (drop 2 (u_escape ?u) @ u_escape ?v @ s) of None \<Rightarrow> None
           | Some (g, r) \<Rightarrow> map_option (\<lambda>(t, q). (g @ t, q)) (scan_string r))"
      by (subst u_escape_Cons [of ?u]) (simp add: scan_string_u)
    also have "\<dots> = map_option (\<lambda>(t, q). (g @ t, q)) (scan_string s)"
      using scan_u_pair [OF 3 valid_char_ord_bound [OF assms(1)]] assms(1) by (simp add: py_chr_ord)
    finally show ?thesis using 3 by (simp add: esc_char_ascii_def Let_def)
  qed
qed

lemma scan_string_esc_chars:
  "list_all (\<lambda>g. valid_char g \<and> \<not> is_surrogate (py_ord g)) gs \<Longrightarrow>
   scan_string (concat (map esc_char_ascii gs) @ s)
     = map_option (\<lambda>(u, q). (concat gs @ u, q)) (scan_string s)"
proof (induction gs)
  case Nil
  then show ?case by (simp add: option.map_ident case_prod_unfold)
next
  case (Cons g gs)
  then show ?case
    by (simp add: scan_string_esc_char_ascii option.map_comp comp_def case_prod_unfold)
qed

lemma surrogate_bytes:
  assumes "valid_char g" "is_surrogate (py_ord g)"
  shows "\<exists>a b c. g = [a, b, c] \<and> byte a = 237 \<and> 160 \<le> byte b"
  using assms
proof (induction g rule: valid_char.induct)
  case (3 a b c)
  define x y z where "x = byte a - 224" and "y = byte b - 128" and "z = byte c - 128"
  from 3 have *: "byte a = 224 + x" "byte b = 128 + y" "y < 64" "z < 64"
    by (auto simp: x_def y_def z_def is_cont_def)
  have "55296 \<le> x * 4096 + y * 64 + z" "x * 4096 + y * 64 + z \<le> 57343"
    using 3(2) by (simp_all add: is_surrogate_def x_def y_def z_def)
  then have x: "x = 13" using *(3,4) by linarith
  moreover have "32 \<le> y" using \<open>55296 \<le> _\<close> *(4) unfolding x by linarith
  ultimately show ?case using * by simp
qed (auto simp: is_surrogate_def is_cont_def)

lemma has_surrogate_prefix: "has_surrogate t \<Longrightarrow> has_surrogate (s @ t)"
proof (induction s)
  case (Cons a s)
  then show ?case by (cases "s @ t") auto
qed simp

lemma no_surrogate_chars:
  assumes "\<not> has_surrogate s" "g \<in> set (py_chars s)" "valid_char g"
  shows "\<not> is_surrogate (py_ord g)"
proof
  assume "is_surrogate (py_ord g)"
  then obtain a b c where g: "g = [a, b, c]" "byte a = 237" "160 \<le> byte b"
    using assms(3) surrogate_bytes by blast
  obtain xs ys where "py_chars s = xs @ g # ys" using assms(2) by (auto simp: in_set_conv_decomp)
  then have "s = concat xs @ a # b # c # concat ys"
    using concat_py_chars [of s] g by simp
  moreover have "has_surrogate (a # b # c # concat ys)" using g by simp
  ultimately show False using assms(1) has_surrogate_prefix by metis
qed

lemma scan_string_esc_str:
  assumes "ensure_ascii opts \<longrightarrow> valid_str t \<and> \<not> has_surrogate t"
  shows "scan_string (tl (esc_str opts t) @ s) = Some (t, s)"
proof (cases "ensure_ascii opts")
  case True
  with assms have "list_all (\<lambda>g. valid_char g \<and> \<not> is_surrogate (py_ord g)) (py_chars t)"
    by (auto simp: valid_str_def list_all_iff dest: no_surrogate_chars)
  then show ?thesis
    using True scan_string_esc_chars [of "py_chars t" "quote2 # s"]
    by (simp add: esc_str_def scan_string_end)
next
  case False
  then show ?thesis
    using scan_string_esc_bytes [of t "quote2 # s"] by (simp add: esc_str_def scan_string_end)
qed

lemma scan_key_esc_str:
  "ensure_ascii opts \<longrightarrow> valid_str t \<and> \<not> has_surrogate t \<Longrightarrow> scan_key (esc_str opts t @ s) = SOk t s"
  using scan_string_esc_str [of opts t s] by (simp add: scan_key_def esc_str_def)

subsection \<open>Numbers and values\<close>

definition stops :: "string \<Rightarrow> bool" where
  "stops r \<longleftrightarrow> (case r of [] \<Rightarrow> True
     | c # _ \<Rightarrow> \<not> is_digit c \<and> c \<noteq> CHR ''.'' \<and> c \<noteq> CHR ''e'' \<and> c \<noteq> CHR ''E'')"

definition int_ok :: "int \<Rightarrow> bool" where
  "int_ok i \<longleftrightarrow> length (dec_nat (nat \<bar>i\<bar>)) \<le> max_int_digits"

lemma stops_frac: "stops r \<Longrightarrow> scan_frac r = ([], r)"
  by (auto simp: stops_def scan_frac_def split: list.splits)

lemma stops_exp: "stops r \<Longrightarrow> scan_exp r = (None, r)"
  by (auto simp: stops_def scan_exp_def split: list.splits)

lemma takeWhile_digits: "stops r \<Longrightarrow> takeWhile is_digit (dec_nat n @ r) = dec_nat n"
  by (cases r) (auto simp: stops_def takeWhile_append2 dec_nat_digits)

lemma dropWhile_digits: "stops r \<Longrightarrow> dropWhile is_digit (dec_nat n @ r) = r"
  by (cases r) (auto simp: stops_def dropWhile_append2 dec_nat_digits)

lemma scan_digits_dec: "stops r \<Longrightarrow> scan_digits (dec_nat n @ r) = (dec_nat n, r)"
proof -
  assume r: "stops r"
  show ?thesis
  proof (cases "n = 0")
    case True
    then have "dec_nat n = ''0''" by (simp add: dec_nat.simps digit_def char_of_eval)
    then show ?thesis by (simp add: scan_digits_def)
  next
    case False
    obtain c t where d: "dec_nat n = c # t" by (cases "dec_nat n") auto
    have "is_digit c" "c \<noteq> CHR ''0''"
      using dec_nat_digits [of c n] dec_nat_hd [of n] d False by auto
    then show ?thesis
      using takeWhile_digits [OF r, of n] dropWhile_digits [OF r, of n] d
      by (simp add: scan_digits_def)
  qed
qed

lemma dec_nat_hd_not_minus: "hd (dec_nat n @ r) \<noteq> CHR ''-''"
proof -
  have "is_digit (hd (dec_nat n))" by (intro dec_nat_digits [of _ n] hd_in_set) simp
  then show ?thesis by (auto simp: is_digit_def hd_append)
qed

lemma scan_number_dec_int:
  assumes "stops r" "int_ok i"
  shows "scan_number (dec_int i @ r) = SOk (PInt i) r"
proof (cases "i < 0")
  case True
  with assms show ?thesis
    by (simp add: scan_number_def dec_int_def scan_digits_dec stops_frac stops_exp int_ok_def)
next
  case False
  then have "dec_int i = dec_nat (nat i)" by (simp add: dec_int_def)
  with False assms show ?thesis
    using dec_nat_hd_not_minus [of "nat i" r]
    by (simp add: scan_number_def scan_digits_dec stops_frac stops_exp int_ok_def)
qed

text \<open>
  The values that survive printing and reading: distinct keys, no floats, integers within the
  reader's limit, and no surrogates where they would be escaped (two escaped surrogates side by
  side are read as one character).
\<close>

definition str_ok :: "dump_opts \<Rightarrow> string \<Rightarrow> bool" where
  "str_ok opts s \<longleftrightarrow> (if ensure_ascii opts then valid_str s \<and> \<not> has_surrogate s else True)"

fun printable :: "dump_opts \<Rightarrow> pyval \<Rightarrow> bool"
  and printables :: "dump_opts \<Rightarrow> pyval list \<Rightarrow> bool"
  and printable_pairs :: "dump_opts \<Rightarrow> (string \<times> pyval) list \<Rightarrow> bool" where
  "printable opts (PInt i) = int_ok i"
| "printable opts (PFloat f) = False"
| "printable opts (PStr s) = str_ok opts s"
| "printable opts (PList xs) = printables opts xs"
| "printable opts (PDict d) = (dict_wf d \<and> printable_pairs opts d)"
| "printable opts _ = True"
| "printables opts [] = True"
| "printables opts (x # xs) = (printable opts x \<and> printables opts xs)"
| "printable_pairs opts [] = True"
| "printable_pairs opts ((k, v) # d) = (str_ok opts k \<and> printable opts v \<and> printable_pairs opts d)"

text \<open>The effect of \<open>sort_keys\<close> on a value: every dictionary in key order.\<close>

fun sort_val :: "pyval \<Rightarrow> pyval"
  and sort_vals :: "pyval list \<Rightarrow> pyval list"
  and sort_pairs :: "(string \<times> pyval) list \<Rightarrow> (string \<times> pyval) list" where
  "sort_val (PList xs) = PList (sort_vals xs)"
| "sort_val (PDict d) = PDict (sort_key fst (sort_pairs d))"
| "sort_val v = v"
| "sort_vals [] = []"
| "sort_vals (x # xs) = sort_val x # sort_vals xs"
| "sort_pairs [] = []"
| "sort_pairs ((k, v) # d) = (k, sort_val v) # sort_pairs d"

definition canon :: "dump_opts \<Rightarrow> pyval \<Rightarrow> pyval" where
  "canon opts v = (if sort_keys opts then sort_val v else v)"

lemma scan_key_str_ok: "str_ok opts t \<Longrightarrow> scan_key (esc_str opts t @ s) = SOk t s"
  by (rule scan_key_esc_str) (simp add: str_ok_def split: if_splits)

definition plain_head :: "char \<Rightarrow> bool" where
  "plain_head c \<longleftrightarrow> byte c < 128 \<and> \<not> is_ws c \<and> c \<noteq> CHR '']'' \<and> c \<noteq> CHR ''}'' \<and> c \<noteq> CHR '',''"

lemma dec_int_head: "\<exists>c t. dec_int i = c # t \<and> (is_digit c \<or> c = CHR ''-'')"
proof (cases "dec_nat (nat i)")
  case (Cons c t)
  then show ?thesis using dec_nat_digits [of c "nat i"] by (auto simp: dec_int_def)
qed simp

lemma digit_plain: "is_digit c \<Longrightarrow> plain_head c \<and> c \<noteq> quote2 \<and> c \<noteq> CHR ''{'' \<and> c \<noteq> CHR ''[''"
  by (auto simp: plain_head_def is_ws_def is_digit_def)

lemma json_dumps_head:
  "printable opts v \<Longrightarrow> \<exists>c t. json_dumps opts v = c # t \<and> plain_head c"
proof (cases v)
  case (PInt i)
  then show ?thesis
    using dec_int_head [of i] digit_plain by (auto simp: plain_head_def is_ws_def)
qed (auto simp: plain_head_def is_ws_def esc_str_def dump_members_def)

lemma skip_ws_plain: "plain_head c \<Longrightarrow> skip_ws (c # t) = c # t"
  by (simp add: skip_ws_def plain_head_def)

lemma skip_ws_item_sep: "plain_head c \<Longrightarrow> skip_ws (tl (item_sep opts) @ c # t) = c # t"
  by (simp add: item_sep_def skip_ws_def plain_head_def is_ws_def)

lemma skip_ws_key_sep: "plain_head c \<Longrightarrow> skip_ws (tl (key_sep opts) @ c # t) = c # t"
  by (simp add: key_sep_def skip_ws_def plain_head_def is_ws_def)

lemma seps: "item_sep opts = CHR '','' # tl (item_sep opts)" "key_sep opts = CHR '':'' # tl (key_sep opts)"
  by (simp_all add: item_sep_def key_sep_def)

lemma scan_atom_dec_int: "stops r \<Longrightarrow> int_ok i \<Longrightarrow> scan_atom (dec_int i @ r) = SOk (PInt i) r"
proof -
  assume *: "stops r" "int_ok i"
  obtain c t where c: "dec_int i = c # t" "is_digit c \<or> c = CHR ''-''"
    using dec_int_head by blast
  then have "c \<noteq> CHR ''n''" "c \<noteq> CHR ''t''" "c \<noteq> CHR ''f''" by (auto simp: is_digit_def)
  then show ?thesis
    using scan_number_dec_int [OF *] c by (simp add: scan_atom_def)
qed

lemma stops_delim [simp]: "stops (CHR '']'' # r)" "stops (CHR ''}'' # r)" "stops (CHR '','' # r)"
  by (simp_all add: stops_def is_digit_def)

text \<open>The members of a printed dictionary without key sorting.\<close>

abbreviation member_texts :: "dump_opts \<Rightarrow> (string \<times> pyval) list \<Rightarrow> string list" where
  "member_texts opts d \<equiv> map (\<lambda>(k, t). esc_str opts k @ key_sep opts @ t) (dump_pairs opts d)"

lemma join_Cons: "join sep (t # ts) = t @ (if ts = [] then [] else sep @ join sep ts)"
  by (cases ts) auto

lemma dump_items_Nil [simp]: "dump_items opts xs = [] \<longleftrightarrow> xs = []"
  by (cases xs) auto

lemma dump_pairs_Nil [simp]: "dump_pairs opts d = [] \<longleftrightarrow> d = []"
  by (cases d rule: list.exhaust) (auto split: prod.splits)

text \<open>A property of all sufficiently large fuels.\<close>

definition ev :: "(nat \<Rightarrow> bool) \<Rightarrow> bool" where
  "ev P \<longleftrightarrow> (\<exists>N. \<forall>f \<ge> N. P f)"

lemma ev_all: "(\<And>f. P (Suc f)) \<Longrightarrow> ev P"
  unfolding ev_def by (metis Suc_le_D)

lemma ev_step: "ev P \<Longrightarrow> (\<And>f. P f \<Longrightarrow> Q (Suc f)) \<Longrightarrow> ev Q"
  unfolding ev_def by (metis Suc_le_D Suc_le_mono)

lemma ev_step2: "ev P \<Longrightarrow> ev R \<Longrightarrow> (\<And>f. P f \<Longrightarrow> R f \<Longrightarrow> Q (Suc f)) \<Longrightarrow> ev Q"
proof -
  assume "ev P" "ev R" and q: "\<And>f. P f \<Longrightarrow> R f \<Longrightarrow> Q (Suc f)"
  then obtain M N where "\<forall>f \<ge> M. P f" "\<forall>f \<ge> N. R f" by (auto simp: ev_def)
  then have "\<forall>f \<ge> max M N. P f \<and> R f" by simp
  then have "ev (\<lambda>f. P f \<and> R f)" unfolding ev_def by blast
  then show ?thesis by (rule ev_step) (use q in blast)
qed

lemma scan_elems_last:
  "scan_value f s = SOk v (CHR '']'' # r) \<Longrightarrow> scan_elems (Suc f) s = SOk [v] r"
  by (simp add: skip_ws_def is_ws_def)

lemma scan_elems_more:
  "scan_value f s = SOk v (item_sep opts @ c # t) \<Longrightarrow> plain_head c \<Longrightarrow>
   scan_elems f (c # t) = SOk vs r \<Longrightarrow> scan_elems (Suc f) s = SOk (v # vs) r"
  using skip_ws_item_sep [of c opts t] by (subst (asm) seps) (simp add: skip_ws_def is_ws_def)

lemma scan_member_value:
  assumes "str_ok opts k" "json_dumps opts v = c # u" "plain_head c"
  shows "scan_members (Suc f) (esc_str opts k @ key_sep opts @ json_dumps opts v @ t) =
     bindS (scan_value f (json_dumps opts v @ t)) (\<lambda>v r2.
         (case skip_ws r2 of
            [] \<Rightarrow> SErr JSONDecodeError
          | x # r3 \<Rightarrow>
              (if x = CHR ''}'' then SOk [(k, v)] r3
               else if x = CHR '','' then
                 bindS (scan_members f (skip_ws r3)) (\<lambda>ps q. SOk ((k, v) # ps) q)
               else SErr JSONDecodeError)))"
proof -
  have "expect CHR '':'' (skip_ws (key_sep opts @ q)) = SOk () (tl (key_sep opts) @ q)" for q
    by (subst seps(2)) (simp add: expect_def skip_ws_def is_ws_def)
  then show ?thesis
    using assms skip_ws_key_sep [of c opts "u @ t"] by (simp add: scan_key_str_ok)
qed

lemma scan_members_last:
  assumes "str_ok opts k" "json_dumps opts v = c # u" "plain_head c"
    and "scan_value f (json_dumps opts v @ CHR ''}'' # r) = SOk w (CHR ''}'' # r)"
  shows "scan_members (Suc f) (esc_str opts k @ key_sep opts @ json_dumps opts v @ CHR ''}'' # r) = SOk [(k, w)] r"
  unfolding scan_member_value [OF assms(1-3)] using assms(4) by (simp add: skip_ws_def is_ws_def)

lemma scan_members_more:
  assumes "str_ok opts k" "json_dumps opts v = c # u" "plain_head c"
    and "scan_value f (json_dumps opts v @ item_sep opts @ quote2 # t) = SOk w (item_sep opts @ quote2 # t)"
    and "scan_members f (quote2 # t) = SOk ps r"
  shows "scan_members (Suc f) (esc_str opts k @ key_sep opts @ json_dumps opts v @ item_sep opts @ quote2 # t)
    = SOk ((k, w) # ps) r"
proof -
  have "skip_ws (tl (item_sep opts) @ quote2 # t) = quote2 # t"
    by (rule skip_ws_item_sep) (simp add: plain_head_def is_ws_def)
  moreover have "skip_ws (item_sep opts @ quote2 # t) = CHR '','' # tl (item_sep opts) @ quote2 # t"
    by (simp add: item_sep_def skip_ws_def is_ws_def)
  ultimately show ?thesis
    unfolding scan_member_value [OF assms(1-3)] using assms(4,5) by simp
qed

lemma stops_item_sep: "stops (item_sep opts @ r)"
  by (simp add: stops_def is_digit_def item_sep_def)

lemma scan_value_list:
  "plain_head c \<Longrightarrow> scan_elems f (c # t) = SOk xs r \<Longrightarrow> scan_value (Suc f) (CHR ''['' # c # t) = SOk (PList xs) r"
  by (simp add: skip_ws_plain) (simp add: plain_head_def)

lemma scan_value_dict:
  "dict_wf d \<Longrightarrow> scan_members f (quote2 # t) = SOk d r \<Longrightarrow> scan_value (Suc f) (CHR ''{'' # quote2 # t) = SOk (PDict d) r"
  by (simp add: skip_ws_def is_ws_def dupdate_id)

lemma items_head:
  "printables opts (y # ys) \<Longrightarrow> \<exists>c t. join sep (dump_items opts (y # ys)) @ r = c # t \<and> plain_head c"
  using json_dumps_head [of opts y] by (auto simp: join_Cons)

lemma members_head: "\<exists>t. join sep (member_texts opts ((k, v) # d)) @ r = quote2 # t"
  by (auto simp: join_Cons esc_str_def)

lemma json_dumps_dict:
  "\<not> sort_keys opts \<Longrightarrow>
   json_dumps opts (PDict d) = CHR ''{'' # join (item_sep opts) (member_texts opts d) @ ''}''"
  by (simp add: dump_members_def)

lemma scan_dumps:
  "\<not> sort_keys opts \<Longrightarrow> printable opts v \<Longrightarrow> stops r \<Longrightarrow>
     ev (\<lambda>f. scan_value f (json_dumps opts v @ r) = SOk v r)"
  "\<not> sort_keys opts \<Longrightarrow> printables opts xs \<Longrightarrow> xs \<noteq> [] \<Longrightarrow>
     ev (\<lambda>f. scan_elems f (join (item_sep opts) (dump_items opts xs) @ CHR '']'' # r) = SOk xs r)"
  "\<not> sort_keys opts \<Longrightarrow> printable_pairs opts d \<Longrightarrow> d \<noteq> [] \<Longrightarrow>
     ev (\<lambda>f. scan_members f (join (item_sep opts) (member_texts opts d) @ CHR ''}'' # r) = SOk d r)"
proof (induction opts v and opts xs and opts d arbitrary: r and r and r
    rule: json_dumps_dump_items_dump_pairs.induct)
  case (3 opts i)
  obtain c t where c: "dec_int i = c # t" "is_digit c \<or> c = CHR ''-''"
    using dec_int_head by blast
  then have "c \<noteq> quote2" "c \<noteq> CHR ''{''" "c \<noteq> CHR ''[''" by (auto dest: digit_plain)
  then show ?case using 3 c scan_atom_dec_int [of r i] by (intro ev_all) simp
next
  case (5 opts s)
  then show ?case
    using scan_key_str_ok [of opts s r] by (intro ev_all) (simp add: esc_str_def)
next
  case (6 opts xs)
  show ?case
  proof (cases xs)
    case Nil
    then show ?thesis by (intro ev_all) (simp add: skip_ws_def is_ws_def)
  next
    case (Cons y ys)
    then obtain c t where t: "join (item_sep opts) (dump_items opts xs) @ CHR '']'' # r = c # t" "plain_head c"
      using items_head [of opts y ys "item_sep opts" "CHR '']'' # r"] "6.prems" by auto
    have "ev (\<lambda>f. scan_elems f (c # t) = SOk xs r)"
      using "6.IH" [of r] "6.prems" Cons unfolding t(1) by simp
    then show ?thesis by (rule ev_step) (use t in \<open>simp add: scan_value_list del: scan_value.simps\<close>)
  qed
next
  case (7 opts d)
  show ?case
  proof (cases d)
    case Nil
    with 7 show ?thesis by (intro ev_all) (simp add: dump_members_def skip_ws_def is_ws_def)
  next
    case (Cons p ps)
    then obtain t where t: "join (item_sep opts) (member_texts opts d) @ CHR ''}'' # r = quote2 # t"
      using members_head by (metis surj_pair)
    have "ev (\<lambda>f. scan_members f (quote2 # t) = SOk d r)"
      using "7.IH" [of r] "7.prems" Cons unfolding t by simp
    then show ?thesis
      by (rule ev_step) (use t 7 in \<open>simp add: json_dumps_dict scan_value_dict
          del: json_dumps.simps scan_value.simps\<close>)
  qed
next
  case (9 opts x xs)
  show ?case
  proof (cases xs)
    case Nil
    have "ev (\<lambda>f. scan_value f (json_dumps opts x @ CHR '']'' # r) = SOk x (CHR '']'' # r))" using 9 by simp
    then show ?thesis by (rule ev_step) (use Nil scan_elems_last in simp)
  next
    case (Cons y ys)
    then obtain c t where t: "join (item_sep opts) (dump_items opts xs) @ CHR '']'' # r = c # t" "plain_head c"
      using items_head [of opts y ys "item_sep opts" "CHR '']'' # r"] "9.prems" by auto
    have "ev (\<lambda>f. scan_value f (json_dumps opts x @ item_sep opts @ c # t) = SOk x (item_sep opts @ c # t))"
      using 9 stops_item_sep by simp
    moreover have "ev (\<lambda>f. scan_elems f (c # t) = SOk xs r)"
      using "9.IH"(2) [of r] "9.prems" Cons unfolding t(1) by simp
    ultimately show ?thesis
    proof (rule ev_step2)
      fix f assume "scan_value f (json_dumps opts x @ item_sep opts @ c # t) = SOk x (item_sep opts @ c # t)"
        "scan_elems f (c # t) = SOk xs r"
      then show "scan_elems (Suc f) (join (item_sep opts) (dump_items opts (x # xs)) @ CHR '']'' # r) = SOk (x # xs) r"
        using scan_elems_more [OF _ t(2)] t(1) Cons by (simp add: join_Cons del: scan_elems.simps)
    qed
  qed
next
  case (11 opts k v d)
  obtain c u where v: "json_dumps opts v = c # u" "plain_head c" using 11 json_dumps_head by force
  have k: "str_ok opts k" using 11 by simp
  show ?case
  proof (cases d)
    case Nil
    have "ev (\<lambda>f. scan_value f (json_dumps opts v @ CHR ''}'' # r) = SOk v (CHR ''}'' # r))" using 11 by simp
    then show ?thesis
      by (rule ev_step) (use scan_members_last [OF k v] Nil in simp)
  next
    case (Cons p ps)
    then obtain t where t: "join (item_sep opts) (member_texts opts d) @ CHR ''}'' # r = quote2 # t"
      using members_head by (metis surj_pair)
    have "ev (\<lambda>f. scan_value f (json_dumps opts v @ item_sep opts @ quote2 # t) = SOk v (item_sep opts @ quote2 # t))"
      using 11 stops_item_sep by simp
    moreover have "ev (\<lambda>f. scan_members f (quote2 # t) = SOk d r)"
      using "11.IH"(2) [of r] "11.prems" Cons unfolding t by simp
    ultimately show ?thesis
    proof (rule ev_step2)
      fix f assume "scan_value f (json_dumps opts v @ item_sep opts @ quote2 # t) = SOk v (item_sep opts @ quote2 # t)"
        "scan_members f (quote2 # t) = SOk d r"
      then show "scan_members (Suc f) (join (item_sep opts) (member_texts opts ((k, v) # d)) @ CHR ''}'' # r) = SOk ((k, v) # d) r"
        using scan_members_more [OF k v] t Cons by (simp add: join_Cons del: scan_members.simps)
    qed
  qed
qed (auto intro!: ev_all simp: scan_atom_def)

lemma bindS_mono:
  assumes "bindS m f \<noteq> SFuel" "m \<noteq> SFuel \<Longrightarrow> m' = m"
    "\<And>x r. m = SOk x r \<Longrightarrow> f x r \<noteq> SFuel \<Longrightarrow> f' x r = f x r"
  shows "bindS m' f' = bindS m f"
  using assms by (cases m) auto

lemma scan_mono:
  "scan_value f s \<noteq> SFuel \<Longrightarrow> scan_value (Suc f) s = scan_value f s"
  "scan_elems f s \<noteq> SFuel \<Longrightarrow> scan_elems (Suc f) s = scan_elems f s"
  "scan_members f s \<noteq> SFuel \<Longrightarrow> scan_members (Suc f) s = scan_members f s"
proof (induction f arbitrary: s)
  case (Suc f)
  {
    case 1
    then show ?case
      unfolding scan_value.simps(2) [of "Suc f" s] scan_value.simps(2) [of f s]
      using Suc(2,3)
      by (auto simp del: scan_elems.simps scan_members.simps split: list.split_asm list.split
          intro!: bindS_mono)
  next
    case 2
    then show ?case
      unfolding scan_elems.simps(2) [of "Suc f" s] scan_elems.simps(2) [of f s]
      by (rule bindS_mono)
        (auto simp del: scan_elems.simps scan_value.simps split: list.split_asm list.split if_splits
          intro!: bindS_mono Suc(1) Suc(2))
  next
    case 3
    then show ?case
      unfolding scan_members.simps(2) [of "Suc f" s] scan_members.simps(2) [of f s]
      by (intro bindS_mono)
        (auto simp del: scan_members.simps scan_value.simps split: list.split_asm list.split if_splits
          intro!: bindS_mono Suc(1) Suc(3))
  }
qed auto

lemma scan_value_mono: "f \<le> g \<Longrightarrow> scan_value f s \<noteq> SFuel \<Longrightarrow> scan_value g s = scan_value f s"
  by (induction g rule: dec_induct) (auto simp: scan_mono(1) simp del: scan_value.simps)

lemma scan_value_dumps:
  assumes "\<not> sort_keys opts" "printable opts v" "stops r" "2 * length (json_dumps opts v @ r) < f"
  shows "scan_value f (json_dumps opts v @ r) = SOk v r"
proof -
  let ?s = "json_dumps opts v @ r"
  obtain N where N: "\<And>g. g \<ge> N \<Longrightarrow> scan_value g ?s = SOk v r"
    using scan_dumps(1) [OF assms(1-3)] by (auto simp: ev_def)
  have "scan_value (max f N) ?s = scan_value f ?s"
    using scan_fuels(1) [OF assms(4)] by (intro scan_value_mono) simp_all
  then show ?thesis using N [of "max f N"] by simp
qed

subsection \<open>Sorted keys\<close>

lemma insort_key_map_fst:
  "insort_key fst (k, g v) (map (\<lambda>(k, v). (k, g v)) d) = map (\<lambda>(k, v). (k, g v)) (insort_key fst (k, v) d)"
  by (induction d) auto

lemma sort_key_map_fst:
  "sort_key fst (map (\<lambda>(k, v). (k, g v)) d) = map (\<lambda>(k, v). (k, g v)) (sort_key fst d)"
  by (induction d) (auto simp: insort_key_map_fst)

lemma dump_items_map: "dump_items opts xs = map (json_dumps opts) xs"
  by (induction xs) auto

lemma dump_pairs_map: "dump_pairs opts d = map (\<lambda>(k, v). (k, json_dumps opts v)) d"
  by (induction d) auto

lemma sort_vals_map: "sort_vals xs = map sort_val xs"
  by (induction xs) auto

lemma sort_pairs_map: "sort_pairs d = map (\<lambda>(k, v). (k, sort_val v)) d"
  by (induction d) auto

abbreviation unsorted :: "dump_opts \<Rightarrow> dump_opts" where
  "unsorted opts \<equiv> opts\<lparr>sort_keys := False\<rparr>"

lemma unsorted_simps [simp]:
  "item_sep (unsorted opts) = item_sep opts" "key_sep (unsorted opts) = key_sep opts"
  "esc_str (unsorted opts) = esc_str opts" "str_ok (unsorted opts) = str_ok opts"
  by (auto simp: item_sep_def key_sep_def esc_str_def str_ok_def fun_eq_iff)

lemma dumps_sorted:
  "sort_keys opts \<Longrightarrow> json_dumps opts v = json_dumps (unsorted opts) (sort_val v)"
  "sort_keys opts \<Longrightarrow> dump_items opts xs = dump_items (unsorted opts) (sort_vals xs)"
  "sort_keys opts \<Longrightarrow> dump_pairs opts d = dump_pairs (unsorted opts) (sort_pairs d)"
proof (induction opts v and opts xs and opts d rule: json_dumps_dump_items_dump_pairs.induct)
  case (7 opts d)
  then show ?case
    by (simp add: dump_members_def) (simp add: dump_pairs_map sort_key_map_fst)
qed auto

lemma printable_sorted:
  "printable opts v \<Longrightarrow> printable (unsorted opts) (sort_val v)"
  "printables opts xs \<Longrightarrow> printables (unsorted opts) (sort_vals xs)"
  "printable_pairs opts d \<Longrightarrow> printable_pairs (unsorted opts) (sort_pairs d)"
proof (induction opts v and opts xs and opts d rule: printable_printables_printable_pairs.induct)
  case (5 opts d)
  have pairs: "printable_pairs o' e \<longleftrightarrow> (\<forall>(k, v) \<in> set e. str_ok o' k \<and> printable o' v)" for o' e
    by (induction e) auto
  have "map fst (sort_pairs d) = map fst d" by (induction d) auto
  then have "dict_wf (sort_pairs d)" using 5 by (simp add: dict_wf_def)
  then show ?case using 5 by (simp add: pairs)
qed auto

lemma unsorted_id: "\<not> sort_keys opts \<Longrightarrow> unsorted opts = opts"
  by (cases opts) simp

lemma canon_unsorted:
  "printable opts v \<Longrightarrow> printable (unsorted opts) (canon opts v)"
  "json_dumps opts v = json_dumps (unsorted opts) (canon opts v)"
  by (cases "sort_keys opts"; simp add: canon_def printable_sorted(1) dumps_sorted(1) unsorted_id)+

lemma json_decode_dumps:
  assumes "printable opts v"
  shows "json_decode (json_dumps opts v) = Inr (canon opts v)"
proof -
  let ?s = "json_dumps opts v"
  obtain c t where s: "?s = c # t" "plain_head c" using json_dumps_head [OF assms] by blast
  have "scan_value (2 * length ?s + 1) (?s @ []) = SOk (canon opts v) []"
    unfolding canon_unsorted(2) [of opts v]
    by (rule scan_value_dumps) (simp_all add: canon_unsorted(1) [OF assms] stops_def)
  then show ?thesis
    using skip_ws_plain [OF s(2), of t] s(1) unfolding json_decode_def by (simp add: skip_ws_def)
qed

text \<open>
  The round trip of the codec. For every value without floats whose dictionaries have
  distinct keys and whose integers are within the interpreter's digit limit (and, when non-ASCII
  characters are escaped, whose strings hold no surrogates), \<open>json.loads\<close> reads back what
  \<open>json.dumps\<close> printed, under every combination of options in use; with \<open>sort_keys\<close> the value comes
  back with its keys in order.
\<close>

theorem json_roundtrip:
  assumes "printable opts v"
  shows "json_loads (json_dumps opts v) = Inr (canon opts v)"
proof -
  obtain c t where s: "json_dumps opts v = c # t" "plain_head c"
    using json_dumps_head [OF assms] by blast
  then have "c \<noteq> CHR 0xEF" by (auto simp: plain_head_def)
  with s have "\<not> starts_with bom (json_dumps opts v)" by (simp add: starts_with_def bom_def)
  then show ?thesis using json_decode_dumps [OF assms] by (simp add: json_loads_def)
qed

subsection \<open>Reading printed text as bytes\<close>

definition printed_ascii :: "string \<Rightarrow> bool" where
  "printed_ascii s \<longleftrightarrow> list_all (\<lambda>c. 32 \<le> byte c \<and> byte c < 127) s"

lemma detect_printed: "printed_ascii s \<Longrightarrow> decode_detected s = Some s"
proof -
  assume p: "printed_ascii s"
  then have b: "32 \<le> byte c" "byte c < 127" if "c \<in> set s" for c
    using that by (auto simp: printed_ascii_def list_all_iff)
  then have "\<not> nul c" if "c \<in> set s" for c using that by (force simp: nul_def)
  then have n: "\<not> nul (s ! i)" if "i < length s" for i using that by simp
  have h: "\<not> starts_with (x # xs) s" if "byte x = 0 \<or> 127 \<le> byte x" for x xs
    using that b [of x] by (cases s) (auto simp: starts_with_def)
  have "0 < length s" "1 < length s" if "4 \<le> length s \<or> length s = 2" using that by linarith+
  then have "\<not> nul (s ! 0) \<and> \<not> nul (s ! 1)" if "4 \<le> length s \<or> length s = 2" using that n by blast
  then have "detect_encoding s = UTF8"
    unfolding detect_encoding_def bom_def by (simp add: h)
  moreover have "valid_str s"
    using b by (intro valid_str_ascii) (force simp: is_ascii_def list_all_iff)
  ultimately show ?thesis by (simp add: decode_detected_def decode8_def)
qed

lemma json_loads_bytes_printed: "printed_ascii s \<Longrightarrow> json_loads_bytes s = json_decode s"
  by (simp add: json_loads_bytes_def detect_printed)

lemma printed_ascii_simps [simp]:
  "printed_ascii []" "printed_ascii (c # s) \<longleftrightarrow> 32 \<le> byte c \<and> byte c < 127 \<and> printed_ascii s"
  "printed_ascii (s @ t) \<longleftrightarrow> printed_ascii s \<and> printed_ascii t"
  by (auto simp: printed_ascii_def)

lemma printed_ascii_concat: "(\<And>s. s \<in> set ss \<Longrightarrow> printed_ascii s) \<Longrightarrow> printed_ascii (concat ss)"
  by (induction ss) auto

lemma printed_ascii_join:
  "printed_ascii sep \<Longrightarrow> (\<And>s. s \<in> set ss \<Longrightarrow> printed_ascii s) \<Longrightarrow> printed_ascii (join sep ss)"
  by (induction sep ss rule: join.induct) auto

lemma hex_digit_printed: "n < 16 \<Longrightarrow> 32 \<le> byte (hex_digit n) \<and> byte (hex_digit n) < 127"
  by (simp add: hex_digit_def)

lemma u_escape_printed: "printed_ascii (u_escape n)"
  using hex_digit_printed by (simp add: u_escape_def)

lemma esc_byte_printed: "byte c < 127 \<Longrightarrow> printed_ascii (esc_byte c)"
  by (simp add: esc_byte_def u_escape_printed)

lemma esc_char_ascii_printed: "valid_char g \<Longrightarrow> printed_ascii (esc_char_ascii g)"
proof (cases "py_ord g < 127")
  case True
  assume "valid_char g"
  then obtain a where "g = [a]" using valid_char_small [of g] True by auto
  with True show ?thesis by (simp add: esc_char_ascii_def esc_byte_printed)
qed (simp add: esc_char_ascii_def Let_def u_escape_printed)

lemma esc_str_printed: "ensure_ascii opts \<Longrightarrow> valid_str s \<Longrightarrow> printed_ascii (esc_str opts s)"
  by (auto simp: esc_str_def valid_str_def list_all_iff esc_char_ascii_printed
      intro!: printed_ascii_concat)

lemma dec_nat_printed: "printed_ascii (dec_nat n)"
  by (auto simp: printed_ascii_def list_all_iff is_digit_def dest!: dec_nat_digits)

lemma dec_int_printed: "printed_ascii (dec_int i)"
  by (simp add: dec_int_def dec_nat_printed)

lemma sep_printed: "printed_ascii (item_sep opts)" "printed_ascii (key_sep opts)"
  by (simp_all add: item_sep_def key_sep_def)

lemma dumps_printed:
  "ensure_ascii opts \<Longrightarrow> printable opts v \<Longrightarrow> printed_ascii (json_dumps opts v)"
  "ensure_ascii opts \<Longrightarrow> printables opts xs \<Longrightarrow> list_all printed_ascii (dump_items opts xs)"
  "ensure_ascii opts \<Longrightarrow> printable_pairs opts d \<Longrightarrow>
     list_all (\<lambda>(k, t). printed_ascii (esc_str opts k) \<and> printed_ascii t) (dump_pairs opts d)"
proof (induction opts v and opts xs and opts d rule: json_dumps_dump_items_dump_pairs.induct)
  case (6 opts xs)
  then show ?case by (auto simp: list_all_iff sep_printed intro!: printed_ascii_join)
next
  case (7 opts d)
  then show ?case
    by (fastforce simp: dump_members_def list_all_iff sep_printed intro!: printed_ascii_join)
qed (auto simp: dec_int_printed str_ok_def esc_str_printed)

lemma json_loads_bytes_dumps:
  "ensure_ascii opts \<Longrightarrow> printable opts v \<Longrightarrow> json_loads_bytes (json_dumps opts v) = Inr (canon opts v)"
  by (simp add: json_loads_bytes_printed dumps_printed(1) json_decode_dumps)

lemma printed_is_ascii: "printed_ascii s \<Longrightarrow> is_ascii s"
  by (auto simp: printed_ascii_def is_ascii_def list_all_iff)

section \<open>The exceptions of reading and printing\<close>

definition scan_errors :: "py_error set" where
  "scan_errors = {JSONDecodeError, ValueError []}"

lemma bindS_errors:
  "(\<And>e. m = SErr e \<Longrightarrow> e \<in> E) \<Longrightarrow> (\<And>x r e. m = SOk x r \<Longrightarrow> f x r = SErr e \<Longrightarrow> e \<in> E) \<Longrightarrow>
   bindS m f = SErr e \<Longrightarrow> e \<in> E"
  by (cases m) auto

lemma scan_key_errors: "scan_key s = SErr e \<Longrightarrow> e \<in> scan_errors"
  by (auto simp: scan_key_def scan_errors_def split: if_splits option.splits list.splits)

lemma expect_errors: "expect c s = SErr e \<Longrightarrow> e \<in> scan_errors"
  by (auto simp: expect_def scan_errors_def split: if_splits list.splits)

lemma scan_number_errors: "scan_number s = SErr e \<Longrightarrow> e \<in> scan_errors"
  unfolding scan_number_def Let_def scan_errors_def
  by (simp split: prod.splits if_splits)

lemma scan_atom_errors: "scan_atom s = SErr e \<Longrightarrow> e \<in> scan_errors"
  unfolding scan_atom_def by (simp split: if_splits add: scan_number_errors)

lemmas scan_part_errors = scan_key_errors expect_errors scan_atom_errors

lemma scan_value_errors:
  "scan_value f s = SErr e \<Longrightarrow> e \<in> scan_errors"
  "scan_elems f s = SErr e \<Longrightarrow> e \<in> scan_errors"
  "scan_members f s = SErr e \<Longrightarrow> e \<in> scan_errors"
proof (induction f s and f s and f s arbitrary: e and e and e
    rule: scan_value_scan_elems_scan_members.induct)
  case (2 f s)
  have j: "JSONDecodeError \<in> scan_errors" by (simp add: scan_errors_def)
  from 2 show ?case
    by (auto simp: j scan_part_errors split: list.splits if_splits elim!: bindS_errors [rotated 2])
next
  case (4 f s)
  have j: "JSONDecodeError \<in> scan_errors" by (simp add: scan_errors_def)
  from 4(3) show ?case unfolding scan_elems.simps
    by (rule bindS_errors [rotated 2])
      (auto simp: 4(1) j split: list.splits if_splits elim!: bindS_errors [rotated 2] intro: 4(2))
next
  case (6 f s)
  have j: "JSONDecodeError \<in> scan_errors" by (simp add: scan_errors_def)
  from 6(3) show ?case unfolding scan_members.simps
    by (auto simp: 6(1) j scan_part_errors split: list.splits if_splits
        elim!: bindS_errors [rotated 2] intro: 6(2))
qed simp_all

lemma json_decode_errors: "json_decode s = Inl e \<Longrightarrow> e = JSONDecodeError \<or> e = ValueError []"
  using scan_value_errors(1) [of "2 * length s + 1" "skip_ws s"] scan_value_fuel [of s]
  by (auto simp: json_decode_def scan_errors_def split: scan.splits if_splits)

lemma json_loads_errors: "json_loads s = Inl e \<Longrightarrow> e = JSONDecodeError \<or> e = ValueError []"
  using json_decode_errors by (auto simp: json_loads_def split: if_splits)

lemma json_loads_bytes_errors: "json_loads_bytes s = Inl e \<Longrightarrow> is_value_error e"
  using json_decode_errors by (force simp: json_loads_bytes_def split: option.splits)

text \<open>
  \<open>json.dumps\<close> as the interpreter runs it: printing an integer beyond the digit limit raises.
\<close>

fun ints_ok :: "pyval \<Rightarrow> bool"
  and ints_ok_list :: "pyval list \<Rightarrow> bool"
  and ints_ok_pairs :: "(string \<times> pyval) list \<Rightarrow> bool" where
  "ints_ok (PInt i) = int_ok i"
| "ints_ok (PList xs) = ints_ok_list xs"
| "ints_ok (PDict d) = ints_ok_pairs d"
| "ints_ok _ = True"
| "ints_ok_list [] = True"
| "ints_ok_list (x # xs) = (ints_ok x \<and> ints_ok_list xs)"
| "ints_ok_pairs [] = True"
| "ints_ok_pairs ((k, v) # d) = (ints_ok v \<and> ints_ok_pairs d)"

definition dumps :: "dump_opts \<Rightarrow> pyval \<Rightarrow> string result" where
  "dumps opts v = (if ints_ok v then Inr (json_dumps opts v) else Inl (ValueError []))"

lemma printable_ints_ok:
  "printable opts v \<Longrightarrow> ints_ok v"
  "printables opts xs \<Longrightarrow> ints_ok_list xs"
  "printable_pairs opts d \<Longrightarrow> ints_ok_pairs d"
  by (induction opts v and opts xs and opts d rule: printable_printables_printable_pairs.induct) auto

lemma dumps_Inr: "dumps opts v = Inr t \<longleftrightarrow> ints_ok v \<and> t = json_dumps opts v"
  by (auto simp: dumps_def)

lemma dumps_Inl: "dumps opts v = Inl e \<longleftrightarrow> \<not> ints_ok v \<and> e = ValueError []"
  by (auto simp: dumps_def)

lemma ints_ok_list_iff: "ints_ok_list xs \<longleftrightarrow> (\<forall>x \<in> set xs. ints_ok x)"
  by (induction xs) auto

lemma ints_ok_pairs_iff: "ints_ok_pairs d \<longleftrightarrow> (\<forall>p \<in> set d. ints_ok (snd p))"
  by (induction d) auto

section \<open>Printed text is well-formed\<close>

lemma valid_char_head: "valid_char g \<Longrightarrow> \<exists>a r. g = a # r \<and> \<not> is_cont a \<and> list_all is_cont r"
  by (induction g rule: valid_char.induct) (auto simp: is_cont_def)

lemma valid_str_head: "valid_str (c # s) \<Longrightarrow> \<not> is_cont c"
  using valid_char_head by (fastforce simp: valid_str_def)

lemma py_chars_append: "t = [] \<or> \<not> is_cont (hd t) \<Longrightarrow> py_chars (s @ t) = py_chars s @ py_chars t"
proof (induction s rule: py_chars.induct)
  case (2 c cs)
  have t: "takeWhile is_cont t = []" "dropWhile is_cont t = t" using 2(2) by (cases t; auto)+
  show ?case
  proof (cases "list_all is_cont cs")
    case True
    then have "takeWhile is_cont (cs @ t) = cs" "dropWhile is_cont (cs @ t) = t"
        "takeWhile is_cont cs = cs" "dropWhile is_cont cs = []"
      using t by (simp_all add: list_all_iff takeWhile_append2 dropWhile_append2)
    then show ?thesis by (simp only: append_Cons py_chars.simps append_Nil)
  next
    case False
    then obtain x where "x \<in> set cs" "\<not> is_cont x" by (auto simp: list_all_iff)
    then show ?thesis using 2 by (simp add: takeWhile_append1 dropWhile_append1)
  qed
qed simp

lemma valid_str_append: "valid_str s \<Longrightarrow> valid_str t \<Longrightarrow> valid_str (s @ t)"
proof -
  assume s: "valid_str s" "valid_str t"
  then have "t = [] \<or> \<not> is_cont (hd t)" using valid_str_head by (cases t) auto
  then show "valid_str (s @ t)" using s by (simp add: valid_str_def py_chars_append)
qed

lemma valid_str_concat: "(\<And>s. s \<in> set ss \<Longrightarrow> valid_str s) \<Longrightarrow> valid_str (concat ss)"
  by (induction ss) (auto intro!: valid_str_append, simp add: valid_str_def)

lemma valid_str_join: "valid_str sep \<Longrightarrow> (\<And>s. s \<in> set ss \<Longrightarrow> valid_str s) \<Longrightarrow> valid_str (join sep ss)"
  by (induction sep ss rule: join.induct) (auto intro!: valid_str_append, simp add: valid_str_def)

lemma py_chars_single: "list_all is_cont r \<Longrightarrow> py_chars (a # r) = [a # r]"
proof -
  assume r: "list_all is_cont r"
  then have "takeWhile is_cont r = r" "dropWhile is_cont r = []"
    by (simp_all only: takeWhile_eq_all_conv dropWhile_eq_Nil_conv list_all_iff)
  then show ?thesis by (simp only: py_chars.simps)
qed

lemma valid_str_char: "valid_char g \<Longrightarrow> valid_str g"
proof -
  assume v: "valid_char g"
  obtain a r where g: "g = a # r" "list_all is_cont r" using valid_char_head [OF v] by blast
  have "py_chars g = [g]" unfolding g(1) by (rule py_chars_single [OF g(2)])
  then have "list_all valid_char (py_chars g) \<longleftrightarrow> list_all valid_char [g]" by (rule arg_cong)
  with v show "valid_str g" unfolding valid_str_def by simp
qed

lemma esc_byte_high: "128 \<le> byte c \<Longrightarrow> esc_byte c = [c]" for c
proof -
  assume c: "128 \<le> byte c"
  then have "c \<noteq> d" if "byte d < 128" for d using that by (metis not_le)
  then have "c \<noteq> quote2" "c \<noteq> backslash" "c \<noteq> CHR 0x0A" "c \<noteq> CHR 0x0D" "c \<noteq> CHR 0x09" "c \<noteq> CHR 0x0C" "c \<noteq> CHR 0x08"
    by simp_all
  moreover have "\<not> byte c < 32" using c by linarith
  ultimately show ?thesis unfolding esc_byte_def by (simp only: if_False)
qed

lemma valid_char_high: "valid_char g \<Longrightarrow> (\<exists>a. g = [a] \<and> byte a < 128) \<or> list_all (\<lambda>c. 128 \<le> byte c) g"
  by (induction g rule: valid_char.induct) (auto simp: is_cont_def)

lemma valid_esc_bytes: "valid_char g \<Longrightarrow> valid_str (concat (map esc_byte g))"
proof -
  assume v: "valid_char g"
  from valid_char_high [OF v] show ?thesis
  proof
    assume "\<exists>a. g = [a] \<and> byte a < 128"
    then obtain a where a: "g = [a]" "byte a < 128" by blast
    have "is_ascii (esc_byte a)"
      using a(2) printed_is_ascii [OF u_escape_printed] by (auto simp: esc_byte_def)
    then show ?thesis using a(1) by (simp add: valid_str_ascii)
  next
    assume "list_all (\<lambda>c. 128 \<le> byte c) g"
    then have "concat (map esc_byte g) = g" by (induction g) (auto simp: esc_byte_high)
    then show ?thesis using valid_str_char [OF v] by simp
  qed
qed

lemma concat_map_groups: "concat (map f (concat gs)) = concat (map (\<lambda>g. concat (map f g)) gs)"
  by (induction gs) simp_all

lemma valid_esc_str:
  assumes "\<not> ensure_ascii opts" "valid_str s"
  shows "valid_str (esc_str opts s)"
proof -
  have "concat (map esc_byte s) = concat (map (\<lambda>g. concat (map esc_byte g)) (py_chars s))"
    using concat_map_groups [of esc_byte "py_chars s"] by simp
  moreover have "valid_str (concat (map (\<lambda>g. concat (map esc_byte g)) (py_chars s)))"
  proof (rule valid_str_concat)
    fix t assume "t \<in> set (map (\<lambda>g. concat (map esc_byte g)) (py_chars s))"
    then obtain g where "t = concat (map esc_byte g)" "g \<in> set (py_chars s)" by auto
    moreover from this(2) have "valid_char g" using assms(2) unfolding valid_str_def list_all_iff by blast
    ultimately show "valid_str t" using valid_esc_bytes by simp
  qed
  ultimately have "valid_str (concat (map esc_byte s))" by simp
  moreover have "valid_str [quote2]" by (rule valid_str_ascii) simp
  ultimately show ?thesis using assms(1) unfolding esc_str_def by (simp only: if_False) (intro valid_str_append)
qed

lemma valid_ascii_parts: "valid_str (item_sep opts)" "valid_str (key_sep opts)" "valid_str (dec_int i)"
  by (simp_all add: valid_str_ascii printed_is_ascii sep_printed)

lemma valid_dumps:
  "\<not> ensure_ascii opts \<Longrightarrow> wf_val v \<Longrightarrow> printable opts v \<Longrightarrow> valid_str (json_dumps opts v)"
  "\<not> ensure_ascii opts \<Longrightarrow> wf_vals xs \<Longrightarrow> printables opts xs \<Longrightarrow> list_all valid_str (dump_items opts xs)"
  "\<not> ensure_ascii opts \<Longrightarrow> wf_pairs d \<Longrightarrow> printable_pairs opts d \<Longrightarrow>
     list_all (\<lambda>(k, t). valid_str k \<and> valid_str t) (dump_pairs opts d)"
proof (induction opts v and opts xs and opts d rule: json_dumps_dump_items_dump_pairs.induct)
  case (6 opts xs)
  then show ?case
    by (auto simp: list_all_iff valid_ascii_parts valid_str_ascii simp del: append_Cons append_Nil
        intro!: valid_str_append valid_str_join)
next
  case (7 opts d)
  then have "list_all (\<lambda>(k, t). valid_str k \<and> valid_str t) (dump_pairs opts d)" by simp
  then have "valid_str m" if "m \<in> set (map (\<lambda>(k, t). esc_str opts k @ key_sep opts @ t)
      (if sort_keys opts then sort_key fst (dump_pairs opts d) else dump_pairs opts d))" for m
    using that 7(2) by (auto simp: list_all_iff valid_esc_str valid_ascii_parts intro!: valid_str_append split: if_splits)
  then show ?case unfolding json_dumps.simps dump_members_def
    by (intro valid_str_append valid_str_join valid_ascii_parts) (simp_all add: valid_str_ascii)
qed (auto simp: valid_esc_str valid_ascii_parts valid_str_ascii)

section \<open>ASCII values\<close>

text \<open>Values all of whose texts are ASCII are printed as ASCII under every option.\<close>

fun ascii_val :: "pyval \<Rightarrow> bool"
  and ascii_vals :: "pyval list \<Rightarrow> bool"
  and ascii_pairs :: "(string \<times> pyval) list \<Rightarrow> bool" where
  "ascii_val (PFloat f) = False"
| "ascii_val (PStr s) = is_ascii s"
| "ascii_val (PList xs) = ascii_vals xs"
| "ascii_val (PDict d) = ascii_pairs d"
| "ascii_val v = True"
| "ascii_vals [] = True"
| "ascii_vals (x # xs) = (ascii_val x \<and> ascii_vals xs)"
| "ascii_pairs [] = True"
| "ascii_pairs ((k, v) # d) = (is_ascii k \<and> ascii_val v \<and> ascii_pairs d)"

lemma ascii_esc_byte: "byte c < 128 \<Longrightarrow> is_ascii (esc_byte c)"
proof (cases "byte c < 127")
  case True
  then show ?thesis by (intro printed_is_ascii esc_byte_printed)
next
  case False
  assume "byte c < 128"
  with False show ?thesis by (auto simp: esc_byte_def)
qed

lemma ascii_esc_str: "is_ascii s \<Longrightarrow> is_ascii (esc_str opts s)"
proof -
  assume a: "is_ascii s"
  have "is_ascii (concat (map esc_byte s))"
    using a by (auto simp: is_ascii_concat list_all_iff is_ascii_def [of s] intro: ascii_esc_byte)
  moreover have "is_ascii (esc_char_ascii g)" if "g \<in> set (py_chars s)" for g
    using that py_chars_ascii [OF a] a
    by (auto simp: is_ascii_def [of s] list_all_iff intro!: printed_is_ascii esc_char_ascii_printed)
  ultimately show ?thesis by (auto simp: esc_str_def is_ascii_concat list_all_iff)
qed

lemma ascii_join: "is_ascii sep \<Longrightarrow> list_all is_ascii ss \<Longrightarrow> is_ascii (join sep ss)"
  by (induction sep ss rule: join.induct) auto

lemma ascii_dumps:
  "ascii_val v \<Longrightarrow> is_ascii (json_dumps opts v)"
  "ascii_vals xs \<Longrightarrow> list_all is_ascii (dump_items opts xs)"
  "ascii_pairs d \<Longrightarrow> list_all (\<lambda>(k, t). is_ascii k \<and> is_ascii t) (dump_pairs opts d)"
proof (induction v and xs and d rule: ascii_val_ascii_vals_ascii_pairs.induct)
  case (4 d)
  then have "is_ascii m" if "m \<in> set (map (\<lambda>(k, t). esc_str opts k @ key_sep opts @ t)
      (if sort_keys opts then sort_key fst (dump_pairs opts d) else dump_pairs opts d))" for m
    using that printed_is_ascii [OF sep_printed(2)]
    by (auto simp: list_all_iff ascii_esc_str split: if_splits)
  then show ?case unfolding json_dumps.simps dump_members_def
    by (simp add: ascii_join printed_is_ascii [OF sep_printed(1)] list_all_iff del: set_map)
qed (auto simp: ascii_esc_str ascii_join printed_is_ascii sep_printed dec_int_printed)

lemma ascii_encodes: "ascii_val v \<Longrightarrow> \<not> has_surrogate (json_dumps opts v)"
  by (intro no_surrogate_ascii ascii_dumps(1))

end
