(* ===== verification/Crypto.thy ===== *)
theory Crypto
  imports PyValue "HOL-Library.Word"
begin

text \<open>
  The standard-library primitives under the capability tokens and the content addresses: SHA-256
  (FIPS 180-4), HMAC (RFC 2104), hexadecimal digests, and URL-safe base64. They are concrete and
  executable, so nothing in the development rests on an assumed digest function; theorems that
  need two texts to have different digests say so in their hypotheses.

  Decoding base64 follows \<open>binascii.a2b_base64\<close> in its lenient mode: characters outside the
  alphabet are skipped and only the final padding is checked. The result used by the token layer
  is the round trip \<open>b64decode_encode\<close>.
\<close>

unbundle bit_operations_syntax

section \<open>SHA-256\<close>

type_synonym word32 = "32 word"

definition sha_k :: "word32 list" where
  "sha_k = [
    1116352408, 1899447441, 3049323471, 3921009573, 961987163, 1508970993, 2453635748, 2870763221,
    3624381080, 310598401, 607225278, 1426881987, 1925078388, 2162078206, 2614888103, 3248222580,
    3835390401, 4022224774, 264347078, 604807628, 770255983, 1249150122, 1555081692, 1996064986,
    2554220882, 2821834349, 2952996808, 3210313671, 3336571891, 3584528711, 113926993, 338241895,
    666307205, 773529912, 1294757372, 1396182291, 1695183700, 1986661051, 2177026350, 2456956037,
    2730485921, 2820302411, 3259730800, 3345764771, 3516065817, 3600352804, 4094571909, 275423344,
    430227734, 506948616, 659060556, 883997877, 958139571, 1322822218, 1537002063, 1747873779,
    1955562222, 2024104815, 2227730452, 2361852424, 2428436474, 2756734187, 3204031479, 3329325298]"

definition sha_init :: "word32 list" where
  "sha_init = [1779033703, 3144134277, 1013904242, 2773480762,
    1359893119, 2600822924, 528734635, 1541459225]"

definition rotr :: "nat \<Rightarrow> word32 \<Rightarrow> word32" where
  "rotr n x = (drop_bit n x) OR (push_bit (32 - n) x)"

definition big_sigma0 :: "word32 \<Rightarrow> word32" where
  "big_sigma0 x = rotr 2 x XOR rotr 13 x XOR rotr 22 x"

definition big_sigma1 :: "word32 \<Rightarrow> word32" where
  "big_sigma1 x = rotr 6 x XOR rotr 11 x XOR rotr 25 x"

definition small_sigma0 :: "word32 \<Rightarrow> word32" where
  "small_sigma0 x = rotr 7 x XOR rotr 18 x XOR drop_bit 3 x"

definition small_sigma1 :: "word32 \<Rightarrow> word32" where
  "small_sigma1 x = rotr 17 x XOR rotr 19 x XOR drop_bit 10 x"

definition sha_ch :: "word32 \<Rightarrow> word32 \<Rightarrow> word32 \<Rightarrow> word32" where
  "sha_ch x y z = (x AND y) XOR (NOT x AND z)"

definition sha_maj :: "word32 \<Rightarrow> word32 \<Rightarrow> word32 \<Rightarrow> word32" where
  "sha_maj x y z = (x AND y) XOR (x AND z) XOR (y AND z)"

text \<open>The message is padded with \<open>0x80\<close>, zeros, and its length in bits as eight bytes.\<close>

fun be_bytes :: "nat \<Rightarrow> nat \<Rightarrow> string" where
  "be_bytes 0 n = []"
| "be_bytes (Suc k) n = be_bytes k (n div 256) @ [char_of (n mod 256)]"

definition sha_pad :: "string \<Rightarrow> string" where
  "sha_pad m = m @ [CHR 0x80] @ replicate ((119 - length m mod 64) mod 64) (CHR 0x00)
     @ be_bytes 8 (8 * length m)"

fun words_of :: "string \<Rightarrow> word32 list" where
  "words_of (a # b # c # d # r) =
     word_of_nat (((byte a * 256 + byte b) * 256 + byte c) * 256 + byte d) # words_of r"
| "words_of _ = []"

text \<open>The message schedule, kept as the last sixteen words: the round's word is the oldest one.\<close>

definition next_word :: "word32 list \<Rightarrow> word32" where
  "next_word w = small_sigma1 (w ! 14) + w ! 9 + small_sigma0 (w ! 1) + w ! 0"

fun sha_rounds :: "word32 list \<Rightarrow> word32 list \<Rightarrow> word32 list \<Rightarrow> word32 list" where
  "sha_rounds [] w h = h"
| "sha_rounds (k # ks) w [a, b, c, d, e, f, g, h] =
     (let t1 = h + big_sigma1 e + sha_ch e f g + k + w ! 0;
          t2 = big_sigma0 a + sha_maj a b c
      in sha_rounds ks (tl w @ [next_word w]) [t1 + t2, a, b, c, d + t1, e, f, g])"
| "sha_rounds (k # ks) w h = h"

definition sha_block :: "word32 list \<Rightarrow> string \<Rightarrow> word32 list" where
  "sha_block h b = map2 (+) h (sha_rounds sha_k (words_of b) h)"

function sha_blocks :: "word32 list \<Rightarrow> string \<Rightarrow> word32 list" where
  "sha_blocks h m = (if length m < 64 then h else sha_blocks (sha_block h (take 64 m)) (drop 64 m))"
  by pat_completeness auto
termination
  by (relation "measure (\<lambda>(h, m). length m)") auto

declare sha_blocks.simps [simp del]

text \<open>\<open>hashlib.sha256(m).digest()\<close> and \<open>.hexdigest()\<close>.\<close>

definition sha256 :: "string \<Rightarrow> string" where
  "sha256 m = concat (map (\<lambda>w. be_bytes 4 (unat w)) (sha_blocks sha_init (sha_pad m)))"

definition hexlify :: "string \<Rightarrow> string" where
  "hexlify s = concat (map (\<lambda>c. [hex_digit (byte c div 16), hex_digit (byte c mod 16)]) s)"

definition sha256_hex :: "string \<Rightarrow> string" where
  "sha256_hex m = hexlify (sha256 m)"

section \<open>HMAC\<close>

definition hmac_key :: "string \<Rightarrow> string" where
  "hmac_key k =
     (let k' = (if length k > 64 then sha256 k else k) in k' @ replicate (64 - length k') (CHR 0x00))"

definition xor_byte :: "nat \<Rightarrow> char \<Rightarrow> char" where
  "xor_byte n c = char_of (byte c XOR n)"

text \<open>\<open>hmac.new(key, m, hashlib.sha256).digest()\<close>.\<close>

definition hmac_sha256 :: "string \<Rightarrow> string \<Rightarrow> string" where
  "hmac_sha256 key m =
     (let k = hmac_key key
      in sha256 (map (xor_byte 92) k @ sha256 (map (xor_byte 54) k @ m)))"

section \<open>Base64\<close>

text \<open>The standard alphabet with the two URL-safe characters in place of plus and slash.\<close>

definition b64_char :: "nat \<Rightarrow> char" where
  "b64_char n =
     (if n < 26 then char_of (65 + n)
      else if n < 52 then char_of (71 + n)
      else if n < 62 then char_of (n - 4)
      else if n = 62 then CHR ''-'' else CHR ''_'')"

text \<open>The reader accepts both alphabets: the URL-safe characters are translated first.\<close>

definition b64_val :: "char \<Rightarrow> nat option" where
  "b64_val c =
     (let n = byte c
      in if 65 \<le> n \<and> n \<le> 90 then Some (n - 65)
         else if 97 \<le> n \<and> n \<le> 122 then Some (n - 71)
         else if 48 \<le> n \<and> n \<le> 57 then Some (n + 4)
         else if c = CHR ''-'' \<or> c = CHR ''+'' then Some 62
         else if c = CHR ''_'' \<or> c = CHR ''/'' then Some 63
         else None)"

text \<open>\<open>base64.urlsafe_b64encode\<close>, with its padding.\<close>

fun urlsafe_b64encode :: "string \<Rightarrow> string" where
  "urlsafe_b64encode [] = []"
| "urlsafe_b64encode [a] =
     [b64_char (byte a div 4), b64_char (byte a mod 4 * 16), CHR ''='', CHR ''='']"
| "urlsafe_b64encode [a, b] =
     [b64_char (byte a div 4), b64_char (byte a mod 4 * 16 + byte b div 16),
      b64_char (byte b mod 16 * 4), CHR ''='']"
| "urlsafe_b64encode (a # b # c # r) =
     [b64_char (byte a div 4), b64_char (byte a mod 4 * 16 + byte b div 16),
      b64_char (byte b mod 16 * 4 + byte c div 64), b64_char (byte c mod 64)]
     @ urlsafe_b64encode r"

text \<open>
  The lenient reader: the position in the current group of four, the bits left over from the
  previous character, and the number of padding characters seen since the last data character.
\<close>

fun a2b_base64 :: "nat \<Rightarrow> nat \<Rightarrow> nat \<Rightarrow> string \<Rightarrow> string result" where
  "a2b_base64 pos left pads [] = (if pos = 0 then Inr [] else Inl (ValueError []))"
| "a2b_base64 pos left pads (c # s) =
     (if c = CHR ''='' then
        (if 2 \<le> pos \<and> 4 \<le> pos + (pads + 1) then Inr []
         else a2b_base64 pos left (if 2 \<le> pos then pads + 1 else pads) s)
      else
        (case b64_val c of
           None \<Rightarrow> a2b_base64 pos left pads s
         | Some v \<Rightarrow>
             (if pos = 0 then a2b_base64 1 v 0 s
              else if pos = 1 then
                bindR (a2b_base64 2 (v mod 16) 0 s) (\<lambda>t. Inr (char_of (left * 4 + v div 16) # t))
              else if pos = 2 then
                bindR (a2b_base64 3 (v mod 4) 0 s) (\<lambda>t. Inr (char_of (left * 16 + v div 4) # t))
              else
                bindR (a2b_base64 0 0 0 s) (\<lambda>t. Inr (char_of (left * 64 + v) # t)))))"

text \<open>\<open>base64.urlsafe_b64decode(s)\<close> of a \<open>str\<close>: only ASCII is accepted.\<close>

definition urlsafe_b64decode :: "string \<Rightarrow> string result" where
  "urlsafe_b64decode s = (if is_ascii s then a2b_base64 0 0 0 s else Inl (ValueError []))"

lemma b64_table:
  assumes "n < 64"
  shows "b64_val (b64_char n) = Some n \<and> b64_char n \<noteq> CHR ''='' \<and> b64_char n \<noteq> CHR ''.''
     \<and> byte (b64_char n) < (128 :: nat)"
proof -
  let ?ok = "\<lambda>c. b64_val c = Some n \<and> c \<noteq> CHR ''='' \<and> c \<noteq> CHR ''.'' \<and> byte c < (128 :: nat)"
  have *: "?ok c" if "b64_val c = Some n" "byte c < (128 :: nat)" for c
    using that by (auto simp: b64_val_def)
  consider "n < 26" | m where "n = 26 + m" "m < 26" | m where "n = 52 + m" "m < 10" | "n = 62" | "n = 63"
    using assms that(2)[of "n - 26"] that(3)[of "n - 52"] by linarith
  then show ?thesis
  proof cases
    case 1
    then show ?thesis by (intro *) (simp_all add: b64_val_def b64_char_def Let_def)
  next
    case 2
    then show ?thesis by (intro *) (simp_all add: b64_val_def b64_char_def Let_def)
  next
    case 3
    then show ?thesis by (intro *) (simp_all add: b64_val_def b64_char_def Let_def)
  qed (simp_all add: b64_val_def b64_char_def)
qed

lemma b64_val_char: "n < 64 \<Longrightarrow> b64_val (b64_char n) = Some n"
  using b64_table by blast

text \<open>The alphabet avoids the padding character and the dot that separates the parts of a token.\<close>

definition b64_plain :: "char \<Rightarrow> bool" where
  "b64_plain c \<longleftrightarrow> c \<noteq> CHR ''='' \<and> c \<noteq> CHR ''.'' \<and> byte c < (128 :: nat)"

lemma b64_char_plain: "n < 64 \<Longrightarrow> b64_plain (b64_char n)"
  using b64_table by (simp add: b64_plain_def)

lemma b64_char_not_pad: "n < 64 \<Longrightarrow> b64_char n \<noteq> CHR ''=''"
  using b64_char_plain by (auto simp: b64_plain_def)

lemma a2b_data:
  "n < 64 \<Longrightarrow> a2b_base64 pos left pads (b64_char n # s) =
     (if pos = 0 then a2b_base64 1 n 0 s
      else if pos = 1 then
        bindR (a2b_base64 2 (n mod 16) 0 s) (\<lambda>t. Inr (char_of (left * 4 + n div 16) # t))
      else if pos = 2 then
        bindR (a2b_base64 3 (n mod 4) 0 s) (\<lambda>t. Inr (char_of (left * 16 + n div 4) # t))
      else bindR (a2b_base64 0 0 0 s) (\<lambda>t. Inr (char_of (left * 64 + n) # t)))"
  by (simp add: b64_val_char b64_char_not_pad)

declare a2b_base64.simps(2) [simp del]

lemma a2b_pad: "2 \<le> pos \<Longrightarrow> 4 \<le> pos + (pads + 1) \<Longrightarrow> a2b_base64 pos left pads (CHR ''='' # s) = Inr []"
  "pos = 2 \<Longrightarrow> a2b_base64 pos left 0 (CHR ''='' # CHR ''='' # s) = Inr []"
  by (simp_all add: a2b_base64.simps(2))

lemma byte_div: "byte a div 4 < (64 :: nat)" "byte a div 16 < (16 :: nat)" "byte a div 64 < (4 :: nat)"
  by (rule less_mult_imp_div_less, use byte_less [of a] in simp)+

lemma radix_less: "x < k \<Longrightarrow> y < m \<Longrightarrow> x * m + y < k * (m :: nat)"
proof -
  assume "x < k" "y < m"
  then have "x * m + y < Suc x * m" "Suc x * m \<le> k * m" by (simp, intro mult_le_mono1, simp)
  then show ?thesis by linarith
qed

lemma sextet_bounds:
  "byte a div 4 < (64 :: nat)" "byte a mod 4 * 16 + byte b div 16 < (64 :: nat)"
  "byte b mod 16 * 4 + byte c div 64 < (64 :: nat)" "byte c mod 64 < (64 :: nat)"
  "byte a mod 4 * 16 < (64 :: nat)" "byte b mod 16 * 4 < (64 :: nat)"
  using radix_less [of "byte a mod 4" 4 "byte b div 16" 16] radix_less [of "byte b mod 16" 16 "byte c div 64" 4]
    radix_less [of "byte a mod 4" 4 0 16] radix_less [of "byte b mod 16" 16 0 4]
  by (simp_all add: byte_div)

lemma sextet_split:
  "(byte a mod 4 * 16 + byte b div 16) div 16 = (byte a mod 4 :: nat)"
  "(byte a mod 4 * 16 + byte b div 16) mod 16 = (byte b div 16 :: nat)"
  "(byte b mod 16 * 4 + byte c div 64) div 4 = (byte b mod 16 :: nat)"
  "(byte b mod 16 * 4 + byte c div 64) mod 4 = (byte c div 64 :: nat)"
  "(byte a mod 4 * 16) div 16 = (byte a mod 4 :: nat)"
  "(byte b mod 16 * 4) div 4 = (byte b mod 16 :: nat)"
  by (simp_all add: radix_div radix_mod byte_div)

lemma sextet_join:
  "char_of (byte a div 4 * 4 + byte a mod 4 :: nat) = a"
  "char_of (byte a div 16 * 16 + byte a mod 16 :: nat) = a"
  "char_of (byte a div 64 * 64 + byte a mod 64 :: nat) = a"
  by (simp_all only: div_mult_mod_eq char_of_byte)

text \<open>What the reader does with a whole group, and with the two shorter final groups.\<close>

lemma a2b_group:
  assumes "w < 64" "x < 64"
  shows "a2b_base64 0 0 0 (b64_char w # b64_char x # ''=='') = Inr [char_of (w * 4 + x div 16)]"
    and "y < 64 \<Longrightarrow> a2b_base64 0 0 0 (b64_char w # b64_char x # b64_char y # ''='') =
      Inr [char_of (w * 4 + x div 16), char_of (x mod 16 * 16 + y div 4)]"
    and "y < 64 \<Longrightarrow> z < 64 \<Longrightarrow>
      a2b_base64 0 0 0 (b64_char w # b64_char x # b64_char y # b64_char z # s) =
      bindR (a2b_base64 0 0 0 s)
        (\<lambda>t. Inr (char_of (w * 4 + x div 16) # char_of (x mod 16 * 16 + y div 4)
           # char_of (y mod 4 * 64 + z) # t))"
  using assms by (simp_all add: a2b_data a2b_pad bindR_assoc)

lemma a2b_encode: "a2b_base64 0 0 0 (urlsafe_b64encode s) = Inr s"
proof (induction s rule: urlsafe_b64encode.induct)
  case (4 a b c r)
  show ?case
    unfolding urlsafe_b64encode.simps append.simps
    by (simp only: a2b_group sextet_bounds sextet_split sextet_join 4 bindR_Inr)
next
  case (2 a)
  show ?case
    unfolding urlsafe_b64encode.simps
    by (simp only: a2b_group sextet_bounds sextet_split sextet_join)
next
  case (3 a b)
  show ?case
    unfolding urlsafe_b64encode.simps
    by (simp only: a2b_group sextet_bounds sextet_split sextet_join)
qed simp

subsection \<open>Encoding without padding\<close>

text \<open>
  The encoding is a body over the alphabet followed by the padding that brings its length to a
  multiple of four, so the padding can be dropped and recomputed from the length of the body.
\<close>

lemma b64encode_split:
  "\<exists>body n. urlsafe_b64encode s = body @ replicate n CHR ''='' \<and> n < 4
     \<and> (length body + n) mod 4 = 0 \<and> list_all b64_plain body"
proof (induction s rule: urlsafe_b64encode.induct)
  case 1
  show ?case by (intro exI [of _ "[]"] exI [of _ 0]) simp
next
  case (2 a)
  show ?case
    by (intro exI [of _ "[b64_char (byte a div 4), b64_char (byte a mod 4 * 16)]"] exI [of _ 2])
      (simp add: numeral_2_eq_2 b64_char_plain sextet_bounds)
next
  case (3 a b)
  show ?case
    by (intro exI [of _ "[b64_char (byte a div 4), b64_char (byte a mod 4 * 16 + byte b div 16),
        b64_char (byte b mod 16 * 4)]"] exI [of _ 1])
      (simp add: b64_char_plain sextet_bounds)
next
  case (4 a b c r)
  then obtain body n where "urlsafe_b64encode r = body @ replicate n CHR ''=''" "n < 4"
      "(length body + n) mod 4 = 0" "list_all b64_plain body"
    by (elim exE conjE)
  moreover have "(length (w # x # y # z # body) + n) mod 4 = (length body + n) mod 4" for w x y z
    by simp
  ultimately show ?case
    by (intro exI [of _ "[b64_char (byte a div 4), b64_char (byte a mod 4 * 16 + byte b div 16),
        b64_char (byte b mod 16 * 4 + byte c div 64), b64_char (byte c mod 64)] @ body"] exI [of _ n])
      (simp add: b64_char_plain sextet_bounds)
qed

lemma padding_unique:
  assumes "n < 4" "(m + n) mod 4 = (0 :: nat)"
  shows "n = (4 - m mod 4) mod 4"
proof -
  define r where "r = m mod 4"
  have "r < 4" by (simp add: r_def)
  have "(r + n) mod 4 = 0" unfolding r_def using assms(2) by (simp only: mod_add_left_eq)
  then obtain k where k: "r + n = 4 * k" by (auto simp: mod_eq_0_iff_dvd dvd_def)
  with \<open>r < 4\<close> assms(1) have "k = 0 \<or> k = 1" by linarith
  then have "n = 4 - r \<or> r = 0 \<and> n = 0" using k by linarith
  then show ?thesis unfolding r_def [symmetric] using assms(1) by auto
qed

lemma unpadded_encoding:
  defines "body s \<equiv> rstrip_char CHR ''='' (urlsafe_b64encode s)"
  shows "list_all b64_plain (body s)"
    and "urlsafe_b64encode s = body s @ replicate ((4 - length (body s) mod 4) mod 4) CHR ''=''"
proof -
  obtain b n where b: "urlsafe_b64encode s = b @ replicate n CHR ''=''" "n < 4"
      "(length b + n) mod 4 = 0" "list_all b64_plain b"
    using b64encode_split [of s] by (elim exE conjE)
  have "b = [] \<or> last b \<noteq> CHR ''=''"
    using b(4) by (cases b rule: rev_cases) (auto simp: b64_plain_def)
  then have body: "body s = b" unfolding body_def b(1) by (rule rstrip_char_append)
  then show "list_all b64_plain (body s)" using b(4) by simp
  have "n = (4 - length b mod 4) mod 4" using b(2,3) by (rule padding_unique)
  then show "urlsafe_b64encode s = body s @ replicate ((4 - length (body s) mod 4) mod 4) CHR ''=''"
    unfolding body b(1) by simp
qed

lemma b64_plain_ascii: "list_all b64_plain s \<Longrightarrow> is_ascii s"
  by (auto simp: list_all_iff b64_plain_def is_ascii_def)

lemma b64_plain_no_dot: "list_all b64_plain s \<Longrightarrow> CHR ''.'' \<notin> set s"
  by (auto simp: list_all_iff b64_plain_def)

lemma b64decode_encode:
  defines "body s \<equiv> rstrip_char CHR ''='' (urlsafe_b64encode s)"
  shows "urlsafe_b64decode (body s @ replicate ((4 - length (body s) mod 4) mod 4) CHR ''='') = Inr s"
proof -
  let ?enc = "body s @ replicate ((4 - length (body s) mod 4) mod 4) CHR ''=''"
  have "is_ascii (body s)" using b64_plain_ascii [OF unpadded_encoding(1)] by (simp add: body_def)
  moreover have "is_ascii (replicate n CHR ''='')" for n by (induction n) simp_all
  ultimately have "is_ascii ?enc" by simp
  moreover have "a2b_base64 0 0 0 ?enc = Inr s"
    using a2b_encode [of s] unpadded_encoding(2) [of s] unfolding body_def by metis
  ultimately show ?thesis by (simp only: urlsafe_b64decode_def if_True)
qed

section \<open>Sizes of digests\<close>

lemma length_sha_rounds: "length h = 8 \<Longrightarrow> length (sha_rounds ks w h) = 8"
  by (induction ks w h rule: sha_rounds.induct) (auto simp: Let_def)

lemma length_sha_block: "length h = 8 \<Longrightarrow> length (sha_block h b) = 8"
  by (simp add: sha_block_def length_sha_rounds)

lemma length_sha_blocks: "length h = 8 \<Longrightarrow> length (sha_blocks h m) = 8"
proof (induction h m rule: sha_blocks.induct)
  case (1 h m)
  then show ?case by (cases "length m < 64") (simp_all add: sha_blocks.simps [of h m] length_sha_block)
qed

lemma length_be_bytes: "length (be_bytes k n) = k"
  by (induction k n rule: be_bytes.induct) simp_all

lemma length_sha256: "length (sha256 m) = 32"
proof -
  have "length (sha_blocks sha_init (sha_pad m)) = 8" by (rule length_sha_blocks) (simp add: sha_init_def)
  then show ?thesis by (simp add: sha256_def length_concat length_be_bytes o_def sum_list_triv)
qed

lemma length_hmac: "length (hmac_sha256 k m) = 32"
  by (simp add: hmac_sha256_def Let_def length_sha256)

text \<open>A hexadecimal digest is 64 characters from \<open>0-9a-f\<close>.\<close>

definition is_hex :: "char \<Rightarrow> bool" where
  "is_hex c \<longleftrightarrow> is_digit c \<or> 97 \<le> byte c \<and> byte c \<le> (102 :: nat)"

lemma is_hex_digit: "n < 16 \<Longrightarrow> is_hex (hex_digit n)"
  by (simp add: is_hex_def hex_digit_def is_digit_def)

lemma hexlify_hex: "list_all is_hex (hexlify s)"
  by (auto simp: hexlify_def list_all_iff intro!: is_hex_digit byte_div)

lemma length_sha256_hex: "length (sha256_hex m) = 64"
  by (simp add: sha256_hex_def hexlify_def length_concat o_def sum_list_triv length_sha256)

lemma sha256_hex_hex: "list_all is_hex (sha256_hex m)"
  by (simp add: sha256_hex_def hexlify_hex)

lemma is_hex_ascii: "list_all is_hex s \<Longrightarrow> is_ascii s"
  by (auto simp: list_all_iff is_ascii_def is_hex_def is_digit_def)

end
