(* ===== verification/Capability.thy ===== *)
theory Capability
  imports Json Crypto
begin

text \<open>
  The token layer of the run registry (\<open>runner/capability.py\<close>): a capability is printed as
  canonical JSON, encoded in URL-safe base64 without padding, and signed with HMAC-SHA-256; a token
  is \<open>v1.<payload>.<signature>\<close>. Decoding checks the shape, then the signature, then the payload.

  The lemmas show that decoding inverts issuing for every capability that the JSON codec can carry,
  that a token is accepted only with the signature that the secret gives its payload, and on which
  tokens decoding raises instead of reporting a reason.
\<close>

section \<open>Tokens\<close>

definition TOKEN_VERSION :: string where
  "TOKEN_VERSION = ''v1''"

definition CAPABILITY_VALID :: string where
  "CAPABILITY_VALID = ''CAPABILITY_VALID''"

definition REASON_MALFORMED_TOKEN :: string where
  "REASON_MALFORMED_TOKEN = ''MALFORMED_TOKEN''"

definition REASON_SIGNATURE_INVALID :: string where
  "REASON_SIGNATURE_INVALID = ''SIGNATURE_INVALID''"

definition REASON_RUN_UNKNOWN :: string where
  "REASON_RUN_UNKNOWN = ''RUN_UNKNOWN''"

definition REASON_RUN_FINISHED :: string where
  "REASON_RUN_FINISHED = ''RUN_FINISHED''"

definition REASON_CAPABILITY_EXPIRED :: string where
  "REASON_CAPABILITY_EXPIRED = ''CAPABILITY_EXPIRED''"

definition REASON_TOOL_MISMATCH :: string where
  "REASON_TOOL_MISMATCH = ''TOOL_NOT_ALLOWED''"

definition REASON_SCOPE_MISMATCH :: string where
  "REASON_SCOPE_MISMATCH = ''SCOPE_MISMATCH''"

lemmas reason_defs = CAPABILITY_VALID_def REASON_MALFORMED_TOKEN_def REASON_SIGNATURE_INVALID_def
  REASON_RUN_UNKNOWN_def REASON_RUN_FINISHED_def REASON_CAPABILITY_EXPIRED_def
  REASON_TOOL_MISMATCH_def REASON_SCOPE_MISMATCH_def

record capability =
  cap_run_id :: string
  cap_tool :: string
  cap_scope :: string
  cap_expires_at :: int

record capability_check =
  chk_valid :: bool
  chk_reason :: string
  chk_run_id :: "string option"
  chk_tool :: "string option"
  chk_scope :: "string option"

text \<open>
  \<open>DecodeResult\<close>: the code fills exactly one of its two fields, so it is a sum.
\<close>

datatype decode_result = Decoded capability | Rejected string

text \<open>
  The encoding writes ASCII characters only, so the \<open>decode("ascii")\<close> at its end is the identity
  on this representation; decoding pads to a multiple of four characters first.
\<close>

definition b64encode :: "string \<Rightarrow> string" where
  "b64encode data = rstrip_char CHR ''='' (urlsafe_b64encode data)"

definition b64decode :: "string \<Rightarrow> string result" where
  "b64decode text =
     urlsafe_b64decode (text @ replicate ((4 - py_len text mod 4) mod 4) CHR ''='')"

definition sign :: "string \<Rightarrow> string \<Rightarrow> string result" where
  "sign secret signing_input =
     bindR (encode_ascii signing_input) (\<lambda>raw. Inr (b64encode (hmac_sha256 secret raw)))"

definition capability_payload :: "capability \<Rightarrow> pydict" where
  "capability_payload c =
     [(''run_id'', PStr (cap_run_id c)), (''tool'', PStr (cap_tool c)),
      (''scope'', PStr (cap_scope c)), (''exp'', PInt (cap_expires_at c))]"

definition issue_token :: "string \<Rightarrow> capability \<Rightarrow> string result" where
  "issue_token secret c =
     bindR (bindR (dumps opts_canonical_ascii (PDict (capability_payload c))) encode_utf8) (\<lambda>raw.
       let signing_input = TOKEN_VERSION @ ''.'' @ b64encode raw
       in bindR (sign secret signing_input) (\<lambda>s. Inr (signing_input @ ''.'' @ s)))"

text \<open>\<open>hmac.compare_digest\<close> on two \<open>str\<close> arguments raises unless both are ASCII.\<close>

definition compare_digest :: "string \<Rightarrow> string \<Rightarrow> bool result" where
  "compare_digest a b = (if is_ascii a \<and> is_ascii b then Inr (a = b) else Inl TypeError)"

definition payload_capability :: "pyval \<Rightarrow> decode_result" where
  "payload_capability decoded =
     (case decoded of
        PDict d \<Rightarrow>
          (case (dget d ''run_id'', dget d ''tool'', dget d ''scope'', dget d ''exp'') of
             (Some (PStr run_id), Some (PStr tool), Some (PStr scope), Some (PInt exp)) \<Rightarrow>
               Decoded \<lparr>cap_run_id = run_id, cap_tool = tool, cap_scope = scope, cap_expires_at = exp\<rparr>
           | _ \<Rightarrow> Rejected REASON_MALFORMED_TOKEN)
      | _ \<Rightarrow> Rejected REASON_MALFORMED_TOKEN)"

definition decode_payload :: "string \<Rightarrow> decode_result result" where
  "decode_payload encoded =
     (case bindR (b64decode encoded) json_loads_bytes of
        Inl e \<Rightarrow> if is_value_error e then Inr (Rejected REASON_MALFORMED_TOKEN) else Inl e
      | Inr decoded \<Rightarrow> Inr (payload_capability decoded))"

definition decode_token :: "string \<Rightarrow> string \<Rightarrow> decode_result result" where
  "decode_token secret token =
     (case split_on CHR ''.'' token of
        [version, encoded, signature] \<Rightarrow>
          (if version \<noteq> TOKEN_VERSION \<or> encoded = [] \<or> signature = []
           then Inr (Rejected REASON_MALFORMED_TOKEN)
           else
             bindR (sign secret (TOKEN_VERSION @ ''.'' @ encoded)) (\<lambda>expected.
             bindR (compare_digest expected signature) (\<lambda>same.
               if \<not> same then Inr (Rejected REASON_SIGNATURE_INVALID) else decode_payload encoded)))
      | _ \<Rightarrow> Inr (Rejected REASON_MALFORMED_TOKEN))"

section \<open>Decoding inverts issuing\<close>

lemma b64encode_plain: "list_all b64_plain (b64encode d)"
  unfolding b64encode_def by (rule unpadded_encoding(1))

lemma b64encode_ascii [simp]: "is_ascii (b64encode d)"
  by (rule b64_plain_ascii [OF b64encode_plain])

lemma b64encode_no_dot: "CHR ''.'' \<notin> set (b64encode d)"
  by (rule b64_plain_no_dot [OF b64encode_plain])

lemma b64decode_b64encode: "b64decode (b64encode d) = Inr d"
  unfolding b64decode_def py_len_ascii [OF b64encode_ascii] unfolding b64encode_def
  by (rule b64decode_encode)

lemma b64encode_Nil: "b64encode d = [] \<Longrightarrow> d = []"
proof -
  assume "b64encode d = []"
  then have "b64decode [] = Inr d" by (metis b64decode_b64encode)
  moreover have "b64decode [] = Inr []" by (simp add: b64decode_def urlsafe_b64decode_def py_len_def)
  ultimately show "d = []" by simp
qed

lemma sign_Inr: "is_ascii m \<Longrightarrow> sign secret m = Inr (b64encode (hmac_sha256 secret m))"
  by (simp add: sign_def encode_ascii_def)

lemma sign_Inl: "\<not> is_ascii m \<Longrightarrow> sign secret m = Inl UnicodeEncodeError"
  by (simp add: sign_def encode_ascii_def)

lemma hmac_ne: "hmac_sha256 k m \<noteq> []"
  using length_hmac [of k m] by auto

lemma b64decode_errors: "b64decode t = Inl e \<Longrightarrow> is_value_error e"
proof -
  have "a2b_base64 pos left pads s = Inl e \<Longrightarrow> is_value_error e" for pos left pads s
    by (induction pos left pads s rule: a2b_base64.induct)
      (auto simp: a2b_base64.simps(2) bindR_eq_Inl split: if_splits option.splits)
  then show "b64decode t = Inl e \<Longrightarrow> is_value_error e"
    by (auto simp: b64decode_def urlsafe_b64decode_def split: if_splits)
qed

text \<open>Every exception of the payload's decoding is a \<open>ValueError\<close>, so it is caught.\<close>

lemma decode_payload_eq:
  "decode_payload encoded = Inr
     (case bindR (b64decode encoded) json_loads_bytes of
        Inl e \<Rightarrow> Rejected REASON_MALFORMED_TOKEN | Inr decoded \<Rightarrow> payload_capability decoded)"
  using b64decode_errors json_loads_bytes_errors
  by (auto simp: decode_payload_def bindR_def split: sum.splits)

lemma ascii_version [simp]: "is_ascii TOKEN_VERSION"
  by (simp add: TOKEN_VERSION_def)

text \<open>The capabilities that the JSON codec carries faithfully.\<close>

definition token_text :: "string \<Rightarrow> bool" where
  "token_text s \<longleftrightarrow> valid_str s \<and> \<not> has_surrogate s"

definition cap_ok :: "capability \<Rightarrow> bool" where
  "cap_ok c \<longleftrightarrow> token_text (cap_run_id c) \<and> token_text (cap_tool c) \<and> token_text (cap_scope c)
     \<and> int_ok (cap_expires_at c)"

lemma printable_payload:
  "printable opts_canonical_ascii (PDict (capability_payload c)) \<longleftrightarrow> cap_ok c"
  by (auto simp: capability_payload_def cap_ok_def token_text_def str_ok_def opts_canonical_ascii_def
      dict_wf_def valid_str_ascii no_surrogate_ascii)

lemma payload_capability_sorted:
  "payload_capability (canon opts_canonical_ascii (PDict (capability_payload c))) = Decoded c"
  by (simp add: payload_capability_def canon_def opts_canonical_ascii_def capability_payload_def
      less_char_def)

abbreviation payload_text :: "capability \<Rightarrow> string" where
  "payload_text c \<equiv> json_dumps opts_canonical_ascii (PDict (capability_payload c))"

abbreviation signing_input :: "string \<Rightarrow> string" where
  "signing_input encoded \<equiv> TOKEN_VERSION @ CHR ''.'' # encoded"

lemma payload_text_ascii: "cap_ok c \<Longrightarrow> is_ascii (payload_text c)"
  by (rule printed_is_ascii, rule dumps_printed(1) [OF _ iffD2 [OF printable_payload]])
    (simp add: opts_canonical_ascii_def)

lemma issue_token_ok:
  assumes "cap_ok c"
  shows "issue_token secret c = Inr (signing_input (b64encode (payload_text c)) @ CHR ''.'' #
       b64encode (hmac_sha256 secret (signing_input (b64encode (payload_text c)))))"
proof -
  have "dumps opts_canonical_ascii (PDict (capability_payload c)) = Inr (payload_text c)"
    using printable_ints_ok(1) [OF iffD2 [OF printable_payload assms]] by (simp only: dumps_def if_True)
  moreover have "is_ascii (signing_input (b64encode (payload_text c)))" by (simp add: TOKEN_VERSION_def)
  ultimately show ?thesis
    using payload_text_ascii [OF assms]
    by (simp add: issue_token_def encode_utf8_ascii sign_Inr Let_def)
qed

lemma split_token:
  assumes "CHR ''.'' \<notin> set encoded" "CHR ''.'' \<notin> set signature"
  shows "split_on CHR ''.'' (signing_input encoded @ CHR ''.'' # signature) = [TOKEN_VERSION, encoded, signature]"
proof -
  have "split_on CHR ''.'' (encoded @ CHR ''.'' # signature) = [encoded, signature]"
    using assms by (simp add: split_on_append split_on_none)
  moreover have "CHR ''.'' \<notin> set TOKEN_VERSION" by (simp add: TOKEN_VERSION_def)
  ultimately show ?thesis by (simp add: split_on_append)
qed

lemma payload_text_ne: "payload_text c \<noteq> []"
  by (simp add: dump_members_def)

lemma decode_issued:
  assumes "cap_ok c" "issue_token secret c = Inr t"
  shows "decode_token secret t = Inr (Decoded c)"
proof -
  let ?enc = "b64encode (payload_text c)"
  let ?sig = "b64encode (hmac_sha256 secret (signing_input ?enc))"
  have t: "t = signing_input ?enc @ CHR ''.'' # ?sig"
    using assms issue_token_ok by (metis Inr_inject)
  have ne: "?enc \<noteq> []" "?sig \<noteq> []"
    using b64encode_Nil payload_text_ne hmac_ne by metis+
  have sgn: "sign secret (signing_input ?enc) = Inr ?sig"
    by (rule sign_Inr) (simp add: TOKEN_VERSION_def)
  have read: "json_loads_bytes (payload_text c) = Inr (canon opts_canonical_ascii (PDict (capability_payload c)))"
    by (rule json_loads_bytes_dumps [OF _ iffD2 [OF printable_payload assms(1)]])
      (simp add: opts_canonical_ascii_def)
  show ?thesis
    unfolding t decode_token_def split_token [OF b64encode_no_dot b64encode_no_dot]
    using ne sgn read
    by (simp add: compare_digest_def decode_payload_eq b64decode_b64encode payload_capability_sorted)
qed

lemma issue_token_total: "cap_ok c \<Longrightarrow> \<exists>t. issue_token secret c = Inr t"
  using issue_token_ok by blast

lemma issued_token_ascii: "cap_ok c \<Longrightarrow> issue_token secret c = Inr t \<Longrightarrow> is_ascii t"
  using issue_token_ok [of c secret] by (auto simp: TOKEN_VERSION_def)

section \<open>What decoding accepts and when it raises\<close>

text \<open>A token of the right shape: three non-empty parts, the first of them the version.\<close>

definition token_shape :: "string \<Rightarrow> string \<Rightarrow> string \<Rightarrow> bool" where
  "token_shape token encoded signature \<longleftrightarrow>
     split_on CHR ''.'' token = [TOKEN_VERSION, encoded, signature] \<and> encoded \<noteq> [] \<and> signature \<noteq> []"

lemma token_shape_text: "token_shape token encoded signature \<Longrightarrow> token = signing_input encoded @ CHR ''.'' # signature"
  using join_split_on [of "CHR ''.''" token] by (simp add: token_shape_def)

lemma decode_token_shape:
  "token_shape token encoded signature \<Longrightarrow> decode_token secret token =
     (if \<not> is_ascii encoded then Inl UnicodeEncodeError
      else if \<not> is_ascii signature then Inl TypeError
      else if b64encode (hmac_sha256 secret (signing_input encoded)) \<noteq> signature
      then Inr (Rejected REASON_SIGNATURE_INVALID)
      else decode_payload encoded)"
  by (cases "is_ascii encoded") (simp_all add: decode_token_def token_shape_def sign_Inr sign_Inl compare_digest_def)

lemma decode_token_no_shape:
  assumes "\<And>encoded signature. \<not> token_shape token encoded signature"
  shows "decode_token secret token = Inr (Rejected REASON_MALFORMED_TOKEN)"
  using assms by (auto simp: decode_token_def token_shape_def split: list.splits)

lemma decode_accepts:
  assumes "decode_token secret token = Inr (Decoded c)"
  shows "\<exists>encoded raw v.
       token_shape token encoded (b64encode (hmac_sha256 secret (signing_input encoded)))
     \<and> is_ascii encoded \<and> b64decode encoded = Inr raw \<and> json_loads_bytes raw = Inr v
     \<and> payload_capability v = Decoded c"
proof -
  obtain encoded signature where shape: "token_shape token encoded signature"
    using assms decode_token_no_shape by fastforce
  from assms have "is_ascii encoded" "b64encode (hmac_sha256 secret (signing_input encoded)) = signature"
      "decode_payload encoded = Inr (Decoded c)"
    by (auto simp: decode_token_shape [OF shape] split: if_splits)
  moreover from this(3) obtain raw v where "b64decode encoded = Inr raw" "json_loads_bytes raw = Inr v"
      "payload_capability v = Decoded c"
    by (auto simp: decode_payload_eq bindR_eq_Inr split: sum.splits)
  ultimately show ?thesis using shape by blast
qed

lemma decode_raises:
  "decode_token secret token = Inl e \<longleftrightarrow>
     (\<exists>encoded signature. token_shape token encoded signature
        \<and> (if is_ascii encoded then e = TypeError \<and> \<not> is_ascii signature else e = UnicodeEncodeError))"
proof (cases "\<exists>encoded signature. token_shape token encoded signature")
  case True
  then obtain encoded signature where shape: "token_shape token encoded signature" by blast
  then have "token_shape token x y \<longleftrightarrow> x = encoded \<and> y = signature" for x y by (auto simp: token_shape_def)
  then show ?thesis
    by (auto simp: decode_token_shape [OF shape] decode_payload_eq)
qed (simp add: decode_token_no_shape)

end
