(* ===== verification/RunRegistry.thy ===== *)
theory RunRegistry
  imports Capability
begin

text \<open>
  The in-memory registry of agent runs (\<open>runner/registry.py\<close>): it starts and finishes runs,
  issues capability tokens for active reg_runs and checks presented tokens.

  The registry object is a record of the signing secret and the dictionary of runs. The methods
  that read the clock or draw a random identifier take these as arguments: \<open>clock\<close> is the value of
  \<open>int(time.time())\<close> and \<open>fresh\<close> the value of \<open>uuid4().hex\<close>. The evolution of a registry is the
  relation \<open>reg_steps\<close>; its invariant and the fate of tokens of finished runs are proved by
  induction over the reachable states.
\<close>

section \<open>Runs and their operations\<close>

definition DEFAULT_TTL_SECONDS :: int where
  "DEFAULT_TTL_SECONDS = 300"

record run =
  r_run_id :: string
  r_actor :: pydict
  r_created_at :: int
  r_finished :: bool

record run_registry =
  reg_secret :: string
  reg_runs :: "run dict"

definition new_registry :: "string \<Rightarrow> run_registry" where
  "new_registry s = \<lparr>reg_secret = s, reg_runs = []\<rparr>"

definition reg_start :: "pydict \<Rightarrow> string option \<Rightarrow> string \<Rightarrow> int \<Rightarrow> run_registry \<Rightarrow> run \<times> run_registry" where
  "reg_start act rid fresh clock reg =
     (let r = \<lparr>r_run_id = (case rid of None \<Rightarrow> ''RUN-'' @ fresh
                          | Some s \<Rightarrow> if s = [] then ''RUN-'' @ fresh else s),
               r_actor = act, r_created_at = clock, r_finished = False\<rparr>
      in (r, reg\<lparr>reg_runs := dset (r_run_id r) r (reg_runs reg)\<rparr>))"

definition reg_get :: "run_registry \<Rightarrow> string \<Rightarrow> run option" where
  "reg_get reg rid = dget (reg_runs reg) rid"

definition reg_finish :: "string \<Rightarrow> run_registry \<Rightarrow> run_registry result" where
  "reg_finish rid reg =
     (case reg_get reg rid of
        None \<Rightarrow> Inl (RunUnknownError rid)
      | Some r \<Rightarrow> Inr (reg\<lparr>reg_runs := dset rid (r\<lparr>r_finished := True\<rparr>) (reg_runs reg)\<rparr>))"

definition reg_issue :: "run_registry \<Rightarrow> string \<Rightarrow> string \<Rightarrow> string \<Rightarrow> int \<Rightarrow> int option \<Rightarrow> int \<Rightarrow> string result" where
  "reg_issue reg rid tool scope ttl now clock =
     (case reg_get reg rid of
        None \<Rightarrow> Inl (RunUnknownError rid)
      | Some r \<Rightarrow>
          (if r_finished r then Inl (RunUnknownError rid)
           else
             let issued_at = (case now of None \<Rightarrow> clock | Some n \<Rightarrow> n)
             in issue_token (reg_secret reg)
                  \<lparr>cap_run_id = rid, cap_tool = tool, cap_scope = scope, cap_expires_at = issued_at + ttl\<rparr>))"

definition reg_reject :: "capability \<Rightarrow> string \<Rightarrow> capability_check" where
  "reg_reject c why = \<lparr>chk_valid = False, chk_reason = why, chk_run_id = Some (cap_run_id c),
     chk_tool = Some (cap_tool c), chk_scope = Some (cap_scope c)\<rparr>"

text \<open>The part of \<open>check\<close> after decoding: the claims against the registry and the request.\<close>

definition check_claims :: "run_registry \<Rightarrow> capability \<Rightarrow> string \<Rightarrow> string \<Rightarrow> int \<Rightarrow> capability_check" where
  "check_claims reg c tool scope current =
     (case reg_get reg (cap_run_id c) of
        None \<Rightarrow> reg_reject c REASON_RUN_UNKNOWN
      | Some r \<Rightarrow>
          (if r_finished r then reg_reject c REASON_RUN_FINISHED
           else if cap_expires_at c < current then reg_reject c REASON_CAPABILITY_EXPIRED
           else if cap_tool c \<noteq> tool then reg_reject c REASON_TOOL_MISMATCH
           else if cap_scope c \<noteq> scope then reg_reject c REASON_SCOPE_MISMATCH
           else \<lparr>chk_valid = True, chk_reason = CAPABILITY_VALID, chk_run_id = Some (cap_run_id c),
                 chk_tool = Some (cap_tool c), chk_scope = Some (cap_scope c)\<rparr>))"

definition reg_check :: "run_registry \<Rightarrow> string \<Rightarrow> string \<Rightarrow> string \<Rightarrow> int option \<Rightarrow> int \<Rightarrow> capability_check result" where
  "reg_check reg token tool scope now clock =
     bindR (decode_token (reg_secret reg) token) (\<lambda>decoded.
       case decoded of
         Rejected error \<Rightarrow>
           Inr \<lparr>chk_valid = False, chk_reason = (if error = [] then REASON_RUN_UNKNOWN else error),
                chk_run_id = None, chk_tool = None, chk_scope = None\<rparr>
       | Decoded c \<Rightarrow>
           Inr (check_claims reg c tool scope (case now of None \<Rightarrow> clock | Some n \<Rightarrow> n)))"

text \<open>Active runs: registered and not finished.\<close>

definition active :: "run_registry \<Rightarrow> string \<Rightarrow> bool" where
  "active reg rid \<longleftrightarrow> (case reg_get reg rid of None \<Rightarrow> False | Some r \<Rightarrow> \<not> r_finished r)"

interpretation run_coll: keyed_collection reg_get "\<lambda>k r reg. reg\<lparr>reg_runs := dset k r (reg_runs reg)\<rparr>"
  by unfold_locales (simp add: reg_get_def)

section \<open>Functional behaviour\<close>

lemma get_start: "reg_get (snd (reg_start act rid fresh clock reg)) k =
    (if k = r_run_id (fst (reg_start act rid fresh clock reg))
     then Some (fst (reg_start act rid fresh clock reg)) else reg_get reg k)"
  by (simp add: reg_start_def Let_def run_coll.lookup_insert)

lemma get_finish:
  "reg_finish rid reg = Inr reg' \<Longrightarrow>
   reg_get reg' k = (if k = rid then map_option (r_finished_update (\<lambda>_. True)) (reg_get reg rid) else reg_get reg k)"
  by (auto simp: reg_finish_def run_coll.lookup_insert split: option.splits)

lemma secret_start [simp]: "reg_secret (snd (reg_start act rid fresh clock reg)) = reg_secret reg"
  by (simp add: reg_start_def Let_def)

lemma secret_finish: "reg_finish rid reg = Inr reg' \<Longrightarrow> reg_secret reg' = reg_secret reg"
  by (auto simp: reg_finish_def split: option.splits)

lemma valid_check_claims:
  "chk_valid (check_claims reg c tool scope current) \<longleftrightarrow>
     active reg (cap_run_id c) \<and> current \<le> cap_expires_at c \<and> cap_tool c = tool \<and> cap_scope c = scope"
  by (auto simp: check_claims_def reg_reject_def active_def split: option.splits)

lemma check_valid_iff:
  "reg_check reg token tool scope now clock = Inr res \<Longrightarrow>
   chk_valid res \<longleftrightarrow> (\<exists>c. decode_token (reg_secret reg) token = Inr (Decoded c)
      \<and> res = check_claims reg c tool scope (case now of None \<Rightarrow> clock | Some n \<Rightarrow> n)
      \<and> active reg (cap_run_id c) \<and> (case now of None \<Rightarrow> clock | Some n \<Rightarrow> n) \<le> cap_expires_at c
      \<and> cap_tool c = tool \<and> cap_scope c = scope)"
  by (cases "decode_token (reg_secret reg) token"; cases "projr (decode_token (reg_secret reg) token)")
    (auto simp: reg_check_def valid_check_claims)

section \<open>Evolution of a registry\<close>

text \<open>
  The operations that touch the state, each with the arguments the environment chooses. Issuing
  and checking do not change the registry.
\<close>

datatype reg_op = Start pydict "string option" string int | Finish string

fun reg_exec :: "reg_op \<Rightarrow> run_registry \<Rightarrow> run_registry result" where
  "reg_exec (Start act rid fresh clock) reg = Inr (snd (reg_start act rid fresh clock reg))"
| "reg_exec (Finish rid) reg = reg_finish rid reg"

text \<open>The run that an operation starts.\<close>

fun starts :: "reg_op \<Rightarrow> string option" where
  "starts (Start act rid fresh clock) = Some (r_run_id (fst (reg_start act rid fresh clock (new_registry []))))"
| "starts (Finish rid) = None"

inductive reg_steps :: "run_registry \<Rightarrow> reg_op list \<Rightarrow> run_registry \<Rightarrow> bool" where
  reg_done: "reg_steps reg [] reg"
| reg_more: "reg_exec op reg = Inr reg' \<Longrightarrow> reg_steps reg' ops reg'' \<Longrightarrow> reg_steps reg (op # ops) reg''"
| reg_fail: "reg_exec op reg = Inl e \<Longrightarrow> reg_steps reg ops reg'' \<Longrightarrow> reg_steps reg (op # ops) reg''"

inductive_cases reg_steps_ConsE: "reg_steps reg (op # ops) reg'"
inductive_cases reg_steps_NilE: "reg_steps reg [] reg'"

text \<open>Well-formedness: keys are distinct and every run is filed under its own identifier.\<close>

definition reg_wf :: "run_registry \<Rightarrow> bool" where
  "reg_wf reg \<longleftrightarrow> dict_wf (reg_runs reg) \<and> list_all (\<lambda>(k, r). k = r_run_id r) (reg_runs reg)"

lemma reg_wf_iff: "reg_wf reg \<longleftrightarrow> dict_wf (reg_runs reg) \<and> (\<forall>k r. reg_get reg k = Some r \<longrightarrow> r_run_id r = k)"
  by (auto simp: reg_wf_def reg_get_def list_all_iff dict_wf_def dest: map_of_SomeD)

lemma reg_wf_new: "reg_wf (new_registry s)"
  by (simp add: reg_wf_def new_registry_def)

lemma reg_exec_wf: "reg_wf reg \<Longrightarrow> reg_exec op reg = Inr reg' \<Longrightarrow> reg_wf reg'"
proof (cases op)
  case (Start act rid fresh clock)
  moreover assume "reg_wf reg" "reg_exec op reg = Inr reg'"
  ultimately show ?thesis
    using get_start [of act rid fresh clock reg] by (auto simp: reg_wf_iff reg_start_def Let_def)
next
  case (Finish rid)
  moreover assume "reg_wf reg" "reg_exec op reg = Inr reg'"
  ultimately show ?thesis
    using get_finish [of rid reg reg'] by (auto simp: reg_wf_iff reg_finish_def split: option.splits if_splits)
qed

lemma reg_steps_wf: "reg_steps reg ops reg' \<Longrightarrow> reg_wf reg \<Longrightarrow> reg_wf reg'"
  by (induction rule: reg_steps.induct) (auto dest: reg_exec_wf)

lemma reg_exec_secret: "reg_exec op reg = Inr reg' \<Longrightarrow> reg_secret reg' = reg_secret reg"
  by (cases op) (auto simp: secret_finish)

lemma reg_steps_secret: "reg_steps reg ops reg' \<Longrightarrow> reg_secret reg' = reg_secret reg"
  by (induction rule: reg_steps.induct) (auto simp: reg_exec_secret)

definition is_finished :: "run_registry \<Rightarrow> string \<Rightarrow> bool" where
  "is_finished reg rid \<longleftrightarrow> (case reg_get reg rid of None \<Rightarrow> False | Some r \<Rightarrow> r_finished r)"

lemma starts_run_id: "starts (Start act rid fresh clock) = Some (r_run_id (fst (reg_start act rid fresh clock reg)))"
  by (simp add: reg_start_def Let_def)

lemma reg_exec_finished:
  "reg_exec op reg = Inr reg' \<Longrightarrow> starts op \<noteq> Some rid \<Longrightarrow> is_finished reg rid \<Longrightarrow> is_finished reg' rid"
proof (cases op)
  case (Start act r fresh clock)
  moreover assume "reg_exec op reg = Inr reg'" "starts op \<noteq> Some rid" "is_finished reg rid"
  ultimately show ?thesis
    using get_start [of act r fresh clock reg] starts_run_id [of act r fresh clock reg]
    by (auto simp: is_finished_def)
next
  case (Finish r)
  moreover assume "reg_exec op reg = Inr reg'" "is_finished reg rid"
  ultimately show ?thesis
    using get_finish [of r reg reg'] by (auto simp: is_finished_def split: option.splits)
qed

lemma reg_steps_finished:
  "reg_steps reg ops reg' \<Longrightarrow> Some rid \<notin> set (map starts ops) \<Longrightarrow> is_finished reg rid \<Longrightarrow> is_finished reg' rid"
  by (induction rule: reg_steps.induct) (use reg_exec_finished in auto)

lemma finish_is_finished: "reg_finish rid reg = Inr reg' \<Longrightarrow> is_finished reg' rid"
  using get_finish [of rid reg reg' rid] by (auto simp: is_finished_def reg_finish_def split: option.splits)

lemma reg_steps_total: "\<exists>reg'. reg_steps reg ops reg'"
proof (induction ops arbitrary: reg)
  case (Cons op ops)
  then show ?case by (cases "reg_exec op reg") (blast intro: reg_more reg_fail)+
qed (blast intro: reg_done)

section \<open>The life of a token\<close>

lemma reg_issue_active:
  "active reg rid \<Longrightarrow> reg_issue reg rid tool scope ttl now clock = issue_token (reg_secret reg)
     \<lparr>cap_run_id = rid, cap_tool = tool, cap_scope = scope,
      cap_expires_at = (case now of None \<Rightarrow> clock | Some n \<Rightarrow> n) + ttl\<rparr>"
  by (auto simp: active_def reg_issue_def split: option.splits)

lemma reg_check_decoded:
  "decode_token (reg_secret reg) token = Inr (Decoded c) \<Longrightarrow> reg_check reg token tool scope now clock =
     Inr (check_claims reg c tool scope (case now of None \<Rightarrow> clock | Some n \<Rightarrow> n))"
  by (simp add: reg_check_def)

text \<open>
  C5: a token issued for an active run is accepted later, after any operations on the registry,
  exactly when its run is still (or again) active, the time of the check is at most the time of
  issue plus the time to live, and the request names the tool and the scope it was issued for. The
  texts are any without lone surrogates, the expiry any number within the printable limit.
\<close>

theorem issued_token_lifecycle:
  assumes "active reg rid"
    and "cap_ok \<lparr>cap_run_id = rid, cap_tool = tool, cap_scope = scope,
      cap_expires_at = (case now of None \<Rightarrow> clock | Some n \<Rightarrow> n) + ttl\<rparr>"
    and "reg_steps reg ops reg'"
  shows "\<exists>t. reg_issue reg rid tool scope ttl now clock = Inr t
     \<and> (\<forall>tool' scope' now' clock'. \<exists>res. reg_check reg' t tool' scope' now' clock' = Inr res
         \<and> (chk_valid res \<longleftrightarrow> active reg' rid \<and> tool' = tool \<and> scope' = scope
            \<and> (case now' of None \<Rightarrow> clock' | Some n \<Rightarrow> n)
               \<le> (case now of None \<Rightarrow> clock | Some n \<Rightarrow> n) + ttl))"
proof -
  let ?c = "\<lparr>cap_run_id = rid, cap_tool = tool, cap_scope = scope,
      cap_expires_at = (case now of None \<Rightarrow> clock | Some n \<Rightarrow> n) + ttl\<rparr>"
  obtain t where t: "issue_token (reg_secret reg) ?c = Inr t" using issue_token_total [OF assms(2)] by blast
  have "decode_token (reg_secret reg') t = Inr (Decoded ?c)"
    using decode_issued [OF assms(2) t] reg_steps_secret [OF assms(3)] by simp
  then show ?thesis
    using t by (intro exI [of _ t]) (auto simp: reg_issue_active [OF assms(1)] reg_check_decoded valid_check_claims)
qed

text \<open>A token with the default time to live.\<close>

definition granted :: "string \<Rightarrow> string \<Rightarrow> string \<Rightarrow> int \<Rightarrow> capability" where
  "granted run_id name scope clock =
     \<lparr>cap_run_id = run_id, cap_tool = name, cap_scope = scope, cap_expires_at = clock + DEFAULT_TTL_SECONDS\<rparr>"

lemma issue_granted:
  assumes "active capabilities run_id" "cap_ok (granted run_id name scope clock)"
  obtains token where "reg_issue capabilities run_id name scope DEFAULT_TTL_SECONDS None clock = Inr token"
    "is_ascii token" "decode_token (reg_secret capabilities) token = Inr (Decoded (granted run_id name scope clock))"
proof -
  obtain token where t: "issue_token (reg_secret capabilities) (granted run_id name scope clock) = Inr token"
    using issue_token_total [OF assms(2)] by blast
  show ?thesis
    by (rule that [of token]) (use t issued_token_ascii [OF assms(2) t] decode_issued [OF assms(2) t]
      in \<open>simp_all add: reg_issue_active [OF assms(1)] granted_def\<close>)
qed

definition demo_registry :: run_registry where
  "demo_registry = snd (reg_start [] (Some ''RUN-1'') [] 10 (new_registry ''k''))"

lemma demo_caps: "active demo_registry ''RUN-1''"
  "cap_ok \<lparr>cap_run_id = ''RUN-1'', cap_tool = ''fs_read'', cap_scope = ''read'', cap_expires_at = 310\<rparr>"
  by (simp_all add: demo_registry_def Let_def active_def reg_get_def reg_start_def new_registry_def cap_ok_def token_text_def
      valid_str_ascii no_surrogate_ascii int_ok_def max_int_digits_def dec_nat.simps)

theorem issued_token_lifecycle_witness:
  "\<exists>t res. reg_issue demo_registry ''RUN-1'' ''fs_read'' ''read'' 300 None 10 = Inr t
     \<and> reg_check demo_registry t ''fs_read'' ''read'' None 310 = Inr res \<and> chk_valid res"
proof -
  have ok: "cap_ok \<lparr>cap_run_id = ''RUN-1'', cap_tool = ''fs_read'', cap_scope = ''read'',
      cap_expires_at = (case None of None \<Rightarrow> 10 | Some n \<Rightarrow> n) + 300\<rparr>"
    using demo_caps(2) by simp
  obtain t res where "reg_issue demo_registry ''RUN-1'' ''fs_read'' ''read'' 300 None 10 = Inr t"
      "reg_check demo_registry t ''fs_read'' ''read'' None 310 = Inr res"
      "chk_valid res \<longleftrightarrow> active demo_registry ''RUN-1'' \<and> ''fs_read'' = ''fs_read'' \<and> ''read'' = ''read''
         \<and> (case None of None \<Rightarrow> 310 | Some n \<Rightarrow> n) \<le> (case None of None \<Rightarrow> 10 | Some n \<Rightarrow> n) + (300 :: int)"
    using issued_token_lifecycle [OF demo_caps(1) ok reg_done] by blast
  then show ?thesis using demo_caps(1) by auto
qed

text \<open>
  C6: a token is accepted exactly when it consists of the version, a payload and the payload's
  HMAC under the registry's secret, the payload decodes to a capability, the capability's run is
  active, it has not expired, and it names the requested tool and scope. The outcome then carries
  the capability's own claims.
\<close>

theorem check_valid_characterised:
  "reg_check reg token tool scope now clock = Inr res \<and> chk_valid res \<longleftrightarrow>
     (\<exists>encoded raw v c.
        token_shape token encoded (b64encode (hmac_sha256 (reg_secret reg) (signing_input encoded)))
      \<and> is_ascii encoded
      \<and> b64decode encoded = Inr raw \<and> json_loads_bytes raw = Inr v \<and> payload_capability v = Decoded c
      \<and> active reg (cap_run_id c)
      \<and> (case now of None \<Rightarrow> clock | Some n \<Rightarrow> n) \<le> cap_expires_at c
      \<and> cap_tool c = tool \<and> cap_scope c = scope
      \<and> res = \<lparr>chk_valid = True, chk_reason = CAPABILITY_VALID, chk_run_id = Some (cap_run_id c),
               chk_tool = Some tool, chk_scope = Some scope\<rparr>)"
  (is "?L \<longleftrightarrow> ?R")
proof
  assume ?L
  then obtain c where c: "decode_token (reg_secret reg) token = Inr (Decoded c)"
      "res = check_claims reg c tool scope (case now of None \<Rightarrow> clock | Some n \<Rightarrow> n)" "active reg (cap_run_id c)"
      "(case now of None \<Rightarrow> clock | Some n \<Rightarrow> n) \<le> cap_expires_at c" "cap_tool c = tool" "cap_scope c = scope"
    using check_valid_iff by blast
  moreover from this have "res = \<lparr>chk_valid = True, chk_reason = CAPABILITY_VALID,
      chk_run_id = Some (cap_run_id c), chk_tool = Some tool, chk_scope = Some scope\<rparr>"
    by (auto simp: check_claims_def active_def split: option.splits)
  ultimately show ?R using decode_accepts [OF c(1)] by blast
next
  assume ?R
  then obtain encoded raw v c where
      "token_shape token encoded (b64encode (hmac_sha256 (reg_secret reg) (signing_input encoded)))"
      "is_ascii encoded" "b64decode encoded = Inr raw" "json_loads_bytes raw = Inr v"
      "payload_capability v = Decoded c" and c: "active reg (cap_run_id c)"
      "(case now of None \<Rightarrow> clock | Some n \<Rightarrow> n) \<le> cap_expires_at c" "cap_tool c = tool" "cap_scope c = scope"
      "res = \<lparr>chk_valid = True, chk_reason = CAPABILITY_VALID, chk_run_id = Some (cap_run_id c),
               chk_tool = Some tool, chk_scope = Some scope\<rparr>"
    by blast
  then have "decode_token (reg_secret reg) token = Inr (Decoded c)"
    by (simp add: decode_token_shape decode_payload_eq)
  then show ?L using c by (auto simp: reg_check_decoded check_claims_def active_def split: option.splits)
qed

text \<open>
  Once a run is finished, every token that names it is rejected with \<open>RUN_FINISHED\<close>, in every
  state reachable without starting a run under that identifier again.
\<close>

theorem finished_run_tokens_rejected:
  assumes "reg_finish rid reg = Inr reg1" "reg_steps reg1 ops reg2" "Some rid \<notin> set (map starts ops)"
    and "decode_token (reg_secret reg) token = Inr (Decoded c)" "cap_run_id c = rid"
  shows "reg_check reg2 token tool scope now clock = Inr (reg_reject c REASON_RUN_FINISHED)"
proof -
  have "is_finished reg2 rid"
    using reg_steps_finished [OF assms(2,3) finish_is_finished [OF assms(1)]] .
  moreover have "decode_token (reg_secret reg2) token = Inr (Decoded c)"
    using assms(4) secret_finish [OF assms(1)] reg_steps_secret [OF assms(2)] by simp
  ultimately show ?thesis
    using assms(5) by (auto simp: reg_check_decoded check_claims_def is_finished_def split: option.splits)
qed

lemma demo_token:
  "\<exists>t. decode_token (reg_secret demo_registry) t =
     Inr (Decoded \<lparr>cap_run_id = ''RUN-1'', cap_tool = ''fs_read'', cap_scope = ''read'', cap_expires_at = 310\<rparr>)"
  using issue_token_total [OF demo_caps(2)] decode_issued [OF demo_caps(2)] by metis

theorem finished_run_tokens_rejected_witness:
  "\<exists>reg1 t. reg_finish ''RUN-1'' demo_registry = Inr reg1
     \<and> (\<exists>c. reg_check reg1 t ''fs_read'' ''read'' None 11 = Inr (reg_reject c REASON_RUN_FINISHED))"
proof -
  obtain t where t: "decode_token (reg_secret demo_registry) t =
      Inr (Decoded \<lparr>cap_run_id = ''RUN-1'', cap_tool = ''fs_read'', cap_scope = ''read'', cap_expires_at = 310\<rparr>)"
    using demo_token by blast
  obtain reg1 where "reg_finish ''RUN-1'' demo_registry = Inr reg1"
    using demo_caps(1) by (auto simp: reg_finish_def active_def split: option.splits)
  then show ?thesis
    using finished_run_tokens_rejected [OF _ reg_done _ t, of "''RUN-1''" reg1 "''fs_read''" "''read''" None 11]
    by (intro exI [of _ reg1] exI [of _ t]) auto
qed

text \<open>
  Every state reached from a fresh registry files each run under its own identifier, once,
  and keeps the secret it was created with.
\<close>

theorem reachable_registry_wf:
  assumes "reg_steps (new_registry s) ops reg"
  shows "reg_wf reg \<and> reg_secret reg = s"
  using reg_steps_wf [OF assms reg_wf_new] reg_steps_secret [OF assms] by (simp add: new_registry_def)

theorem reachable_registry_wf_witness:
  "reg_wf demo_registry \<and> reg_secret demo_registry = ''k''"
  by (rule reachable_registry_wf [of _ "[Start [] (Some ''RUN-1'') [] 10]"], rule reg_more [OF _ reg_done])
    (simp add: demo_registry_def)

end
