(* ===== verification/Policy.thy ===== *)
theory Policy
  imports Json Crypto
begin

text \<open>
  The policy enforcement client and the documents built from its answers
  (\<open>policy/client.py\<close>, \<open>policy/decision.py\<close>, \<open>policy/artifact_transition.py\<close>,
  \<open>policy/pre_deployment.py\<close>).

  The policy service is outside the program: the argument \<open>urlopen\<close> gives, for each request, the
  body that was read, a transport failure that the client's \<open>except\<close> clause catches, or an
  exception that it does not catch. Nothing is assumed about it. The lemmas show that an allow is
  reported exactly when the service answered with one, that every result carries a reason and the
  digest of its input, which exceptions escape, and that the digest identifies the payload up to
  the order of its keys. What the callers of a policy evaluator rely on is the locale
  \<open>policy_evaluator\<close>, interpreted on the client.
\<close>

section \<open>The client\<close>

definition REASON_ALLOWED :: string where
  "REASON_ALLOWED = ''ALLOWED''"

definition REASON_DENIED :: string where
  "REASON_DENIED = ''DENIED''"

definition REASON_POLICY_UNAVAILABLE :: string where
  "REASON_POLICY_UNAVAILABLE = ''POLICY_UNAVAILABLE''"

definition REASON_POLICY_MALFORMED :: string where
  "REASON_POLICY_MALFORMED = ''POLICY_MALFORMED''"

record policy_result =
  pr_allow :: bool
  pr_reason_codes :: "string list"
  pr_bundle_version :: string
  pr_input_digest :: string

record policy_client =
  pc_base_url :: string
  pc_bundle_version :: string

record http_request =
  req_url :: string
  req_body :: string
  req_headers :: "string dict"
  req_method :: string

datatype http_outcome = HttpBody string | HttpUnavailable | HttpRaise py_error

definition new_policy_client :: "string \<Rightarrow> string \<Rightarrow> policy_client" where
  "new_policy_client base_url bundle_version =
     \<lparr>pc_base_url = rstrip_char CHR ''/'' base_url, pc_bundle_version = bundle_version\<rparr>"

definition compute_input_digest :: "pydict \<Rightarrow> string result" where
  "compute_input_digest payload =
     bindR (dumps opts_canonical (PDict payload)) (\<lambda>canonical.
     bindR (encode_utf8 canonical) (\<lambda>raw. Inr (sha256_hex raw)))"

definition decision_path :: "string \<Rightarrow> string" where
  "decision_path point = ''v1/data/sdlc/'' @ replace_char CHR ''-'' CHR ''_'' point @ ''/decision''"

definition build_request :: "policy_client \<Rightarrow> string \<Rightarrow> pydict \<Rightarrow> http_request result" where
  "build_request client point payload =
     bindR (dumps opts_default (PDict [(''input'', PDict payload)])) (\<lambda>text.
     bindR (encode_utf8 text) (\<lambda>body.
       Inr \<lparr>req_url = pc_base_url client @ ''/'' @ decision_path point, req_body = body,
            req_headers = [(''Content-Type'', ''application/json'')], req_method = ''POST''\<rparr>))"

definition fail_closed :: "policy_client \<Rightarrow> string \<Rightarrow> string \<Rightarrow> policy_result" where
  "fail_closed client why digest =
     \<lparr>pr_allow = False, pr_reason_codes = [why], pr_bundle_version = pc_bundle_version client,
      pr_input_digest = digest\<rparr>"

text \<open>The reason codes of an answer: its own if it is a non-empty list of strings.\<close>

fun str_of :: "pyval \<Rightarrow> string" where
  "str_of (PStr s) = s"
| "str_of _ = []"

definition answer_codes :: "bool \<Rightarrow> pyval option \<Rightarrow> string list" where
  "answer_codes allow codes =
     (case codes of
        Some (PList (x # xs)) \<Rightarrow>
          (if list_all is_str (x # xs) then map str_of (x # xs)
           else [if allow then REASON_ALLOWED else REASON_DENIED])
      | _ \<Rightarrow> [if allow then REASON_ALLOWED else REASON_DENIED])"

definition parse :: "policy_client \<Rightarrow> string \<Rightarrow> string \<Rightarrow> policy_result result" where
  "parse client raw digest =
     (case json_loads_bytes raw of
        Inl e \<Rightarrow> (if e = JSONDecodeError then Inr (fail_closed client REASON_POLICY_MALFORMED digest) else Inl e)
      | Inr (PDict body) \<Rightarrow>
          (case dget body ''result'' of
             None \<Rightarrow> Inr (fail_closed client REASON_POLICY_MALFORMED digest)
           | Some (PBool b) \<Rightarrow>
               Inr \<lparr>pr_allow = b, pr_reason_codes = [if b then REASON_ALLOWED else REASON_DENIED],
                    pr_bundle_version = pc_bundle_version client, pr_input_digest = digest\<rparr>
           | Some (PDict res) \<Rightarrow>
               (case dget res ''allow'' of
                  Some (PBool allow) \<Rightarrow>
                    Inr \<lparr>pr_allow = allow, pr_reason_codes = answer_codes allow (dget res ''reason_codes''),
                         pr_bundle_version = pc_bundle_version client, pr_input_digest = digest\<rparr>
                | _ \<Rightarrow> Inr (fail_closed client REASON_POLICY_MALFORMED digest))
           | Some _ \<Rightarrow> Inr (fail_closed client REASON_POLICY_MALFORMED digest))
      | Inr _ \<Rightarrow> Inr (fail_closed client REASON_POLICY_MALFORMED digest))"

definition evaluate :: "(http_request \<Rightarrow> http_outcome) \<Rightarrow> policy_client \<Rightarrow> string \<Rightarrow> pydict \<Rightarrow> policy_result result" where
  "evaluate urlopen client point payload =
     bindR (compute_input_digest payload) (\<lambda>digest.
     bindR (build_request client point payload) (\<lambda>request.
       case urlopen request of
         HttpUnavailable \<Rightarrow> Inr (fail_closed client REASON_POLICY_UNAVAILABLE digest)
       | HttpRaise e \<Rightarrow> Inl e
       | HttpBody raw \<Rightarrow> parse client raw digest))"

section \<open>Decision documents\<close>

definition build_policy_decision ::
    "policy_result \<Rightarrow> string \<Rightarrow> string \<Rightarrow> pydict \<Rightarrow> string \<Rightarrow> string \<Rightarrow> pydict list \<Rightarrow> pydict" where
  "build_policy_decision result artifact_id created_at actor run_id point links =
     (let document =
        [(''schema_version'', PStr ''1.0.0''), (''artifact_type'', PStr ''policy-decision''),
         (''id'', PStr artifact_id), (''created_at'', PStr created_at), (''actor'', PDict actor),
         (''run_id'', PStr run_id), (''point'', PStr point),
         (''decision'', PStr (if pr_allow result then ''allow'' else ''deny'')),
         (''reason_codes'', PList (map PStr (pr_reason_codes result))),
         (''policy_bundle_version'', PStr (pr_bundle_version result)),
         (''input_digest'', PStr (pr_input_digest result))]
      in if links = [] then document else dset ''links'' (PList (map PDict links)) document)"

definition TRANSITION_POINT :: string where
  "TRANSITION_POINT = ''artifact-transition''"

definition build_transition_input ::
    "string \<Rightarrow> string \<Rightarrow> string \<Rightarrow> pydict \<Rightarrow> string option \<Rightarrow> pydict list \<Rightarrow> pydict list \<Rightarrow> pydict" where
  "build_transition_input artifact_type from_status to_status actor now findings waivers =
     (let p0 = [(''artifact_type'', PStr artifact_type), (''from_status'', PStr from_status),
                (''to_status'', PStr to_status), (''actor'', PDict actor)];
          p1 = (case now of None \<Rightarrow> p0 | Some t \<Rightarrow> dset ''now'' (PStr t) p0);
          p2 = (if findings = [] then p1 else dset ''findings'' (PList (map PDict findings)) p1)
      in if waivers = [] then p2 else dset ''waivers'' (PList (map PDict waivers)) p2)"

text \<open>The evaluators of the two gates take any policy evaluator.\<close>

type_synonym evaluator = "string \<Rightarrow> pydict \<Rightarrow> policy_result result"

definition evaluate_transition ::
    "evaluator \<Rightarrow> string \<Rightarrow> string \<Rightarrow> string \<Rightarrow> pydict \<Rightarrow> string option \<Rightarrow> pydict list \<Rightarrow> pydict list
     \<Rightarrow> policy_result result" where
  "evaluate_transition policy artifact_type from_status to_status actor now findings waivers =
     policy TRANSITION_POINT
       (build_transition_input artifact_type from_status to_status actor now findings waivers)"

definition build_transition_decision ::
    "policy_result \<Rightarrow> string \<Rightarrow> string \<Rightarrow> pydict \<Rightarrow> string \<Rightarrow> pydict list \<Rightarrow> pydict" where
  "build_transition_decision result artifact_id created_at actor run_id links =
     build_policy_decision result artifact_id created_at actor run_id TRANSITION_POINT links"

definition DEPLOYMENT_POINT :: string where
  "DEPLOYMENT_POINT = ''pre-deployment''"

text \<open>A release candidate's fields are passed on as they were read, so their types are checked here
  only by what \<open>dict\<close> and the comprehensions accept.\<close>

definition dicts :: "pyval \<Rightarrow> pyval result" where
  "dicts v = bindR (val_iter v) (\<lambda>items. bindR (mapR val_dict items) (\<lambda>ds. Inr (PList (map PDict ds))))"

definition build_deployment_input ::
    "pyval \<Rightarrow> pyval \<Rightarrow> pyval \<Rightarrow> pyval \<Rightarrow> pyval \<Rightarrow> pyval \<Rightarrow> pyval \<Rightarrow> pydict result" where
  "build_deployment_input img signature sbom provenance policy_decisions required_approver_role approvals =
     bindR (val_dict signature) (\<lambda>signature'. bindR (val_dict sbom) (\<lambda>sbom'.
     bindR (val_dict provenance) (\<lambda>provenance'. bindR (dicts policy_decisions) (\<lambda>decisions.
     bindR (dicts approvals) (\<lambda>approvals'.
       Inr [(''image'', img), (''signature'', PDict signature'), (''sbom'', PDict sbom'),
            (''provenance'', PDict provenance'), (''policy_decisions'', decisions),
            (''required_approver_role'', required_approver_role), (''approvals'', approvals')])))))"

definition evaluate_deployment ::
    "evaluator \<Rightarrow> pyval \<Rightarrow> pyval \<Rightarrow> pyval \<Rightarrow> pyval \<Rightarrow> pyval \<Rightarrow> pyval \<Rightarrow> pyval \<Rightarrow> policy_result result" where
  "evaluate_deployment policy img signature sbom provenance policy_decisions required_approver_role approvals =
     bindR (build_deployment_input img signature sbom provenance policy_decisions required_approver_role approvals)
       (policy DEPLOYMENT_POINT)"

definition build_deployment_decision ::
    "policy_result \<Rightarrow> string \<Rightarrow> string \<Rightarrow> pydict \<Rightarrow> string \<Rightarrow> pydict list \<Rightarrow> pydict" where
  "build_deployment_decision result artifact_id created_at actor run_id links =
     build_policy_decision result artifact_id created_at actor run_id DEPLOYMENT_POINT links"

section \<open>What a policy evaluator promises\<close>

text \<open>
  The contract that the executor and the two gates rely on: a result always has a first reason
  code and carries the digest of the payload it was asked about.
\<close>

locale policy_evaluator =
  fixes ev :: evaluator
  assumes ev_codes: "ev point payload = Inr r \<Longrightarrow> pr_reason_codes r \<noteq> []"
    and ev_digest: "ev point payload = Inr r \<Longrightarrow> compute_input_digest payload = Inr (pr_input_digest r)"
begin

lemma decision_records_result:
  assumes "ev point payload = Inr r"
  shows "dget (build_policy_decision r i t a rid point links) ''input_digest'' = Some (PStr d)
     \<longleftrightarrow> compute_input_digest payload = Inr d"
    and "dget (build_policy_decision r i t a rid point links) ''reason_codes'' \<noteq> Some (PList [])"
  using ev_digest [OF assms] ev_codes [OF assms]
  by (auto simp: build_policy_decision_def Let_def)

lemma transition_decision:
  assumes "evaluate_transition ev ty st st' a now fs ws = Inr r"
  shows "\<exists>d. compute_input_digest (build_transition_input ty st st' a now fs ws) = Inr d
     \<and> dget (build_transition_decision r i t a rid links) ''input_digest'' = Some (PStr d)"
  using ev_digest [OF assms [unfolded evaluate_transition_def]]
  by (simp add: build_transition_decision_def build_policy_decision_def Let_def)

lemma deployment_decision:
  assumes "evaluate_deployment ev img sg sb pv ds role aps = Inr r"
  shows "\<exists>payload d. build_deployment_input img sg sb pv ds role aps = Inr payload \<and> compute_input_digest payload = Inr d
     \<and> dget (build_deployment_decision r i t a rid links) ''input_digest'' = Some (PStr d)
     \<and> ev DEPLOYMENT_POINT payload = Inr r \<and> pr_reason_codes r \<noteq> []"
proof -
  from assms obtain payload where p: "build_deployment_input img sg sb pv ds role aps = Inr payload"
      "ev DEPLOYMENT_POINT payload = Inr r"
    unfolding evaluate_deployment_def bindR_eq_Inr by blast
  then show ?thesis using ev_digest [OF p(2)] ev_codes [OF p(2)]
    by (simp add: build_deployment_decision_def build_policy_decision_def Let_def)
qed

end

lemma answer_codes_ne: "answer_codes allow codes \<noteq> []"
  by (auto simp: answer_codes_def split: option.splits pyval.splits list.splits)

lemma parse_result:
  "parse client raw digest = Inr r \<Longrightarrow>
     pr_reason_codes r \<noteq> [] \<and> pr_input_digest r = digest \<and> pr_bundle_version r = pc_bundle_version client"
  by (auto simp: parse_def fail_closed_def answer_codes_ne
      split: sum.splits pyval.splits option.splits if_splits)

lemma evaluate_Inr_cases:
  assumes "evaluate urlopen client point payload = Inr r"
  obtains (unavailable) digest request where "compute_input_digest payload = Inr digest"
      "build_request client point payload = Inr request" "urlopen request = HttpUnavailable"
      "r = fail_closed client REASON_POLICY_UNAVAILABLE digest"
  | (answered) digest request raw where "compute_input_digest payload = Inr digest"
      "build_request client point payload = Inr request" "urlopen request = HttpBody raw"
      "parse client raw digest = Inr r"
proof -
  from assms obtain digest request where "compute_input_digest payload = Inr digest"
      "build_request client point payload = Inr request"
      "(case urlopen request of HttpUnavailable \<Rightarrow> Inr (fail_closed client REASON_POLICY_UNAVAILABLE digest)
         | HttpRaise e \<Rightarrow> Inl e | HttpBody raw \<Rightarrow> parse client raw digest) = Inr r"
    unfolding evaluate_def bindR_eq_Inr by blast
  then show ?thesis using that by (cases "urlopen request") auto
qed

lemma evaluate_result:
  assumes "evaluate urlopen client point payload = Inr r"
  shows "pr_reason_codes r \<noteq> [] \<and> compute_input_digest payload = Inr (pr_input_digest r)
     \<and> pr_bundle_version r = pc_bundle_version client"
  using assms by (cases rule: evaluate_Inr_cases) (auto simp: fail_closed_def dest: parse_result)

interpretation client: policy_evaluator "evaluate urlopen c"
  for urlopen :: "http_request \<Rightarrow> http_outcome" and c :: policy_client
  by unfold_locales (simp_all add: evaluate_result)

text \<open>The bodies with which the service allows.\<close>

definition allows :: "pyval \<Rightarrow> bool" where
  "allows body = (case body of
      PDict d \<Rightarrow>
        (case dget d ''result'' of
           Some (PBool b) \<Rightarrow> b
         | Some (PDict res) \<Rightarrow> dget res ''allow'' = Some (PBool True)
         | _ \<Rightarrow> False)
    | _ \<Rightarrow> False)"

lemma parse_allow:
  "(\<exists>r. parse client raw digest = Inr r \<and> pr_allow r)
     \<longleftrightarrow> (\<exists>body. json_loads_bytes raw = Inr body \<and> allows body)"
  by (auto simp: parse_def allows_def fail_closed_def split: sum.splits pyval.splits option.splits if_splits)

text \<open>
  C7: the client reports an allow exactly when the payload could be serialised and the service
  answered with a JSON object whose \<open>result\<close> is \<open>true\<close> or an object with \<open>allow: true\<close>; there is
  no other way to an allow, in particular none through a failure of the transport.
\<close>

theorem policy_allow_characterised:
  "(\<exists>r. evaluate urlopen client point payload = Inr r \<and> pr_allow r) \<longleftrightarrow>
     (\<exists>digest request raw body. compute_input_digest payload = Inr digest
        \<and> build_request client point payload = Inr request
        \<and> urlopen request = HttpBody raw \<and> json_loads_bytes raw = Inr body \<and> allows body)"
  (is "?L \<longleftrightarrow> ?R")
proof
  assume ?L
  then obtain r where "evaluate urlopen client point payload = Inr r" "pr_allow r" by blast
  then show ?R
    by (cases rule: evaluate_Inr_cases) (use parse_allow in \<open>fastforce simp: fail_closed_def\<close>)+
next
  assume ?R
  then obtain digest request raw where *: "compute_input_digest payload = Inr digest"
      "build_request client point payload = Inr request" "urlopen request = HttpBody raw"
      "\<exists>body. json_loads_bytes raw = Inr body \<and> allows body"
    by blast
  from *(4) obtain r where "parse client raw digest = Inr r" "pr_allow r"
    using parse_allow [of client raw digest] by blast
  with * show ?L by (simp add: evaluate_def)
qed

text \<open>
  Every result of the client has at least one reason code, names the client's bundle
  version, and its digest is the digest of the payload that was asked about, so the decision
  document built from it can be checked against the payload.
\<close>

theorem policy_result_complete:
  assumes "evaluate urlopen client point payload = Inr r"
  shows "pr_reason_codes r \<noteq> [] \<and> pr_bundle_version r = pc_bundle_version client
    \<and> compute_input_digest payload = Inr (pr_input_digest r)
    \<and> dget (build_policy_decision r i t a rid point links) ''input_digest'' = Some (PStr (pr_input_digest r))
    \<and> dget (build_policy_decision r i t a rid point links) ''decision''
       = Some (PStr (if pr_allow r then ''allow'' else ''deny''))"
  using evaluate_result [OF assms] by (simp_all add: build_policy_decision_def Let_def)

definition demo_client :: policy_client where
  "demo_client = new_policy_client ''http://opa/'' ''b1''"

lemma demo_digest: "compute_input_digest [] = Inr (sha256_hex ''{}'')"
  by (simp add: compute_input_digest_def dumps_def dump_members_def encode_utf8_ascii)

lemma demo_request: "\<exists>request. build_request demo_client ''pre-tool-call'' [] = Inr request"
  by (simp add: build_request_def dumps_def dump_members_def encode_utf8_ascii esc_str_def
      opts_default_def py_chars_ascii esc_char_ascii_def esc_byte_def key_sep_def item_sep_def)

text \<open>An answer of the service that allows.\<close>

definition demo_allow :: string where
  "demo_allow = json_dumps opts_default (PDict [(''result'', PBool True)])"

lemma demo_allow_parsed: "json_loads_bytes demo_allow = Inr (PDict [(''result'', PBool True)])"
  unfolding demo_allow_def
  by (subst json_loads_bytes_dumps)
    (simp_all add: opts_default_def canon_def dict_wf_def str_ok_def valid_str_ascii no_surrogate_ascii)

lemma demo_evaluate:
  "\<exists>r. evaluate (\<lambda>_. HttpBody demo_allow) demo_client ''pre-tool-call'' [] = Inr r \<and> pr_allow r"
  using demo_request by (auto simp: evaluate_def demo_digest parse_def demo_allow_parsed)

theorem policy_result_complete_witness:
  "\<exists>r. evaluate (\<lambda>_. HttpBody demo_allow) demo_client ''pre-tool-call'' [] = Inr r
     \<and> pr_bundle_version r = ''b1'' \<and> Inr (pr_input_digest r) = compute_input_digest []"
proof -
  obtain r where r: "evaluate (\<lambda>_. HttpBody demo_allow) demo_client ''pre-tool-call'' [] = Inr r"
    using demo_evaluate by blast
  have "pc_bundle_version demo_client = ''b1''" by (simp add: demo_client_def new_policy_client_def)
  with r policy_result_complete [OF r] show ?thesis by (intro exI [of _ r]) simp
qed

section \<open>Errors\<close>

text \<open>
  With a payload that can be serialised, the client raises exactly when the transport raises
  something other than a URL, OS or timeout error, or when the body cannot be read for a reason
  that is not a \<open>JSONDecodeError\<close>: it is not text in the encoding its first bytes announce, or it
  holds an integer beyond the interpreter's digit limit. These answers are not turned into a deny.
\<close>

theorem policy_client_raises:
  assumes "compute_input_digest payload = Inr digest" "build_request client point payload = Inr request"
  shows "evaluate urlopen client point payload = Inl e \<longleftrightarrow>
     urlopen request = HttpRaise e
     \<or> (\<exists>raw. urlopen request = HttpBody raw \<and> json_loads_bytes raw = Inl e \<and> e \<noteq> JSONDecodeError)"
  using assms
  by (auto simp: evaluate_def parse_def split: http_outcome.splits sum.splits pyval.splits option.splits)

theorem policy_client_raises_witness:
  "evaluate (\<lambda>_. HttpBody [CHR 0xFF]) demo_client ''pre-tool-call'' [] = Inl UnicodeDecodeError"
proof -
  obtain request where "build_request demo_client ''pre-tool-call'' [] = Inr request" using demo_request by blast
  moreover have "json_loads_bytes [CHR 0xFF] = Inl UnicodeDecodeError" by code_simp
  ultimately show ?thesis using policy_client_raises [OF demo_digest] by simp
qed

section \<open>The input digest\<close>

lemma json_dumps_canonical: "json_dumps opts_canonical v = json_dumps (unsorted opts_canonical) (sort_val v)"
  using dumps_sorted(1) by (simp add: opts_canonical_def)

text \<open>
  The digest depends only on the content of the payload and not on the order in which its
  keys were inserted, at any depth; and two payloads (without floats) with the same canonical text have the
  same content, so equal digests of different payloads would be a collision of SHA-256.
\<close>

theorem input_digest_canonical:
  assumes "printable opts_canonical (PDict p)" "printable opts_canonical (PDict q)"
  shows "(sort_val (PDict p) = sort_val (PDict q) \<longrightarrow> compute_input_digest p = compute_input_digest q)
    \<and> (json_dumps opts_canonical (PDict p) = json_dumps opts_canonical (PDict q)
           \<longleftrightarrow> sort_val (PDict p) = sort_val (PDict q))"
proof (intro conjI impI iffI)
  have d: "dumps opts_canonical (PDict p) = Inr (json_dumps (unsorted opts_canonical) (sort_val (PDict p)))"
      "dumps opts_canonical (PDict q) = Inr (json_dumps (unsorted opts_canonical) (sort_val (PDict q)))"
    using assms [THEN printable_ints_ok(1)] by (simp_all only: dumps_def if_True json_dumps_canonical)
  show "compute_input_digest p = compute_input_digest q"
      "json_dumps opts_canonical (PDict p) = json_dumps opts_canonical (PDict q)"
    if "sort_val (PDict p) = sort_val (PDict q)"
    using d that by (simp_all only: compute_input_digest_def json_dumps_canonical)
  show "sort_val (PDict p) = sort_val (PDict q)"
    if "json_dumps opts_canonical (PDict p) = json_dumps opts_canonical (PDict q)"
  proof -
    have "canon opts_canonical (PDict p) = canon opts_canonical (PDict q)"
      using json_roundtrip [OF assms(1)] json_roundtrip [OF assms(2)] that by (metis Inr_inject)
    then show ?thesis by (simp only: canon_def opts_canonical_def dump_opts.simps if_True)
  qed
qed

theorem input_digest_canonical_witness:
  "compute_input_digest [(''tool'', PStr ''fs''), (''path'', PStr ''a'')]
     = compute_input_digest [(''path'', PStr ''a''), (''tool'', PStr ''fs'')]"
proof -
  have "printable opts_canonical (PDict [(''tool'', PStr ''fs''), (''path'', PStr ''a'')])"
      "printable opts_canonical (PDict [(''path'', PStr ''a''), (''tool'', PStr ''fs'')])"
    by (simp_all add: opts_canonical_def str_ok_def dict_wf_def)
  moreover have "sort_val (PDict [(''tool'', PStr ''fs''), (''path'', PStr ''a'')])
      = sort_val (PDict [(''path'', PStr ''a''), (''tool'', PStr ''fs'')])"
    by (simp add: less_char_def)
  ultimately show ?thesis using input_digest_canonical by blast
qed

end
