(* ===== verification/DateTime.thy ===== *)
theory DateTime
  imports PyString
begin

text \<open>
  The part of the standard library's \<open>datetime\<close> module that the waiver rules use:
  \<open>datetime.fromisoformat\<close> with the calendar arithmetic below it, and the comparison of moments.

  A moment is its local time in microseconds since the day before 1 January of year 1, with the
  offset of its time zone, if it has one. The reader follows the interpreter's
  implementation: only ASCII digits, and a separator after the date must be followed by a time.
  Every failure is a \<open>ValueError\<close>.
\<close>

section \<open>Calendar\<close>

definition is_leap :: "nat \<Rightarrow> bool" where
  "is_leap y \<longleftrightarrow> y mod 4 = 0 \<and> (y mod 100 \<noteq> 0 \<or> y mod 400 = 0)"

definition days_before_year :: "nat \<Rightarrow> nat" where
  "days_before_year year = (let y = year - 1 in y * 365 + y div 4 - y div 100 + y div 400)"

definition month_lengths :: "nat \<Rightarrow> nat list" where
  "month_lengths y = [31, if is_leap y then 29 else 28, 31, 30, 31, 30, 31, 31, 30, 31, 30, 31]"

text \<open>The ordinal of a date, if it is one: 1 January of year 1 is day 1.\<close>

definition ymd2ord :: "nat \<Rightarrow> nat \<Rightarrow> nat \<Rightarrow> nat option" where
  "ymd2ord y m d =
     (if 1 \<le> y \<and> y \<le> 9999 \<and> 1 \<le> m \<and> m \<le> 12 \<and> 1 \<le> d \<and> d \<le> month_lengths y ! (m - 1)
      then Some (days_before_year y + sum_list (take (m - 1) (month_lengths y)) + d) else None)"

definition max_ordinal :: nat where
  "max_ordinal = 3652059"

text \<open>The Monday of the first ISO week, and a day given by week and weekday.\<close>

definition isoweek1monday :: "nat \<Rightarrow> int" where
  "isoweek1monday y =
     (let firstday = int (days_before_year y) + 1;
          firstweekday = (firstday + 6) mod 7;
          monday = firstday - firstweekday
      in if firstweekday > 3 then monday + 7 else monday)"

definition isoweek2ord :: "nat \<Rightarrow> nat \<Rightarrow> nat \<Rightarrow> nat option" where
  "isoweek2ord y w d =
     (let first = (days_before_year y + 1) mod 7;
          long = (first = 4 \<or> first = 3 \<and> is_leap y);
          n = isoweek1monday y + (int w - 1) * 7 + (int d - 1)
      in if 1 \<le> y \<and> y \<le> 9999 \<and> (1 \<le> w \<and> w \<le> 52 \<or> w = 53 \<and> long) \<and> 1 \<le> d \<and> d \<le> 7
            \<and> 1 \<le> n \<and> n \<le> int max_ordinal
         then Some (nat n) else None)"

section \<open>Moments\<close>

record datetime =
  dt_local :: int
  dt_offset :: "int option"

definition micros_per_second :: int where
  "micros_per_second = 1000000"

definition micros_per_day :: int where
  "micros_per_day = 86400 * micros_per_second"

text \<open>The position of an aware moment on the UTC time line.\<close>

definition instant :: "datetime \<Rightarrow> int" where
  "instant t = dt_local t - (case dt_offset t of None \<Rightarrow> 0 | Some off \<Rightarrow> off)"

definition replace_utc :: "datetime \<Rightarrow> datetime" where
  "replace_utc t = t\<lparr>dt_offset := Some 0\<rparr>"

section \<open>Reading ISO 8601\<close>

definition parse_digits :: "nat \<Rightarrow> string \<Rightarrow> (nat \<times> string) option" where
  "parse_digits n s =
     (if n \<le> length s \<and> list_all is_digit (take n s) then Some (read_nat (take n s), drop n s) else None)"

text \<open>Where the date ends: the lengths of the calendar and the week formats.\<close>

definition find_separator :: "string \<Rightarrow> nat option" where
  "find_separator s =
     (if length s = 7 then Some 7
      else if s ! 4 = CHR ''-'' then
        (if s ! 5 = CHR ''W'' then
           (if length s > 8 \<and> s ! 8 = CHR ''-'' then
              (if length s = 9 then None
               else if length s > 10 \<and> is_digit (s ! 10) then Some 8 else Some 10)
            else Some 8)
         else Some 10)
      else if s ! 4 = CHR ''W'' then
        (let idx = 7 + length (takeWhile is_digit (drop 7 s))
         in Some (if idx < 9 then idx else if even idx then 7 else 8))
      else Some 8)"

definition parse_date :: "string \<Rightarrow> nat option" where
  "parse_date s =
     (case parse_digits 4 s of
        None \<Rightarrow> None
      | Some (y, r) \<Rightarrow>
          (let sep = (take 1 r = ''-''); r = (if sep then drop 1 r else r)
           in if take 1 r = ''W'' then
                (case parse_digits 2 (drop 1 r) of
                   None \<Rightarrow> None
                 | Some (w, q) \<Rightarrow>
                     (if q = [] then isoweek2ord y w 1
                      else if (take 1 q = ''-'') \<noteq> sep then None
                      else (case parse_digits 1 (if sep then drop 1 q else q) of
                              Some (d, []) \<Rightarrow> isoweek2ord y w d
                            | _ \<Rightarrow> None)))
              else
                (case parse_digits 2 r of
                   None \<Rightarrow> None
                 | Some (m, q) \<Rightarrow>
                     (if (take 1 q = ''-'') \<noteq> sep then None
                      else (case parse_digits 2 (if sep then drop 1 q else q) of
                              Some (d, []) \<Rightarrow> ymd2ord y m d
                            | _ \<Rightarrow> None)))))"

text \<open>
  The fraction of a second in microseconds: six digits count, further digits are dropped, and
  the flag tells whether other text follows them.
\<close>

definition parse_fraction :: "string \<Rightarrow> (nat \<times> bool) option" where
  "parse_fraction s =
     (let ds = take 6 s
      in if s = [] \<or> \<not> list_all is_digit ds then None
         else Some (read_nat ds * 10 ^ (6 - length ds), dropWhile is_digit (drop 6 s) \<noteq> []))"

text \<open>
  \<open>HH[:?MM[:?SS[{.,}f+]]]\<close>: the components still to come (\<open>k\<close> of them after this one), whether
  colons separate them (decided by the first separator), and the text. The result is the
  components with the microseconds and the flag that text is left over. A single left-over
  character ends the scan wherever it stands.
\<close>

fun parse_comps :: "nat \<Rightarrow> bool option \<Rightarrow> string \<Rightarrow> (nat list \<times> bool) option" where
  "parse_comps k sep s =
     (case parse_digits 2 s of
        None \<Rightarrow> None
      | Some (n, []) \<Rightarrow> Some (n # replicate (Suc k) 0, False)
      | Some (n, c # r) \<Rightarrow>
          (let colon = (case sep of None \<Rightarrow> c = CHR '':'' | Some b \<Rightarrow> b);
               finish = (\<lambda>t. map_option (\<lambda>(f, extra). (n # replicate k 0 @ [f], extra)) (parse_fraction t));
               go = (\<lambda>t. case k of
                  0 \<Rightarrow> finish t
                | Suc k' \<Rightarrow> map_option (\<lambda>(ns, extra). (n # ns, extra)) (parse_comps k' (Some colon) t))
           in if r = [] then Some (n # replicate (Suc k) 0, True)
              else if colon \<and> c = CHR '':'' then go r
              else if c = CHR ''.'' \<or> c = CHR '','' then finish r
              else if \<not> colon then go (c # r)
              else None))"

declare parse_comps.simps [simp del]

definition parse_hms :: "string \<Rightarrow> (nat list \<times> bool) option" where
  "parse_hms s = parse_comps 2 None s"

definition micros_of :: "nat list \<Rightarrow> int" where
  "micros_of cs = (case cs of
      [h, m, s, f] \<Rightarrow> ((int h * 60 + int m) * 60 + int s) * micros_per_second + int f
    | _ \<Rightarrow> 0)"

definition valid_time :: "nat list \<Rightarrow> bool" where
  "valid_time cs \<longleftrightarrow> (case cs of [h, m, s, f] \<Rightarrow> h \<le> 23 \<and> m \<le> 59 \<and> s \<le> 59 | _ \<Rightarrow> False)"

text \<open>The first sign or Z splits off the zone. Left-over text is an error only without a zone.\<close>

definition is_zone_mark :: "char \<Rightarrow> bool" where
  "is_zone_mark c \<longleftrightarrow> c = CHR ''-'' \<or> c = CHR ''+'' \<or> c = CHR ''Z''"

definition parse_time :: "string \<Rightarrow> (int \<times> int option) option" where
  "parse_time s =
     (case (parse_hms (takeWhile (\<lambda>c. \<not> is_zone_mark c) s), dropWhile (\<lambda>c. \<not> is_zone_mark c) s) of
        (None, _) \<Rightarrow> None
      | (Some (cs, extra), []) \<Rightarrow> (if extra \<or> \<not> valid_time cs then None else Some (micros_of cs, None))
      | (Some (cs, extra), z # zone) \<Rightarrow>
          (if \<not> valid_time cs then None
           else if z = CHR ''Z'' then (if zone = [] then Some (micros_of cs, Some 0) else None)
           else (case parse_hms zone of
                   Some (zs, False) \<Rightarrow>
                     (if micros_of zs < micros_per_day
                      then Some (micros_of cs, Some (if z = CHR ''-'' then - micros_of zs else micros_of zs))
                      else None)
                 | _ \<Rightarrow> None)))"

text \<open>The character that separates the date from the time may be any, of any width.\<close>

definition fromisoformat :: "string \<Rightarrow> datetime result" where
  "fromisoformat text =
     (let s = text;
          parsed =
            (if length s < 7 then None
             else
               (case find_separator s of
                  None \<Rightarrow> None
                | Some n \<Rightarrow>
                    (case parse_date (take n s) of
                       None \<Rightarrow> None
                     | Some day \<Rightarrow>
                         (let t = dropWhile is_cont (drop (n + 1) s); at = (\<lambda>us off. \<lparr>dt_local = int day * micros_per_day + us, dt_offset = off\<rparr>)
                          in if length s \<le> n then Some (at 0 None)
                             else map_option (\<lambda>(us, off). at us off) (parse_time t)))))
      in case parsed of None \<Rightarrow> Inl (ValueError []) | Some t \<Rightarrow> Inr t)"

lemma fromisoformat_error: "fromisoformat s = Inl e \<Longrightarrow> e = ValueError []"
  by (auto simp: fromisoformat_def Let_def split: option.splits if_splits)

end
