(* ===== verification/Waiver.thy ===== *)
theory Waiver
  imports PyValue DateTime
begin

text \<open>
  The waiver rules for security findings (\<open>waiver/enforcement.py\<close>): which findings block a merge or
  a deployment, and when a human-approved waiver lifts the block of a medium one.

  Waivers are dictionaries of unknown shape, so every access has the outcome the interpreter gives
  it; the only exception that escapes is the \<open>AttributeError\<close> of a party that is not an object.
  The predicate \<open>in_force\<close> is the rule as the documentation states it, and the lemmas show that the
  code decides exactly this rule, that time alone never lifts a block, and that nothing but a
  waiver in force unblocks a medium finding.
\<close>

section \<open>Model\<close>

definition SEVERITY_CRITICAL :: string where "SEVERITY_CRITICAL = ''critical''"
definition SEVERITY_HIGH :: string where "SEVERITY_HIGH = ''high''"
definition SEVERITY_MEDIUM :: string where "SEVERITY_MEDIUM = ''medium''"
definition SEVERITY_LOW :: string where "SEVERITY_LOW = ''low''"
definition SECURITY_REVIEWER_ROLE :: string where "SECURITY_REVIEWER_ROLE = ''security-reviewer''"

definition REASON_AGENT_MAY_NOT_CREATE :: string where "REASON_AGENT_MAY_NOT_CREATE = ''AGENT_MAY_NOT_CREATE''"
definition REASON_AGENT_MAY_NOT_APPROVE :: string where "REASON_AGENT_MAY_NOT_APPROVE = ''AGENT_MAY_NOT_APPROVE''"
definition REASON_APPROVER_NOT_SECURITY_REVIEWER :: string where
  "REASON_APPROVER_NOT_SECURITY_REVIEWER = ''APPROVER_NOT_SECURITY_REVIEWER''"
definition REASON_APPROVER_IS_RISK_OWNER :: string where "REASON_APPROVER_IS_RISK_OWNER = ''APPROVER_IS_RISK_OWNER''"
definition REASON_EXPIRES_BEFORE_CREATED :: string where "REASON_EXPIRES_BEFORE_CREATED = ''EXPIRES_BEFORE_CREATED''"
definition REASON_SEVERITY_NOT_WAIVABLE :: string where "REASON_SEVERITY_NOT_WAIVABLE = ''SEVERITY_NOT_WAIVABLE''"
definition REASON_WAIVER_EXPIRED :: string where "REASON_WAIVER_EXPIRED = ''WAIVER_EXPIRED''"
definition REASON_WAIVER_REVOKED :: string where "REASON_WAIVER_REVOKED = ''WAIVER_REVOKED''"
definition REASON_WAIVER_MISSING :: string where "REASON_WAIVER_MISSING = ''WAIVER_MISSING''"
definition REASON_CRITICAL_NEVER_WAIVED :: string where "REASON_CRITICAL_NEVER_WAIVED = ''CRITICAL_NEVER_WAIVED''"
definition REASON_HIGH_NEVER_WAIVED :: string where "REASON_HIGH_NEVER_WAIVED = ''HIGH_NEVER_WAIVED''"
definition REASON_INVALID_WAIVER :: string where "REASON_INVALID_WAIVER = ''INVALID_WAIVER''"

record waiver_check =
  wc_valid :: bool
  wc_state :: string
  wc_reason_codes :: "string list"

record block_decision =
  blocked :: bool
  bd_reason_codes :: "string list"

definition parse_timestamp :: "string \<Rightarrow> datetime result" where
  "parse_timestamp value =
     (let text = strip value;
          text = (if ends_with ''Z'' text then butlast text @ ''+00:00'' else text)
      in bindR (fromisoformat text) (\<lambda>parsed.
           Inr (if dt_offset parsed = None then replace_utc parsed else parsed)))"

definition as_utc :: "datetime \<Rightarrow> datetime" where
  "as_utc moment = (if dt_offset moment = None then replace_utc moment else moment)"

definition is_waivable :: "string \<Rightarrow> bool" where
  "is_waivable severity \<longleftrightarrow> List.member [SEVERITY_MEDIUM] severity"

definition may_manage_waiver :: "pydict \<Rightarrow> bool" where
  "may_manage_waiver actor \<longleftrightarrow> dget_or actor ''type'' PNone = PStr ''human''"

text \<open>\<open>waiver.get(k) or {}\<close>.\<close>

definition party :: "pydict \<Rightarrow> string \<Rightarrow> pyval" where
  "party waiver k = (let v = dget_or waiver k PNone in if truthy v then v else PDict [])"

text \<open>\<open>parse_timestamp(str(waiver[k]))\<close>.\<close>

definition timestamp_field :: "pydict \<Rightarrow> string \<Rightarrow> datetime result" where
  "timestamp_field waiver k = bindR (dindex waiver k) (\<lambda>v. parse_timestamp (py_str v))"

definition time_reasons :: "pydict \<Rightarrow> string list result" where
  "time_reasons waiver =
     (case bindR (timestamp_field waiver ''created_at'') (\<lambda>created.
           bindR (timestamp_field waiver ''expires_at'') (\<lambda>expires. Inr (created, expires))) of
        Inl e \<Rightarrow> (if is_key_error e \<or> is_value_error e then Inr [REASON_INVALID_WAIVER] else Inl e)
      | Inr (created, expires) \<Rightarrow>
          Inr (if instant expires \<le> instant created then [REASON_EXPIRES_BEFORE_CREATED] else []))"

definition validate_waiver :: "pydict \<Rightarrow> string list result" where
  "validate_waiver waiver =
     (let severity_reasons =
            (if \<not> is_waivable (py_str (dget_or waiver ''severity'' (PStr [])))
             then [REASON_SEVERITY_NOT_WAIVABLE] else [])
      in bindR (val_get (party waiver ''created_by'') ''type'' PNone) (\<lambda>creator.
         bindR (val_get (party waiver ''approved_by'') ''type'' PNone) (\<lambda>approver.
         bindR (val_get (party waiver ''approved_by'') ''role'' PNone) (\<lambda>approver_role.
         bindR (if approver_role \<noteq> PStr SECURITY_REVIEWER_ROLE
                then Inr [REASON_APPROVER_NOT_SECURITY_REVIEWER]
                else bindR (val_get (party waiver ''owner'') ''role'' PNone) (\<lambda>owner_role.
                       Inr (if owner_role = PStr SECURITY_REVIEWER_ROLE
                            then [REASON_APPROVER_IS_RISK_OWNER] else []))) (\<lambda>role_reasons.
         bindR (time_reasons waiver) (\<lambda>times.
           Inr (severity_reasons
              @ (if creator \<noteq> PStr ''human'' then [REASON_AGENT_MAY_NOT_CREATE] else [])
              @ (if approver \<noteq> PStr ''human'' then [REASON_AGENT_MAY_NOT_APPROVE] else [])
              @ role_reasons @ times)))))))"

definition waiver_state :: "pydict \<Rightarrow> datetime \<Rightarrow> string result" where
  "waiver_state waiver now =
     (let status = py_str (dget_or waiver ''status'' (PStr ''active''))
      in if status \<noteq> ''active'' then Inr status
         else
           (case timestamp_field waiver ''expires_at'' of
              Inl e \<Rightarrow> (if is_key_error e \<or> is_value_error e then Inr ''invalid'' else Inl e)
            | Inr expires \<Rightarrow>
                Inr (if instant expires \<le> instant (as_utc now) then ''expired'' else ''active'')))"

definition check_waiver :: "pydict \<Rightarrow> datetime \<Rightarrow> waiver_check result" where
  "check_waiver waiver now =
     bindR (validate_waiver waiver) (\<lambda>reasons.
     bindR (waiver_state waiver now) (\<lambda>state.
       let all_reasons = reasons
             @ (if state = ''expired'' then [REASON_WAIVER_EXPIRED]
                else if state = ''revoked'' then [REASON_WAIVER_REVOKED]
                else if state \<noteq> ''active'' then [REASON_INVALID_WAIVER] else [])
       in Inr \<lparr>wc_valid = (all_reasons = []), wc_state = state, wc_reason_codes = all_reasons\<rparr>))"

text \<open>The loop over the matching waivers: the first valid one lifts the block.\<close>

fun try_waivers :: "pydict list \<Rightarrow> datetime \<Rightarrow> string list \<Rightarrow> block_decision result" where
  "try_waivers [] now collected =
     Inr \<lparr>blocked = True, bd_reason_codes = rev (remdups (rev collected))\<rparr>"
| "try_waivers (w # ws) now collected =
     bindR (check_waiver w now) (\<lambda>check.
       if wc_valid check then Inr \<lparr>blocked = False, bd_reason_codes = []\<rparr>
       else try_waivers ws now (collected @ wc_reason_codes check))"

definition matches :: "string \<Rightarrow> pydict \<Rightarrow> bool" where
  "matches risk_id waiver \<longleftrightarrow> py_str (dget_or waiver ''risk_id'' (PStr [])) = risk_id"

definition evaluate_risk :: "string \<Rightarrow> string \<Rightarrow> pydict list \<Rightarrow> datetime \<Rightarrow> block_decision result" where
  "evaluate_risk risk_id severity waivers now =
     (if severity = SEVERITY_CRITICAL
      then Inr \<lparr>blocked = True, bd_reason_codes = [REASON_CRITICAL_NEVER_WAIVED]\<rparr>
      else if severity = SEVERITY_HIGH
      then Inr \<lparr>blocked = True, bd_reason_codes = [REASON_HIGH_NEVER_WAIVED]\<rparr>
      else if severity = SEVERITY_LOW then Inr \<lparr>blocked = False, bd_reason_codes = []\<rparr>
      else if severity \<noteq> SEVERITY_MEDIUM
      then Inr \<lparr>blocked = True, bd_reason_codes = [REASON_SEVERITY_NOT_WAIVABLE]\<rparr>
      else
        let matching = filter (matches risk_id) waivers
        in if matching = [] then Inr \<lparr>blocked = True, bd_reason_codes = [REASON_WAIVER_MISSING]\<rparr>
           else try_waivers matching now [])"

section \<open>The rule as documented\<close>

text \<open>
  A waiver is in force at a moment: it is for a medium finding, was created by a human, approved
  by a human in the role of a security reviewer, while the owner of the risk has another role, has
  readable timestamps with the expiry after the creation, is marked active (which is the default),
  and has not expired. Who the owner and the approver are does not matter: only roles are compared.
\<close>

definition party_val :: "pydict \<Rightarrow> string \<Rightarrow> string \<Rightarrow> pyval" where
  "party_val waiver who k = (case party waiver who of PDict d \<Rightarrow> dget_or d k PNone | _ \<Rightarrow> PNone)"

definition in_force :: "pydict \<Rightarrow> datetime \<Rightarrow> bool" where
  "in_force w now \<longleftrightarrow>
     py_str (dget_or w ''severity'' (PStr [])) = ''medium''
   \<and> party_val w ''created_by'' ''type'' = PStr ''human''
   \<and> party_val w ''approved_by'' ''type'' = PStr ''human''
   \<and> party_val w ''approved_by'' ''role'' = PStr ''security-reviewer''
   \<and> is_dict (party w ''owner'') \<and> party_val w ''owner'' ''role'' \<noteq> PStr ''security-reviewer''
   \<and> py_str (dget_or w ''status'' (PStr ''active'')) = ''active''
   \<and> (\<exists>created expires. timestamp_field w ''created_at'' = Inr created
        \<and> timestamp_field w ''expires_at'' = Inr expires
        \<and> instant created < instant expires \<and> instant (as_utc now) < instant expires)"

text \<open>Whether the parties named by a waiver are objects, as far as the code looks at them.\<close>

definition parties_ok :: "pydict \<Rightarrow> bool" where
  "parties_ok w \<longleftrightarrow> is_dict (party w ''created_by'') \<and> is_dict (party w ''approved_by'')
     \<and> (party_val w ''approved_by'' ''role'' = PStr ''security-reviewer'' \<longrightarrow> is_dict (party w ''owner''))"

section \<open>Correctness\<close>

lemma val_get_party: "val_get (party w who) k PNone =
    (if is_dict (party w who) then Inr (party_val w who k) else Inl AttributeError)"
  by (cases "party w who") (simp_all add: party_val_def)

lemma party_val_dict: "party_val w who k = PStr s \<Longrightarrow> is_dict (party w who)"
  by (auto simp: party_val_def split: pyval.splits)

lemma timestamp_errors: "timestamp_field w k = Inl e \<Longrightarrow> is_key_error e \<or> is_value_error e"
  by (auto simp: timestamp_field_def parse_timestamp_def bindR_eq_Inl dindex_def Let_def
      dest: fromisoformat_error split: option.splits)

lemma time_reasons_eq:
  "time_reasons w = Inr (case (timestamp_field w ''created_at'', timestamp_field w ''expires_at'') of
     (Inr created, Inr expires) \<Rightarrow>
       (if instant expires \<le> instant created then [REASON_EXPIRES_BEFORE_CREATED] else [])
   | _ \<Rightarrow> [REASON_INVALID_WAIVER])"
  using timestamp_errors [of w "''created_at''"] timestamp_errors [of w "''expires_at''"]
  by (cases "timestamp_field w ''created_at''"; cases "timestamp_field w ''expires_at''")
    (auto simp: time_reasons_def)

lemma waiver_state_eq:
  "waiver_state w now = Inr
     (let status = py_str (dget_or w ''status'' (PStr ''active''))
      in if status \<noteq> ''active'' then status
         else (case timestamp_field w ''expires_at'' of
                 Inl _ \<Rightarrow> ''invalid''
               | Inr expires \<Rightarrow> if instant expires \<le> instant (as_utc now) then ''expired'' else ''active''))"
  using timestamp_errors [of w "''expires_at''"]
  by (auto simp: waiver_state_def Let_def split: sum.splits)

lemmas waiver_reasons = REASON_AGENT_MAY_NOT_CREATE_def REASON_AGENT_MAY_NOT_APPROVE_def
  REASON_APPROVER_NOT_SECURITY_REVIEWER_def REASON_APPROVER_IS_RISK_OWNER_def
  REASON_EXPIRES_BEFORE_CREATED_def REASON_SEVERITY_NOT_WAIVABLE_def REASON_WAIVER_EXPIRED_def
  REASON_WAIVER_REVOKED_def REASON_INVALID_WAIVER_def

lemma validate_waiver_eq:
  "validate_waiver w =
     (if \<not> parties_ok w then Inl AttributeError
      else Inr ((if py_str (dget_or w ''severity'' (PStr [])) \<noteq> ''medium'' then [REASON_SEVERITY_NOT_WAIVABLE] else [])
        @ (if party_val w ''created_by'' ''type'' \<noteq> PStr ''human'' then [REASON_AGENT_MAY_NOT_CREATE] else [])
        @ (if party_val w ''approved_by'' ''type'' \<noteq> PStr ''human'' then [REASON_AGENT_MAY_NOT_APPROVE] else [])
        @ (if party_val w ''approved_by'' ''role'' \<noteq> PStr ''security-reviewer''
           then [REASON_APPROVER_NOT_SECURITY_REVIEWER]
           else if party_val w ''owner'' ''role'' = PStr ''security-reviewer''
           then [REASON_APPROVER_IS_RISK_OWNER] else [])
        @ projr (time_reasons w)))"
  by (simp add: validate_waiver_def val_get_party time_reasons_eq parties_ok_def Let_def
      SECURITY_REVIEWER_ROLE_def SEVERITY_MEDIUM_def is_waivable_def)

lemma check_waiver_total: "check_waiver w now = Inl e \<longleftrightarrow> e = AttributeError \<and> \<not> parties_ok w"
  by (auto simp: check_waiver_def validate_waiver_eq waiver_state_eq Let_def)

lemma time_reasons_Nil:
  "projr (time_reasons w) = [] \<longleftrightarrow> (\<exists>created expires. timestamp_field w ''created_at'' = Inr created
     \<and> timestamp_field w ''expires_at'' = Inr expires \<and> instant created < instant expires)"
  by (auto simp: time_reasons_eq not_le split: sum.splits if_splits)

lemma waiver_state_active:
  "waiver_state w now = Inr ''active'' \<longleftrightarrow> py_str (dget_or w ''status'' (PStr ''active'')) = ''active''
     \<and> (\<exists>expires. timestamp_field w ''expires_at'' = Inr expires \<and> instant (as_utc now) < instant expires)"
  by (auto simp: waiver_state_eq Let_def not_le split: sum.splits if_splits)

lemma if_Nil: "(if P then [x] else []) = [] \<longleftrightarrow> \<not> P"
  by simp

lemma validate_waiver_Nil:
  "validate_waiver w = Inr [] \<longleftrightarrow> parties_ok w
     \<and> py_str (dget_or w ''severity'' (PStr [])) = ''medium''
     \<and> party_val w ''created_by'' ''type'' = PStr ''human'' \<and> party_val w ''approved_by'' ''type'' = PStr ''human''
     \<and> party_val w ''approved_by'' ''role'' = PStr ''security-reviewer''
     \<and> party_val w ''owner'' ''role'' \<noteq> PStr ''security-reviewer''
     \<and> projr (time_reasons w) = []"
  by (cases "parties_ok w"; cases "party_val w ''approved_by'' ''role'' = PStr ''security-reviewer''")
    (simp_all add: validate_waiver_eq if_Nil del: if_split)

lemma in_force_iff:
  "in_force w now \<longleftrightarrow> validate_waiver w = Inr [] \<and> waiver_state w now = Inr ''active''"
  unfolding in_force_def validate_waiver_Nil waiver_state_active time_reasons_Nil parties_ok_def
  by (auto dest: party_val_dict)

lemma check_waiver_valid_iff:
  "check_waiver w now = Inr c \<Longrightarrow> wc_valid c \<longleftrightarrow> in_force w now"
proof -
  assume "check_waiver w now = Inr c"
  then obtain rs st where "validate_waiver w = Inr rs" "waiver_state w now = Inr st"
      "c = (let all_reasons = rs @ (if st = ''expired'' then [REASON_WAIVER_EXPIRED]
                else if st = ''revoked'' then [REASON_WAIVER_REVOKED]
                else if st \<noteq> ''active'' then [REASON_INVALID_WAIVER] else [])
       in \<lparr>wc_valid = (all_reasons = []), wc_state = st, wc_reason_codes = all_reasons\<rparr>)"
    unfolding check_waiver_def bindR_eq_Inr Let_def by blast
  then show ?thesis by (simp add: in_force_iff Let_def)
qed

lemma in_force_parties: "in_force w now \<Longrightarrow> parties_ok w"
  by (auto simp: in_force_def parties_ok_def dest: party_val_dict)

lemma try_waivers_blocked:
  "try_waivers ws now collected = Inr d \<Longrightarrow> \<not> blocked d \<longleftrightarrow> (\<exists>w \<in> set ws. in_force w now)"
proof (induction ws arbitrary: collected)
  case (Cons w ws)
  then obtain c where c: "check_waiver w now = Inr c" by (auto simp: bindR_eq_Inr)
  show ?case
  proof (cases "wc_valid c")
    case True
    then show ?thesis using Cons.prems c check_waiver_valid_iff [OF c] by auto
  next
    case False
    then show ?thesis using Cons.prems c check_waiver_valid_iff [OF c] Cons.IH by auto
  qed
qed auto

lemma evaluate_risk_medium:
  "evaluate_risk rid SEVERITY_MEDIUM ws now =
     (if filter (matches rid) ws = [] then Inr \<lparr>blocked = True, bd_reason_codes = [REASON_WAIVER_MISSING]\<rparr>
      else try_waivers (filter (matches rid) ws) now [])"
  by (simp add: evaluate_risk_def SEVERITY_CRITICAL_def SEVERITY_HIGH_def SEVERITY_LOW_def SEVERITY_MEDIUM_def)

lemma evaluate_risk_other:
  "sev \<noteq> SEVERITY_MEDIUM \<Longrightarrow> \<exists>d. evaluate_risk rid sev ws now = Inr d \<and> (blocked d \<longleftrightarrow> sev \<noteq> SEVERITY_LOW)
     \<and> length (bd_reason_codes d) = (if blocked d then 1 else 0)"
  by (auto simp: evaluate_risk_def SEVERITY_CRITICAL_def SEVERITY_HIGH_def SEVERITY_LOW_def)

lemma in_force_accepted:
  assumes "in_force w now"
  shows "\<exists>c. check_waiver w now = Inr c \<and> wc_valid c"
proof -
  have "\<exists>c. check_waiver w now = Inr c"
    using assms in_force_parties check_waiver_total [of w now] by (cases "check_waiver w now") auto
  with assms show ?thesis using check_waiver_valid_iff by blast
qed

text \<open>
  C26: \<open>check_waiver\<close> accepts a waiver exactly when it meets the rule \<open>in_force\<close>: for a medium finding,
  created by a human, approved by a human in the role of a security reviewer while the role of the
  risk owner is another, with an expiry after its creation, active, and not expired at the moment
  of the check. The rule does not ask that approver and owner are different persons, as the
  documented independence of the reviewer would (\<open>self_approved_waiver\<close>).
\<close>

theorem check_waiver_refines_rule:
  "(\<exists>c. check_waiver w now = Inr c \<and> wc_valid c) \<longleftrightarrow> in_force w now"
  using check_waiver_valid_iff in_force_accepted by blast

lemma risk_rule_iff:
  assumes "evaluate_risk rid sev ws now = Inr d"
  shows "\<not> blocked d \<longleftrightarrow> sev = SEVERITY_LOW
     \<or> sev = SEVERITY_MEDIUM \<and> (\<exists>w. w \<in> set ws \<and> matches rid w \<and> in_force w now)"
proof (cases "sev = SEVERITY_MEDIUM")
  case True
  then have "sev \<noteq> SEVERITY_LOW" by (simp add: SEVERITY_LOW_def SEVERITY_MEDIUM_def)
  show ?thesis
  proof (cases "filter (matches rid) ws = []")
    case True
    then show ?thesis
      using assms \<open>sev = SEVERITY_MEDIUM\<close> \<open>sev \<noteq> SEVERITY_LOW\<close>
      by (auto simp: evaluate_risk_medium filter_empty_conv)
  next
    case False
    then have "try_waivers (filter (matches rid) ws) now [] = Inr d"
      using assms \<open>sev = SEVERITY_MEDIUM\<close> by (simp add: evaluate_risk_medium)
    from try_waivers_blocked [OF this] show ?thesis
      using \<open>sev = SEVERITY_MEDIUM\<close> \<open>sev \<noteq> SEVERITY_LOW\<close> by auto
  qed
next
  case False
  then show ?thesis using evaluate_risk_other [of sev rid ws now] assms by auto
qed

text \<open>
  C25: a finding does not block exactly when it is low, or it is medium and some waiver for this
  very risk is in force. Critical, high and unknown severities always block.
\<close>

theorem risk_blocks_unless_waived:
  assumes "evaluate_risk rid sev ws now = Inr d"
  shows "\<not> blocked d \<longleftrightarrow> sev = SEVERITY_LOW
     \<or> sev = SEVERITY_MEDIUM \<and> (\<exists>w. w \<in> set ws \<and> matches rid w \<and> in_force w now)"
  using assms by (rule risk_rule_iff)

lemma in_force_antimono:
  "in_force w now' \<Longrightarrow> instant (as_utc now) \<le> instant (as_utc now') \<Longrightarrow> in_force w now"
  unfolding in_force_def by force

text \<open>
  Time never lifts a block: a finding that blocks at some moment still blocks at every later
  moment under the same waivers, so an expired waiver restores the block for good.
\<close>

theorem block_persists:
  assumes "evaluate_risk rid sev ws now = Inr d" "evaluate_risk rid sev ws now' = Inr d'"
    and "instant (as_utc now) \<le> instant (as_utc now')" "blocked d"
  shows "blocked d'"
proof (rule ccontr)
  assume "\<not> blocked d'"
  then have "sev = SEVERITY_LOW
      \<or> sev = SEVERITY_MEDIUM \<and> (\<exists>w. w \<in> set ws \<and> matches rid w \<and> in_force w now')"
    using risk_rule_iff [OF assms(2)] by blast
  then have "\<not> blocked d" using risk_rule_iff [OF assms(1)] in_force_antimono assms(3) by blast
  with assms(4) show False by blast
qed

text \<open>A malformed waiver that the loop reaches.\<close>

fun reaches_malformed :: "pydict list \<Rightarrow> datetime \<Rightarrow> bool" where
  "reaches_malformed [] now \<longleftrightarrow> False"
| "reaches_malformed (w # ws) now \<longleftrightarrow>
     \<not> parties_ok w \<or> \<not> in_force w now \<and> reaches_malformed ws now"

lemma try_waivers_raises:
  "try_waivers ws now collected = Inl e \<longleftrightarrow> e = AttributeError \<and> reaches_malformed ws now"
proof (induction ws arbitrary: collected)
  case (Cons w ws)
  show ?case
  proof (cases "check_waiver w now")
    case (Inl e')
    then show ?thesis using check_waiver_total [of w now e'] by auto
  next
    case (Inr c)
    then have "parties_ok w" using check_waiver_total [of w now AttributeError] by auto
    then show ?thesis
      using Inr Cons.IH check_waiver_valid_iff [OF Inr] by (cases "wc_valid c") auto
  qed
qed simp

text \<open>
  Evaluating a risk raises exactly when it is medium and, before any waiver in force, a
  matching waiver names a party that is not an object; the exception is an \<open>AttributeError\<close>.
  Every other malformed waiver is reported as a reason to block.
\<close>

theorem evaluate_risk_raises:
  "evaluate_risk rid sev ws now = Inl e \<longleftrightarrow> sev = SEVERITY_MEDIUM \<and> e = AttributeError
     \<and> reaches_malformed (filter (matches rid) ws) now"
proof (cases "sev = SEVERITY_MEDIUM")
  case True
  then show ?thesis by (simp add: evaluate_risk_medium try_waivers_raises)
next
  case False
  then show ?thesis using evaluate_risk_other [of sev rid ws now] by auto
qed

section \<open>Witnesses\<close>

definition demo_waiver :: pydict where
  "demo_waiver =
     [(''risk_id'', PStr ''R1''), (''severity'', PStr ''medium''),
      (''created_by'', PDict [(''type'', PStr ''human'')]),
      (''approved_by'', PDict [(''type'', PStr ''human''), (''role'', PStr ''security-reviewer'')]),
      (''owner'', PDict [(''role'', PStr ''product-owner'')]),
      (''created_at'', PStr ''2025-01-01T00:00:00Z''), (''expires_at'', PStr ''2025-02-01T00:00:00Z'')]"

definition demo_now :: "int \<Rightarrow> datetime" where
  "demo_now day = \<lparr>dt_local = day * micros_per_day, dt_offset = None\<rparr>"

lemmas datetime_eval = parse_timestamp_def strip_def fromisoformat_def find_separator_def parse_date_def
  parse_digits_def parse_time_def parse_hms_def parse_comps.simps parse_fraction_def valid_time_def
  micros_of_def micros_per_day_def micros_per_second_def ymd2ord_def month_lengths_def
  days_before_year_def is_leap_def is_zone_mark_def is_digit_def read_nat_def is_space_def
  space_points_def ends_with_def is_cont_def replace_utc_def Let_def upt_rec py_chars_ascii

lemma demo_timestamps:
  "timestamp_field demo_waiver ''created_at'' = Inr \<lparr>dt_local = 63871372800000000, dt_offset = Some 0\<rparr>"
  "timestamp_field demo_waiver ''expires_at'' = Inr \<lparr>dt_local = 63874051200000000, dt_offset = Some 0\<rparr>"
  by (simp_all add: timestamp_field_def demo_waiver_def dindex_def, simp_all add: datetime_eval)

lemma demo_fields:
  "py_str (dget_or demo_waiver ''severity'' (PStr [])) = ''medium''"
  "py_str (dget_or demo_waiver ''status'' (PStr ''active'')) = ''active''"
  "matches ''R1'' demo_waiver"
  "party demo_waiver ''created_by'' = PDict [(''type'', PStr ''human'')]"
  "party demo_waiver ''approved_by'' = PDict [(''type'', PStr ''human''), (''role'', PStr ''security-reviewer'')]"
  "party demo_waiver ''owner'' = PDict [(''role'', PStr ''product-owner'')]"
  by (simp_all add: demo_waiver_def dget_or_def party_def matches_def)

lemma demo_state:
  "validate_waiver demo_waiver = Inr []"
  "waiver_state demo_waiver now =
     Inr (if 63874051200000000 \<le> instant (as_utc now) then ''expired'' else ''active'')"
proof -
  have "party_val demo_waiver ''created_by'' ''type'' = PStr ''human''"
      "party_val demo_waiver ''approved_by'' ''type'' = PStr ''human''"
      "party_val demo_waiver ''approved_by'' ''role'' = PStr ''security-reviewer''"
      "party_val demo_waiver ''owner'' ''role'' = PStr ''product-owner''"
    by (simp_all add: party_val_def demo_fields)
  then show "validate_waiver demo_waiver = Inr []"
    by (simp add: validate_waiver_Nil parties_ok_def demo_fields time_reasons_eq demo_timestamps instant_def)
  have "instant \<lparr>dt_local = 63874051200000000, dt_offset = Some 0\<rparr> = 63874051200000000"
    by (simp add: instant_def)
  then show "waiver_state demo_waiver now =
     Inr (if 63874051200000000 \<le> instant (as_utc now) then ''expired'' else ''active'')"
    by (simp add: waiver_state_eq demo_fields demo_timestamps)
qed

lemma demo_instant: "instant (as_utc (demo_now day)) = day * 86400000000"
  by (simp add: as_utc_def replace_utc_def instant_def demo_now_def micros_per_day_def micros_per_second_def)

text \<open>Day 739266 is 15 January 2025 and day 739311 is 1 March 2025; the waiver ends on 1 February.\<close>

lemma demo_risk:
  "evaluate_risk ''R1'' SEVERITY_MEDIUM [demo_waiver] (demo_now 739266) = Inr \<lparr>blocked = False, bd_reason_codes = []\<rparr>"
  "evaluate_risk ''R1'' SEVERITY_MEDIUM [demo_waiver] (demo_now 739311)
     = Inr \<lparr>blocked = True, bd_reason_codes = [REASON_WAIVER_EXPIRED]\<rparr>"
  "evaluate_risk ''R1'' SEVERITY_MEDIUM [demo_waiver] (demo_now 739312)
     = Inr \<lparr>blocked = True, bd_reason_codes = [REASON_WAIVER_EXPIRED]\<rparr>"
  by (simp_all add: evaluate_risk_medium demo_fields check_waiver_def demo_state demo_instant)

theorem risk_blocks_unless_waived_witness:
  "\<exists>w. w \<in> set [demo_waiver] \<and> matches ''R1'' w \<and> in_force w (demo_now 739266)"
  using risk_blocks_unless_waived [OF demo_risk(1)] by (simp add: SEVERITY_LOW_def SEVERITY_MEDIUM_def)

theorem block_persists_witness:
  "\<exists>d'. evaluate_risk ''R1'' SEVERITY_MEDIUM [demo_waiver] (demo_now 739312) = Inr d' \<and> blocked d'"
  using block_persists [OF demo_risk(2,3)] demo_risk(3) by (simp add: demo_instant)

text \<open>
  The waiver of \<open>specs/examples/waiver.json\<close>: one person owns the risk and approves the waiver, in two roles.
  It is accepted, although the rules ask for an independent reviewer.
\<close>

definition example_waiver :: pydict where
  "example_waiver =
     [(''id'', PStr ''WAIVER-0001''), (''created_at'', PStr ''2026-09-21T12:15:00Z''),
      (''created_by'', PDict [(''type'', PStr ''human''), (''id'', PStr ''zarl3''), (''role'', PStr ''platform-owner'')]),
      (''risk_id'', PStr ''RISK-0003''), (''severity'', PStr ''medium''),
      (''owner'', PDict [(''type'', PStr ''human''), (''id'', PStr ''zarl3''), (''role'', PStr ''platform-owner'')]),
      (''expires_at'', PStr ''2026-12-21T00:00:00Z''), (''status'', PStr ''active''),
      (''approved_by'', PDict [(''type'', PStr ''human''), (''id'', PStr ''zarl3''), (''role'', PStr ''security-reviewer'')])]"

lemma example_timestamps:
  "timestamp_field example_waiver ''created_at'' = Inr \<lparr>dt_local = 63925676100000000, dt_offset = Some 0\<rparr>"
  "timestamp_field example_waiver ''expires_at'' = Inr \<lparr>dt_local = 63933494400000000, dt_offset = Some 0\<rparr>"
  by (simp_all add: timestamp_field_def example_waiver_def dindex_def, simp_all add: datetime_eval)

lemma self_approved_waiver:
  assumes "instant (as_utc now) < 63933494400000000"
  shows "(\<exists>c. check_waiver example_waiver now = Inr c \<and> wc_valid c)
    \<and> party_val example_waiver ''owner'' ''id'' = party_val example_waiver ''approved_by'' ''id''"
proof -
  have "party example_waiver ''created_by'' = PDict [(''type'', PStr ''human''), (''id'', PStr ''zarl3''), (''role'', PStr ''platform-owner'')]"
    "party example_waiver ''owner'' = PDict [(''type'', PStr ''human''), (''id'', PStr ''zarl3''), (''role'', PStr ''platform-owner'')]"
    "party example_waiver ''approved_by'' = PDict [(''type'', PStr ''human''), (''id'', PStr ''zarl3''), (''role'', PStr ''security-reviewer'')]"
    "py_str (dget_or example_waiver ''severity'' (PStr [])) = ''medium''"
    "py_str (dget_or example_waiver ''status'' (PStr ''active'')) = ''active''"
    by (simp_all add: example_waiver_def dget_or_def party_def)
  moreover from this have "in_force example_waiver now"
    using assms by (simp add: in_force_def party_val_def example_timestamps) (simp add: instant_def)
  ultimately show ?thesis using in_force_accepted by (simp add: party_val_def)
qed

end
