(* ===== verification/FileSystem.thy ===== *)
theory FileSystem
  imports PyString "HOL-Library.Sublist"
begin

text \<open>
  A POSIX file system with symbolic links, and the operations of \<open>pathlib\<close> that the program
  applies to it: splitting and joining paths, \<open>resolve\<close>, \<open>is_file\<close>, \<open>is_dir\<close>, \<open>mkdir(parents=True,
  exist_ok=True)\<close>, \<open>read_bytes\<close> and \<open>write_bytes\<close>.

  A file system maps the absolute, link-free paths that exist to their nodes; a path is the list
  of its components. Looking a path up follows links with a budget of 40, the limit of the
  operating system. Permissions, concurrent writers and exhausted disks are not modelled, and
  \<open>mkdir(parents=True)\<close> that fails part of the way is taken to leave no directories behind.

  The lemmas show that a resolved path contains no link on the way, that creating its parent
  directories and writing to it touches nothing but the path and its ancestors, and that what was
  written is read back.
\<close>

section \<open>Paths\<close>

type_synonym path = "string list"

datatype node = File string | Dir | Link bool path

type_synonym fs = "path \<Rightarrow> node option"

abbreviation dotdot :: string where
  "dotdot \<equiv> ''..''"

text \<open>The components of a path text: empty ones and dots are dropped.\<close>

definition path_parts :: "string \<Rightarrow> path" where
  "path_parts s = filter (\<lambda>c. c \<noteq> [] \<and> c \<noteq> ''.'') (split_on CHR ''/'' s)"

definition is_absolute :: "string \<Rightarrow> bool" where
  "is_absolute s \<longleftrightarrow> starts_with ''/'' s"

text \<open>\<open>base / s\<close>: an absolute right operand replaces the left one.\<close>

definition path_join :: "path \<Rightarrow> string \<Rightarrow> path" where
  "path_join base s = (if is_absolute s then path_parts s else base @ path_parts s)"

section \<open>Following links\<close>

definition link_budget :: nat where
  "link_budget = 40"

definition os_error :: py_error where
  "os_error = OtherError ''OSError''"

definition loop_error :: py_error where
  "loop_error = OtherError ''RuntimeError''"

text \<open>
  Walking the components from a resolved directory. In the strict mode of the system calls every
  component but the last must be a directory; \<open>os.path.realpath\<close> does not check this.
\<close>

function walk :: "fs \<Rightarrow> bool \<Rightarrow> nat \<Rightarrow> path \<Rightarrow> path \<Rightarrow> path result" where
  "walk fs strict n cur [] = Inr cur"
| "walk fs strict n cur (c # cs) =
     (if List.member c CHR 0x00 then Inl (ValueError [])
      else if c = dotdot then walk fs strict n (butlast cur) cs
      else
        (case fs (cur @ [c]) of
           Some (Link absolute target) \<Rightarrow>
             (case n of
                0 \<Rightarrow> Inl loop_error
              | Suc m \<Rightarrow> walk fs strict m (if absolute then [] else cur) (target @ cs))
         | nd \<Rightarrow>
             (if strict \<and> cs \<noteq> [] \<and> nd \<noteq> Some Dir then Inl os_error
              else walk fs strict n (cur @ [c]) cs)))"
  by pat_completeness auto
termination
  by (relation "(\<lambda>(fs, strict, n, cur, cs). n) <*mlex*> measure (\<lambda>(fs, strict, n, cur, cs). length cs)")
    (auto intro: mlex_less mlex_leq wf_mlex)

definition resolve :: "fs \<Rightarrow> path \<Rightarrow> path result" where
  "resolve fs p = walk fs False link_budget [] p"

definition os_path :: "fs \<Rightarrow> path \<Rightarrow> path result" where
  "os_path fs p = walk fs True link_budget [] p"

section \<open>Operations\<close>

definition node_at :: "fs \<Rightarrow> path \<Rightarrow> node option" where
  "node_at fs q = (if q = [] then Some Dir else fs q)"

definition is_file :: "fs \<Rightarrow> path \<Rightarrow> bool" where
  "is_file fs p = (case os_path fs p of Inl e \<Rightarrow> False
     | Inr q \<Rightarrow> (case node_at fs q of Some (File _) \<Rightarrow> True | _ \<Rightarrow> False))"

definition is_dir :: "fs \<Rightarrow> path \<Rightarrow> bool" where
  "is_dir fs p = (case os_path fs p of Inl e \<Rightarrow> False | Inr q \<Rightarrow> node_at fs q = Some Dir)"

definition read_bytes :: "fs \<Rightarrow> path \<Rightarrow> string result" where
  "read_bytes fs p =
     bindR (os_path fs p) (\<lambda>q. case node_at fs q of Some (File b) \<Rightarrow> Inr b | _ \<Rightarrow> Inl os_error)"

definition write_bytes :: "fs \<Rightarrow> path \<Rightarrow> string \<Rightarrow> fs result" where
  "write_bytes fs p data =
     bindR (os_path fs p) (\<lambda>q. case node_at fs q of
        Some (File _) \<Rightarrow> Inr (fs(q \<mapsto> File data))
      | None \<Rightarrow> Inr (fs(q \<mapsto> File data))
      | _ \<Rightarrow> Inl os_error)"

text \<open>
  \<open>os.mkdir\<close>, which fails on anything that exists or whose parent is missing; and
  \<open>Path.mkdir(parents=True, exist_ok=True)\<close>, which creates the ancestors first and tolerates an
  existing directory.
\<close>

definition mkdir1 :: "fs \<Rightarrow> path \<Rightarrow> fs result" where
  "mkdir1 fs p =
     (if is_dir fs p then Inr fs
      else if List.member (last p) CHR 0x00 then Inl (ValueError [])
      else bindR (os_path fs (butlast p)) (\<lambda>d.
             if node_at fs d = Some Dir \<and> fs (d @ [last p]) = None
             then Inr (fs(d @ [last p] \<mapsto> Dir)) else Inl os_error))"

fun mkdirs_from :: "fs \<Rightarrow> path \<Rightarrow> path \<Rightarrow> fs result" where
  "mkdirs_from fs done [] = Inr fs"
| "mkdirs_from fs done (c # cs) =
     bindR (mkdir1 fs (done @ [c])) (\<lambda>fs'. mkdirs_from fs' (done @ [c]) cs)"

definition mkdirs :: "fs \<Rightarrow> path \<Rightarrow> fs result" where
  "mkdirs fs p = mkdirs_from fs [] p"

section \<open>Link-free paths\<close>

definition link_free :: "fs \<Rightarrow> path \<Rightarrow> bool" where
  "link_free fs p \<longleftrightarrow> (\<forall>q. prefix q p \<longrightarrow> \<not> (\<exists>a t. fs q = Some (Link a t)))
     \<and> list_all (\<lambda>c. c \<noteq> dotdot \<and> \<not> List.member c CHR 0x00) p"

lemma link_free_snoc:
  "link_free fs (p @ [c]) \<longleftrightarrow> link_free fs p \<and> c \<noteq> dotdot \<and> \<not> List.member c CHR 0x00
     \<and> \<not> (\<exists>a t. fs (p @ [c]) = Some (Link a t))"
  unfolding link_free_def by (auto simp: prefix_snoc)

lemma link_free_butlast: "link_free fs p \<Longrightarrow> link_free fs (butlast p)"
  by (cases p rule: rev_cases) (auto simp: link_free_snoc)

lemma link_free_prefix: "link_free fs p \<Longrightarrow> prefix q p \<Longrightarrow> link_free fs q"
  unfolding link_free_def by (auto simp: list_all_iff dest: set_mono_prefix [THEN subsetD])

text \<open>No node is stored at the root itself, which is always a directory.\<close>

definition fs_wf :: "fs \<Rightarrow> bool" where
  "fs_wf fs \<longleftrightarrow> fs [] = None"

lemma link_free_Nil: "fs_wf fs \<Longrightarrow> link_free fs []"
  by (simp add: link_free_def fs_wf_def)

lemma walk_link_free:
  "fs_wf fs \<Longrightarrow> link_free fs cur \<Longrightarrow> walk fs strict n cur cs = Inr q \<Longrightarrow> link_free fs q"
proof (induction fs strict n cur cs rule: walk.induct)
  case (2 fs strict n cur c cs)
  show ?case
  proof (cases "c = dotdot")
    case True
    then show ?thesis using 2 link_free_butlast by (auto split: if_splits)
  next
    case c: False
    show ?thesis
    proof (cases "\<exists>a t. fs (cur @ [c]) = Some (Link a t)")
      case True
      then show ?thesis using 2 c link_free_Nil by (auto split: if_splits nat.splits)
    next
      case False
      then show ?thesis using 2 c
        by (auto simp: link_free_snoc split: if_splits option.splits node.splits)
    qed
  qed
qed simp

lemma resolve_link_free: "fs_wf fs \<Longrightarrow> resolve fs p = Inr q \<Longrightarrow> link_free fs q"
  unfolding resolve_def by (rule walk_link_free) (simp_all add: link_free_Nil)

text \<open>
  A directory named by a resolved path is entered where the path says: no link is followed. The node
  stored at the root is never looked at.
\<close>

lemma walk_root_node: "walk (fs([] := nd)) strict n cur cs = walk fs strict n cur cs"
proof (induction fs strict n cur cs rule: walk.induct)
  case (2 fs strict n cur c cs)
  show ?case
  proof (cases "fs (cur @ [c])")
    case None
    then show ?thesis using 2 by simp
  next
    case (Some x)
    then show ?thesis using 2 by (cases x; cases n) simp_all
  qed
qed simp

lemma walk_same: "link_free fs (cur @ cs) \<Longrightarrow> walk fs strict n cur cs = Inr q \<Longrightarrow> q = cur @ cs"
proof (induction cs arbitrary: cur)
  case (Cons c cs)
  have "link_free fs (cur @ [c])" using Cons.prems(1) by (rule link_free_prefix) (simp add: prefix_def)
  then have "walk fs strict n (cur @ [c]) cs = Inr q"
    using Cons.prems(2) by (auto simp: link_free_snoc split: if_splits option.splits node.splits)
  then show ?case using Cons.IH [of "cur @ [c]"] Cons.prems(1) by simp
qed simp

lemma resolved_dir:
  assumes "resolve fs p = Inr q" "is_dir fs q"
  shows "os_path fs q = Inr q \<and> node_at fs q = Some Dir"
proof -
  obtain q' where q': "os_path fs q = Inr q'" "node_at fs q' = Some Dir"
    using assms(2) by (auto simp: is_dir_def split: sum.splits)
  have "resolve (fs([] := None)) p = Inr q" using assms(1) by (simp add: resolve_def walk_root_node)
  then have "link_free (fs([] := None)) q" by (rule resolve_link_free [rotated]) (simp add: fs_wf_def)
  moreover have "walk (fs([] := None)) True link_budget [] q = Inr q'" using q'(1) by (simp add: os_path_def walk_root_node)
  ultimately have "q' = q" using walk_same [of "fs([] := None)" "[]" q] by simp
  with q' show ?thesis by simp
qed

text \<open>A link-free path whose ancestors are directories is where the system calls look.\<close>

definition parents_exist :: "fs \<Rightarrow> path \<Rightarrow> bool" where
  "parents_exist fs p \<longleftrightarrow> (\<forall>q. strict_prefix q p \<longrightarrow> node_at fs q = Some Dir)"

lemma walk_straight:
  "link_free fs (cur @ cs) \<Longrightarrow> parents_exist fs (cur @ cs) \<Longrightarrow> walk fs True n cur cs = Inr (cur @ cs)"
proof (induction cs arbitrary: cur)
  case (Cons c cs)
  have lf: "link_free fs (cur @ [c])"
    using Cons.prems(1) by (rule link_free_prefix) (simp add: prefix_def)
  have "cs \<noteq> [] \<Longrightarrow> fs (cur @ [c]) = Some Dir"
    using Cons.prems(2) unfolding parents_exist_def node_at_def
    by (force simp: strict_prefix_def prefix_def dest: spec [of _ "cur @ [c]"])
  moreover have "walk fs True n (cur @ [c]) cs = Inr (cur @ c # cs)"
    using Cons.IH [of "cur @ [c]"] Cons.prems by simp
  ultimately show ?case
    using lf by (auto simp: link_free_snoc split: option.splits node.splits)
qed simp

lemma os_path_straight: "link_free fs p \<Longrightarrow> parents_exist fs p \<Longrightarrow> os_path fs p = Inr p"
  unfolding os_path_def using walk_straight [of fs "[]" p] by simp

lemma parents_exist_snoc:
  "parents_exist fs (p @ [c]) \<longleftrightarrow> parents_exist fs p \<and> node_at fs p = Some Dir"
proof -
  have "strict_prefix q (p @ [c]) \<longleftrightarrow> strict_prefix q p \<or> q = p" for q
    using prefix_length_le [of q p] unfolding strict_prefix_def prefix_snoc by auto
  then show ?thesis unfolding parents_exist_def by blast
qed

lemma mkdir1_straight:
  assumes "link_free fs (p @ [c])" "parents_exist fs (p @ [c])" "mkdir1 fs (p @ [c]) = Inr fs'"
  shows "fs' (p @ [c]) = Some Dir"
    and "fs' = (if fs (p @ [c]) = None then fs(p @ [c] \<mapsto> Dir) else fs)"
proof -
  have "os_path fs (p @ [c]) = Inr (p @ [c])" "os_path fs p = Inr p" "node_at fs p = Some Dir"
    using assms(1,2) os_path_straight by (auto simp: parents_exist_snoc link_free_snoc)
  with assms(3) show "fs' (p @ [c]) = Some Dir" "fs' = (if fs (p @ [c]) = None then fs(p @ [c] \<mapsto> Dir) else fs)"
    by (auto simp: mkdir1_def is_dir_def node_at_def split: if_splits)
qed

text \<open>The file system with the missing directories down to a path.\<close>

definition with_dirs :: "fs \<Rightarrow> path \<Rightarrow> fs" where
  "with_dirs fs p = (\<lambda>q. if q \<noteq> [] \<and> prefix q p \<and> fs q = None then Some Dir else fs q)"

lemma link_free_with_dirs: "link_free fs p \<Longrightarrow> link_free (with_dirs fs q) p"
  by (auto simp: link_free_def with_dirs_def)

lemma with_dirs_snoc:
  "with_dirs fs (p @ [c]) = (if fs (p @ [c]) = None then (with_dirs fs p)(p @ [c] \<mapsto> Dir) else with_dirs fs p)"
  by (auto simp: with_dirs_def fun_eq_iff prefix_snoc)

lemma mkdirs_snoc: "mkdirs fs (p @ [c]) = bindR (mkdirs fs p) (\<lambda>fs'. mkdir1 fs' (p @ [c]))"
proof -
  have "mkdirs_from fs d (cs @ [c]) = bindR (mkdirs_from fs d cs) (\<lambda>fs'. mkdir1 fs' (d @ cs @ [c]))" for d cs
  proof (induction cs arbitrary: fs d)
    case Nil
    show ?case by (cases "mkdir1 fs (d @ [c])") simp_all
  next
    case (Cons x cs)
    show ?case by (cases "mkdir1 fs (d @ [x])") (simp_all add: Cons)
  qed
  from this [of "[]" p] show ?thesis by (simp add: mkdirs_def)
qed

lemma mkdirs_link_free:
  assumes "link_free fs p" "mkdirs fs p = Inr fs'"
  shows "fs' = with_dirs fs p \<and> parents_exist fs' (p @ [c])"
  using assms
proof (induction p arbitrary: fs' c rule: rev_induct)
  case Nil
  then show ?case
    by (auto simp: mkdirs_def with_dirs_def parents_exist_def node_at_def strict_prefix_def prefix_Cons)
next
  case (snoc x p)
  from snoc.prems obtain fs1 where fs1: "mkdirs fs p = Inr fs1" "mkdir1 fs1 (p @ [x]) = Inr fs'"
    by (auto simp: mkdirs_snoc bindR_eq_Inr)
  have IH: "fs1 = with_dirs fs p" "parents_exist fs1 (p @ [x])"
    using snoc.IH [OF _ fs1(1)] snoc.prems(1) by (auto simp: link_free_snoc)
  have lf: "link_free fs1 (p @ [x])" using snoc.prems(1) link_free_with_dirs IH(1) by simp
  note m = mkdir1_straight [OF lf IH(2) fs1(2)]
  have "fs1 (p @ [x]) = fs (p @ [x])" using IH(1) by (auto simp: with_dirs_def)
  with m(2) IH(1) have "fs' = with_dirs fs (p @ [x])" by (simp add: with_dirs_snoc)
  moreover have "parents_exist fs' (p @ [x] @ [c])"
    using IH(2) m unfolding append_assoc [symmetric] parents_exist_snoc
    by (auto simp: parents_exist_def node_at_def)
  ultimately show ?case by simp
qed

lemma write_straight:
  assumes "link_free fs p" "parents_exist fs p" "write_bytes fs p data = Inr fs'"
  shows "fs' = fs(p \<mapsto> File data)"
  using assms os_path_straight [OF assms(1,2)]
  by (auto simp: write_bytes_def split: option.splits node.splits if_splits)

text \<open>Writing to a resolved path after creating its parents: exactly which nodes change.\<close>

lemma mkdirs_write:
  assumes "link_free fs p" "p \<noteq> []" "mkdirs fs (butlast p) = Inr fs1" "write_bytes fs1 p data = Inr fs2"
  shows "fs2 = (with_dirs fs (butlast p))(p \<mapsto> File data)"
proof -
  have p: "p = butlast p @ [last p]" using assms(2) by simp
  have "fs1 = with_dirs fs (butlast p)" "parents_exist fs1 p"
    using mkdirs_link_free [OF link_free_butlast [OF assms(1)] assms(3), of "last p"] p by metis+
  then show ?thesis using write_straight [OF _ _ assms(4)] link_free_with_dirs [OF assms(1)] by simp
qed

text \<open>When creating directories and writing succeed.\<close>

definition usable_dir :: "fs \<Rightarrow> path \<Rightarrow> bool" where
  "usable_dir fs p \<longleftrightarrow> link_free fs p \<and> (\<forall>q. prefix q p \<and> q \<noteq> [] \<longrightarrow> fs q = None \<or> fs q = Some Dir)"

lemma usable_dir_snoc:
  "usable_dir fs (p @ [c]) \<Longrightarrow> usable_dir fs p \<and> link_free fs (p @ [c]) \<and> (fs (p @ [c]) = None \<or> fs (p @ [c]) = Some Dir)"
  unfolding usable_dir_def link_free_snoc by (auto simp: prefix_snoc)

lemma mkdirs_total: "usable_dir fs p \<Longrightarrow> mkdirs fs p = Inr (with_dirs fs p)"
proof (induction p rule: rev_induct)
  case Nil
  then show ?case by (auto simp: mkdirs_def with_dirs_def fun_eq_iff)
next
  case (snoc c p)
  let ?fs = "with_dirs fs p"
  have u: "usable_dir fs p" "link_free fs (p @ [c])" "fs (p @ [c]) = None \<or> fs (p @ [c]) = Some Dir"
    using usable_dir_snoc [OF snoc.prems] by blast+
  have lf: "link_free ?fs (p @ [c])" using u(2) by (rule link_free_with_dirs)
  have pe: "parents_exist ?fs (p @ [c])"
    using mkdirs_link_free [OF _ snoc.IH [OF u(1)]] u(1) by (simp add: usable_dir_def)
  have "?fs (p @ [c]) = fs (p @ [c])" by (auto simp: with_dirs_def)
  moreover have "os_path ?fs (p @ [c]) = Inr (p @ [c])" "os_path ?fs p = Inr p" "node_at ?fs p = Some Dir"
    using lf pe os_path_straight by (auto simp: parents_exist_snoc link_free_snoc)
  moreover have "\<not> List.member c CHR 0x00" using lf by (simp add: link_free_snoc)
  ultimately have "mkdir1 ?fs (p @ [c]) = Inr (with_dirs fs (p @ [c]))"
    using u(3) by (auto simp: mkdir1_def is_dir_def node_at_def with_dirs_snoc)
  then show ?case using snoc.IH [OF u(1)] by (simp add: mkdirs_snoc)
qed

lemma write_total:
  assumes "link_free fs p" "parents_exist fs p" "p \<noteq> []" "fs p \<noteq> Some Dir"
  shows "write_bytes fs p data = Inr (fs(p \<mapsto> File data))"
proof -
  have "\<not> (\<exists>a t. fs p = Some (Link a t))" using assms(1) by (auto simp: link_free_def)
  with assms os_path_straight [OF assms(1,2)] show ?thesis
    by (auto simp: write_bytes_def node_at_def split: option.splits node.splits)
qed

section \<open>Reading back\<close>

text \<open>
  Storing a file or directory where nothing or a file was does not change where system calls end
  up: such a node is never an intermediate step of a successful lookup.
\<close>

fun is_link :: "node option \<Rightarrow> bool" where
  "is_link (Some (Link a t)) = True"
| "is_link _ = False"

lemma walk_update:
  "walk fs True n cur cs = Inr r \<Longrightarrow> \<not> is_link (fs q) \<Longrightarrow> fs q \<noteq> Some Dir \<Longrightarrow> \<not> is_link (Some nd) \<Longrightarrow>
   walk (fs(q \<mapsto> nd)) True n cur cs = Inr r"
proof (induction fs True n cur cs rule: walk.induct)
  case (2 fs n cur c cs)
  show ?case
  proof (cases "cur @ [c] = q")
    case True
    then have "c = dotdot \<or> cs = []"
      using 2 by (auto split: if_splits option.splits node.splits)
    then show ?thesis
      using 2 True by (cases nd) (auto split: if_splits option.splits node.splits)
  next
    case False
    then show ?thesis using 2 by (auto split: if_splits option.splits node.splits nat.splits)
  qed
qed simp

lemma os_path_update:
  "os_path fs p = Inr r \<Longrightarrow> \<not> is_link (fs q) \<Longrightarrow> fs q \<noteq> Some Dir \<Longrightarrow> \<not> is_link (Some nd) \<Longrightarrow>
   os_path (fs(q \<mapsto> nd)) p = Inr r"
  unfolding os_path_def by (rule walk_update)

lemma write_bytes_cases:
  assumes "write_bytes fs p data = Inr fs'"
  obtains q where "os_path fs p = Inr q" "q \<noteq> []" "\<not> is_link (fs q)" "fs q \<noteq> Some Dir"
    "fs' = fs(q \<mapsto> File data)" "os_path fs' p = Inr q"
proof -
  from assms obtain q where q: "os_path fs p = Inr q" and "(case node_at fs q of
        Some (File _) \<Rightarrow> Inr (fs(q \<mapsto> File data)) | None \<Rightarrow> Inr (fs(q \<mapsto> File data)) | _ \<Rightarrow> Inl os_error) = Inr fs'"
    by (auto simp: write_bytes_def bindR_eq_Inr)
  then have "q \<noteq> []" "\<not> is_link (fs q)" "fs q \<noteq> Some Dir" "fs' = fs(q \<mapsto> File data)"
    by (auto simp: node_at_def split: option.splits node.splits if_splits)
  with q that os_path_update [OF q, of q "File data"] show ?thesis by simp
qed

text \<open>What was written is read back; what other paths lead to is unchanged.\<close>

lemma read_written:
  assumes "write_bytes fs p data = Inr fs'"
  shows "is_file fs' p" "read_bytes fs' p = Inr data"
  using assms by (auto elim!: write_bytes_cases simp: is_file_def read_bytes_def node_at_def)

lemma read_bytes_Inr:
  "read_bytes fs p = Inr b \<longleftrightarrow> (\<exists>q. os_path fs p = Inr q \<and> node_at fs q = Some (File b))"
  by (cases "os_path fs p") (auto simp: read_bytes_def split: option.splits node.splits)

lemma read_other:
  assumes "write_bytes fs p data = Inr fs'" "read_bytes fs p' = Inr b" "os_path fs p' \<noteq> os_path fs p"
  shows "read_bytes fs' p' = Inr b"
  using assms(1)
proof (rule write_bytes_cases)
  fix q assume q: "os_path fs p = Inr q" "q \<noteq> []" "\<not> is_link (fs q)" "fs q \<noteq> Some Dir" "fs' = fs(q \<mapsto> File data)"
  from assms(2) obtain q' where q': "os_path fs p' = Inr q'" "node_at fs q' = Some (File b)"
    by (auto simp: read_bytes_Inr)
  with q assms(3) have "q' \<noteq> q" by auto
  then show ?thesis
    using q q' os_path_update [OF q'(1), of q "File data"]
    by (auto simp: read_bytes_Inr node_at_def split: if_splits)
qed

end
