(* ===== verification/World.thy ===== *)
theory World
  imports FileSystem PyValue
begin

text \<open>
  The state that the program shares with its environment: the file system and the record of the
  calls that left the process (subprocesses, \<open>git\<close>, pull requests, the language model). Operations with effects are
  functions from a world to an outcome and a new world, so the effects of a call that raises are
  kept; \<open>bindW\<close> sequences them.
\<close>

text \<open>
  \<open>RunProgram\<close> holds the argument vector, the working directory as it was handed over, and where the
  system found it at that moment. The question put to the policy service before a call is not part
  of the record: the service is an argument of the policy client.
\<close>

datatype ext_call =
    RunProgram "string list" path "path result"
  | RunGit "string list" path
  | OpenPullRequest pydict
  | AskModel string string pydict

record world =
  w_fs :: fs
  w_calls :: "ext_call list"

type_synonym 'a io = "world \<Rightarrow> 'a result \<times> world"

definition returnW :: "'a \<Rightarrow> 'a io" where
  "returnW x = (\<lambda>w. (Inr x, w))"

definition raiseW :: "py_error \<Rightarrow> 'a io" where
  "raiseW e = (\<lambda>w. (Inl e, w))"

definition liftW :: "'a result \<Rightarrow> 'a io" where
  "liftW r = (\<lambda>w. (r, w))"

definition bindW :: "'a io \<Rightarrow> ('a \<Rightarrow> 'b io) \<Rightarrow> 'b io" where
  "bindW m f = (\<lambda>w. case m w of (Inl e, w') \<Rightarrow> (Inl e, w') | (Inr x, w') \<Rightarrow> f x w')"

text \<open>A change of the file system that either happens or fails without effect.\<close>

definition updateW :: "(fs \<Rightarrow> fs result) \<Rightarrow> unit io" where
  "updateW f = (\<lambda>w. case f (w_fs w) of Inl e \<Rightarrow> (Inl e, w) | Inr fs' \<Rightarrow> (Inr (), w\<lparr>w_fs := fs'\<rparr>))"

definition readW :: "(fs \<Rightarrow> 'a result) \<Rightarrow> 'a io" where
  "readW f = (\<lambda>w. (f (w_fs w), w))"

lemmas io_defs = returnW_def raiseW_def liftW_def bindW_def updateW_def readW_def

lemma bindW_Inr:
  "bindW m f w = (Inr y, w') \<longleftrightarrow> (\<exists>x w1. m w = (Inr x, w1) \<and> f x w1 = (Inr y, w'))"
  by (auto simp: bindW_def split: prod.splits sum.splits)

lemma bindW_returnW [simp]: "bindW (returnW x) f = f x"
  by (simp add: io_defs)

lemma bindW_raiseW [simp]: "bindW (raiseW e) f = raiseW e"
  by (simp add: io_defs)

lemma bindW_liftW: "bindW (liftW r) f = (case r of Inl e \<Rightarrow> raiseW e | Inr x \<Rightarrow> f x)"
  by (auto simp: io_defs split: sum.splits)

lemma bindW_assoc: "bindW (bindW m f) g = bindW m (\<lambda>x. bindW (f x) g)"
  by (auto simp: bindW_def fun_eq_iff split: prod.splits sum.splits)

section \<open>The calls an operation makes\<close>

text \<open>
  An operation follows a set of plans when the calls it records are an initial part of one of
  them, and the whole of it if the operation returns.
\<close>

definition follows :: "ext_call list set \<Rightarrow> 'a io \<Rightarrow> bool" where
  "follows plans m \<longleftrightarrow> (\<forall>w r w'. m w = (r, w') \<longrightarrow>
     (\<exists>l plan. w_calls w' = w_calls w @ l \<and> plan \<in> plans \<and> prefix l plan \<and> (\<forall>x. r = Inr x \<longrightarrow> l = plan)))"

lemma followsD:
  "follows plans m \<Longrightarrow> m w = (r, w') \<Longrightarrow>
   \<exists>l plan. w_calls w' = w_calls w @ l \<and> plan \<in> plans \<and> prefix l plan \<and> (\<forall>x. r = Inr x \<longrightarrow> l = plan)"
  unfolding follows_def by blast

lemma follows_mono: "follows S m \<Longrightarrow> S \<subseteq> T \<Longrightarrow> follows T m"
  unfolding follows_def by blast

lemma follows_quiet: "(\<And>w. w_calls (snd (m w)) = w_calls w) \<Longrightarrow> follows {[]} m"
  unfolding follows_def by (metis append_Nil2 prefix_order.refl singletonI snd_conv)

lemma follows_return [intro, simp]: "follows {[]} (returnW x)"
  and follows_lift [intro, simp]: "follows {[]} (liftW r)"
  and follows_read [intro, simp]: "follows {[]} (readW f)"
  by (rule follows_quiet, simp add: io_defs)+

lemma follows_bind:
  assumes m: "follows S m" and f: "\<And>x. follows T (f x)" and T: "T \<noteq> {}"
  shows "follows ((\<lambda>(a, b). a @ b) ` (S \<times> T)) (bindW m f)"
  unfolding follows_def
proof (intro allI impI)
  fix w r w' assume b: "bindW m f w = (r, w')"
  obtain r1 w1 where m1: "m w = (r1, w1)" by fastforce
  from followsD [OF m m1] obtain l1 p1 where l1: "w_calls w1 = w_calls w @ l1" "p1 \<in> S" "prefix l1 p1"
    "\<forall>x. r1 = Inr x \<longrightarrow> l1 = p1" by blast
  show "\<exists>l plan. w_calls w' = w_calls w @ l \<and> plan \<in> (\<lambda>(a, b). a @ b) ` (S \<times> T) \<and> prefix l plan
      \<and> (\<forall>x. r = Inr x \<longrightarrow> l = plan)"
  proof (cases r1)
    case (Inl e)
    with b m1 have "r = Inl e" "w' = w1" by (auto simp: bindW_def)
    moreover obtain t where "t \<in> T" using T by blast
    ultimately show ?thesis using l1 by (intro exI [of _ l1] exI [of _ "p1 @ t"]) (auto intro: prefix_prefix)
  next
    case (Inr x)
    with b m1 have "f x w1 = (r, w')" by (simp add: bindW_def)
    from followsD [OF f this] obtain l2 p2 where "w_calls w' = w_calls w1 @ l2" "p2 \<in> T" "prefix l2 p2"
      "\<forall>x. r = Inr x \<longrightarrow> l2 = p2" by blast
    with l1 Inr show ?thesis by (intro exI [of _ "l1 @ l2"] exI [of _ "p1 @ p2"]) auto
  qed
qed

lemma follows_then:
  assumes "follows {c} m" "\<And>x. follows T (f x)" "T \<noteq> {}"
  shows "follows ((@) c ` T) (bindW m f)"
  using follows_bind [OF assms] by (rule follows_mono) auto

end
