(* ===== verification/Evidence.thy ===== *)
theory Evidence
  imports World Crypto
begin

text \<open>
  Trust tiers and the evidence layer (\<open>trust.py\<close>, \<open>evidence/compression.py\<close>,
  \<open>evidence/store.py\<close>, \<open>evidence/record.py\<close>, \<open>evidence/pipeline.py\<close>): tool output is classified,
  stored byte for byte under its SHA-256 digest, replaced in the model's context by a bounded
  excerpt when it is large and untrusted, and described by an evidence record.

  Only the size of the zlib compression is recorded by the code; it is the argument \<open>zlib_size\<close>.
  The lemmas show that whatever enters the evidence layer can be recovered from the record that
  describes it, that the context text of large output is bounded and made of its two ends, and
  that sensitive content leaves no trace.
\<close>

section \<open>Trust tiers\<close>

datatype trust_tier = TRUSTED | UNTRUSTED | SENSITIVE

fun tier_value :: "trust_tier \<Rightarrow> string" where
  "tier_value TRUSTED = ''trusted''"
| "tier_value UNTRUSTED = ''untrusted''"
| "tier_value SENSITIVE = ''sensitive''"

definition trusted_sources :: "string list" where
  "trusted_sources = [''approved_artifact'', ''policy'', ''schema'', ''pinned_template'']"

definition sensitive_sources :: "string list" where
  "sensitive_sources = [''secret'', ''credential'', ''pii'', ''production_config'']"

definition can_use_as_instruction :: "trust_tier \<Rightarrow> bool" where
  "can_use_as_instruction tier \<longleftrightarrow> tier = TRUSTED"

definition classify_source :: "string \<Rightarrow> trust_tier" where
  "classify_source source =
     (if List.member trusted_sources source then TRUSTED
      else if List.member sensitive_sources source then SENSITIVE
      else UNTRUSTED)"

section \<open>Compression for the context\<close>

definition DEFAULT_MAX_BYTES :: int where
  "DEFAULT_MAX_BYTES = 8192"

definition DEFAULT_EXCERPT_BYTES :: int where
  "DEFAULT_EXCERPT_BYTES = 2048"

record compression_result =
  cr_applied :: bool
  cr_original_digest :: string
  cr_original_size_bytes :: nat
  cr_compressed_size_bytes :: nat
  cr_recovery_handle :: string
  cr_context_text :: string

text \<open>The slices \<open>s[:i]\<close> and \<open>s[i:]\<close>, where a negative index counts from the end.\<close>

definition slice_index :: "int \<Rightarrow> nat \<Rightarrow> nat" where
  "slice_index i n = (if i < 0 then nat (int n + i) else nat i)"

definition slice_to :: "int \<Rightarrow> string \<Rightarrow> string" where
  "slice_to i s = take (slice_index i (length s)) s"

definition slice_from :: "int \<Rightarrow> string \<Rightarrow> string" where
  "slice_from i s = drop (slice_index i (length s)) s"

text \<open>
  \<open>decode("utf-8", errors="replace")\<close>: the longest prefix of an ill-formed sequence that could
  have begun a character is replaced by \<open>U+FFFD\<close>.
\<close>

definition replacement :: string where
  "replacement = [CHR 0xEF, CHR 0xBF, CHR 0xBD]"

definition tail_bytes :: "char \<Rightarrow> nat" where
  "tail_bytes a = (let n = byte a in
     if 194 \<le> n \<and> n < 224 then 1 else if 224 \<le> n \<and> n < 240 then 2 else if 240 \<le> n \<and> n \<le> (244 :: nat) then 3 else 0)"

definition second_ok :: "char \<Rightarrow> char \<Rightarrow> bool" where
  "second_ok a b \<longleftrightarrow> is_cont b
     \<and> (byte a = (224 :: nat) \<longrightarrow> (160 :: nat) \<le> byte b) \<and> (byte a = (237 :: nat) \<longrightarrow> byte b < (160 :: nat))
     \<and> (byte a = (240 :: nat) \<longrightarrow> (144 :: nat) \<le> byte b) \<and> (byte a = (244 :: nat) \<longrightarrow> byte b < (144 :: nat))"

definition good_tail :: "char \<Rightarrow> string \<Rightarrow> nat" where
  "good_tail a s =
     (case s of
        [] \<Rightarrow> 0
      | b # r \<Rightarrow> if second_ok a b then Suc (length (takeWhile is_cont (take (tail_bytes a - 1) r))) else 0)"

function decode_replace :: "string \<Rightarrow> string" where
  "decode_replace [] = []"
| "decode_replace (a # s) =
     (if byte a < (128 :: nat) then a # decode_replace s
      else if tail_bytes a = 0 then replacement @ decode_replace s
      else if good_tail a s = tail_bytes a then a # take (tail_bytes a) s @ decode_replace (drop (tail_bytes a) s)
      else replacement @ decode_replace (drop (good_tail a s) s))"
  by pat_completeness auto
termination
  by (relation "measure length") auto

definition excerpt_marker :: "int \<Rightarrow> string" where
  "excerpt_marker omitted = newline # ''... ['' @ dec_int omitted
     @ '' bytes omitted; byte-exact original in evidence store] ...'' @ [newline]"

definition excerpt :: "string \<Rightarrow> int \<Rightarrow> string" where
  "excerpt raw excerpt_bytes =
     (let head = slice_to excerpt_bytes raw; tail = slice_from (- excerpt_bytes) raw;
          omitted = int (length raw) - int (length head) - int (length tail)
      in decode_replace (head @ excerpt_marker omitted @ tail))"

definition recovery_handle :: "string \<Rightarrow> string" where
  "recovery_handle digest = ''sha256:'' @ digest"

definition compress_for_context ::
    "(string \<Rightarrow> nat) \<Rightarrow> string \<Rightarrow> trust_tier \<Rightarrow> int \<Rightarrow> int \<Rightarrow> compression_result result" where
  "compress_for_context zlib_size text tier max_bytes excerpt_bytes =
     bindR (encode_utf8 text) (\<lambda>raw.
       let digest = sha256_hex raw; handle = recovery_handle digest
       in if tier \<noteq> UNTRUSTED \<or> int (length raw) \<le> max_bytes
          then Inr \<lparr>cr_applied = False, cr_original_digest = digest, cr_original_size_bytes = length raw,
                    cr_compressed_size_bytes = length raw, cr_recovery_handle = handle, cr_context_text = text\<rparr>
          else Inr \<lparr>cr_applied = True, cr_original_digest = digest, cr_original_size_bytes = length raw,
                    cr_compressed_size_bytes = zlib_size raw, cr_recovery_handle = handle,
                    cr_context_text = excerpt raw excerpt_bytes\<rparr>)"

section \<open>The content-addressed store\<close>

text \<open>A store is given by its root directory.\<close>

definition store_put :: "path \<Rightarrow> string \<Rightarrow> string io" where
  "store_put root data =
     (let digest = sha256_hex data
      in bindW (updateW (\<lambda>fs. mkdirs fs root)) (\<lambda>_.
         bindW (updateW (\<lambda>fs. write_bytes fs (path_join root digest) data)) (\<lambda>_. returnW digest)))"

definition store_get :: "path \<Rightarrow> string \<Rightarrow> fs \<Rightarrow> string result" where
  "store_get root digest fs =
     (let p = path_join root digest in if is_file fs p then read_bytes fs p else Inl (KeyError digest))"

definition store_resolve :: "path \<Rightarrow> string \<Rightarrow> fs \<Rightarrow> string result" where
  "store_resolve root handle fs =
     (if starts_with ''sha256:'' handle then store_get root (drop 7 handle) fs
      else Inl (ValueError (''unsupported recovery handle: '' @ repr_str handle)))"

section \<open>Evidence records\<close>

definition set_opt :: "string \<Rightarrow> string option \<Rightarrow> pydict \<Rightarrow> pydict" where
  "set_opt k v d = (case v of None \<Rightarrow> d | Some s \<Rightarrow> dset k (PStr s) d)"

definition compression_entry :: "compression_result \<Rightarrow> pydict" where
  "compression_entry c =
     (''applied'', PBool (cr_applied c)) #
     (if cr_applied c
      then [(''original_digest'', PStr (cr_original_digest c)),
            (''original_size_bytes'', PInt (int (cr_original_size_bytes c))),
            (''compressed_size_bytes'', PInt (int (cr_compressed_size_bytes c))),
            (''recovery_handle'', PStr (cr_recovery_handle c))]
      else [])"

definition build_evidence_record ::
    "string \<Rightarrow> string \<Rightarrow> pydict \<Rightarrow> string \<Rightarrow> string \<Rightarrow> trust_tier \<Rightarrow> string \<Rightarrow> string option \<Rightarrow> string option
     \<Rightarrow> string option \<Rightarrow> compression_result option \<Rightarrow> pydict list \<Rightarrow> pydict" where
  "build_evidence_record artifact_id created_at actor run_id action tier sensitivity artifact_digest
       artifact_ref policy_decision_ref compression links =
     (let d0 = [(''schema_version'', PStr ''1.0.0''), (''artifact_type'', PStr ''evidence-record''),
                (''id'', PStr artifact_id), (''created_at'', PStr created_at), (''actor'', PDict actor),
                (''run_id'', PStr run_id), (''action'', PStr action),
                (''trust_tier'', PStr (tier_value tier)), (''sensitivity'', PStr sensitivity)];
          d1 = set_opt ''artifact_digest'' artifact_digest d0;
          d2 = set_opt ''artifact_ref'' artifact_ref d1;
          d3 = set_opt ''policy_decision_ref'' policy_decision_ref d2;
          d4 = (case compression of None \<Rightarrow> d3
                | Some c \<Rightarrow> dset ''compression'' (PDict (compression_entry c)) d3)
      in if links = [] then d4 else dset ''links'' (PList (map PDict links)) d4)"

section \<open>The capture pipeline\<close>

record tool_output_result =
  to_record :: pydict
  to_context_text :: string
  to_digest :: string

definition process_tool_output ::
    "(string \<Rightarrow> nat) \<Rightarrow> path \<Rightarrow> string \<Rightarrow> string \<Rightarrow> pydict \<Rightarrow> string \<Rightarrow> string \<Rightarrow> string \<Rightarrow> trust_tier \<Rightarrow> string
     \<Rightarrow> int \<Rightarrow> string option \<Rightarrow> string option \<Rightarrow> pydict list \<Rightarrow> tool_output_result io" where
  "process_tool_output zlib_size root text action actor run_id artifact_id created_at tier sensitivity
       max_bytes artifact_ref policy_decision_ref links =
     (if tier = SENSITIVE
      then raiseW (SensitiveContentError
             ''sensitive content must be redacted or handled outside the model context'')
      else
        bindW (liftW (compress_for_context zlib_size text tier max_bytes DEFAULT_EXCERPT_BYTES)) (\<lambda>compression.
        bindW (liftW (encode_utf8 text)) (\<lambda>raw.
        bindW (store_put root raw) (\<lambda>digest.
          if digest \<noteq> cr_original_digest compression
          then raiseW (AssertionError ''evidence store digest mismatch'')
          else
            returnW
              \<lparr>to_record = build_evidence_record artifact_id created_at actor run_id action tier sensitivity
                 (Some digest)
                 (Some (case artifact_ref of None \<Rightarrow> cr_recovery_handle compression | Some r \<Rightarrow> r))
                 policy_decision_ref (Some compression) links,
               to_context_text = cr_context_text compression, to_digest = digest\<rparr>))))"

section \<open>What a content store promises\<close>

text \<open>
  The contract between the capture pipeline and its store: the key of stored data is a function
  of the data, and a successful \<open>put\<close> makes the data readable under the key.
\<close>

locale content_store =
  fixes put :: "string \<Rightarrow> string io"
    and get :: "string \<Rightarrow> fs \<Rightarrow> string result"
    and key :: "string \<Rightarrow> string"
  assumes put_key: "put d w = (Inr k, w') \<Longrightarrow> k = key d"
    and put_get: "put d w = (Inr k, w') \<Longrightarrow> get k (w_fs w') = Inr d"
    and put_calls: "put d w = (r, w') \<Longrightarrow> w_calls w' = w_calls w"
begin

lemma get_by_key: "put d w = (Inr k, w') \<Longrightarrow> get (key d) (w_fs w') = Inr d"
  using put_key put_get by metis

lemma put_twice:
  assumes "put d w = (Inr k, w1)" "put d w1 = (Inr k', w2)"
  shows "k' = k \<and> get k (w_fs w2) = Inr d"
  using put_key [OF assms(1)] put_key [OF assms(2)] put_get [OF assms(2)] by simp

end

lemma store_put_Inr:
  "store_put root data w = (Inr dg, w') \<longleftrightarrow> dg = sha256_hex data \<and> (\<exists>fs1 fs2. mkdirs (w_fs w) root = Inr fs1
     \<and> write_bytes fs1 (path_join root dg) data = Inr fs2 \<and> w' = w\<lparr>w_fs := fs2\<rparr>)"
  by (auto simp: store_put_def Let_def io_defs split: sum.splits prod.splits)

lemma store_put_calls: "store_put root data w = (r, w') \<Longrightarrow> w_calls w' = w_calls w"
  by (auto simp: store_put_def Let_def io_defs split: sum.splits prod.splits)

lemma store_put_get:
  assumes "store_put root data w = (Inr dg, w')"
  shows "store_get root dg (w_fs w') = Inr data"
  using assms read_written by (auto simp: store_put_Inr store_get_def Let_def)

interpretation file_store: content_store "store_put root" "store_get root" sha256_hex for root :: path
  by unfold_locales (auto simp: store_put_get store_put_calls, simp add: store_put_Inr)

lemma store_resolve_handle: "store_resolve root (recovery_handle dg) fs = store_get root dg fs"
  by (simp add: store_resolve_def starts_with_def recovery_handle_def)

text \<open>A digest is one path component.\<close>

lemma hex_no_special: "list_all is_hex s \<Longrightarrow> CHR ''/'' \<notin> set s \<and> CHR ''.'' \<notin> set s \<and> CHR 0x00 \<notin> set s"
  by (auto simp: list_all_iff is_hex_def is_digit_def)

lemma path_join_digest: "path_join root (sha256_hex d) = root @ [sha256_hex d]"
proof -
  note n = hex_no_special [OF sha256_hex_hex [of d]]
  have "sha256_hex d \<noteq> []" using length_sha256_hex [of d] by auto
  moreover have "\<not> is_absolute (sha256_hex d)"
    using n by (cases "sha256_hex d") (auto simp: is_absolute_def starts_with_def)
  moreover have "sha256_hex d \<noteq> ''.''" using n by auto
  ultimately show ?thesis using n by (simp add: path_join_def path_parts_def split_on_none)
qed

lemma store_put_total:
  assumes "usable_dir (w_fs w) root" "link_free (w_fs w) (root @ [sha256_hex d])"
    and "w_fs w (root @ [sha256_hex d]) \<noteq> Some Dir"
  shows "\<exists>w'. store_put root d w = (Inr (sha256_hex d), w')"
proof -
  let ?fs = "with_dirs (w_fs w) root" and ?p = "root @ [sha256_hex d]"
  have m: "mkdirs (w_fs w) root = Inr ?fs" using assms(1) by (rule mkdirs_total)
  have "parents_exist ?fs ?p" using mkdirs_link_free [OF _ m] assms(1) by (simp add: usable_dir_def)
  moreover have "?fs ?p \<noteq> Some Dir" using assms(3) by (simp add: with_dirs_def)
  ultimately have "write_bytes ?fs ?p d = Inr (?fs(?p \<mapsto> File d))"
    by (intro write_total link_free_with_dirs assms(2)) simp_all
  then show ?thesis using m by (auto simp: store_put_Inr path_join_digest)
qed

section \<open>The pipeline\<close>

lemma compress_ok:
  "compress_for_context z text tier mx ex = Inr c \<Longrightarrow>
     \<not> has_surrogate text \<and> cr_original_digest c = sha256_hex text
     \<and> cr_recovery_handle c = recovery_handle (sha256_hex text)
     \<and> (cr_applied c \<longleftrightarrow> tier = UNTRUSTED \<and> mx < int (length text))
     \<and> cr_context_text c = (if cr_applied c then excerpt text ex else text)"
  by (auto simp: compress_for_context_def bindR_eq_Inr Let_def split: if_splits)

lemma process_tool_output_Inr:
  assumes "process_tool_output z root text action actor rid aid t tier sens mx aref pref links w = (Inr out, w')"
  obtains c where "tier \<noteq> SENSITIVE" "compress_for_context z text tier mx DEFAULT_EXCERPT_BYTES = Inr c"
    "store_put root text w = (Inr (sha256_hex text), w')"
    "out = \<lparr>to_record = build_evidence_record aid t actor rid action tier sens (Some (sha256_hex text))
        (Some (case aref of None \<Rightarrow> recovery_handle (sha256_hex text) | Some r \<Rightarrow> r)) pref (Some c) links,
       to_context_text = cr_context_text c, to_digest = sha256_hex text\<rparr>"
proof -
  have tier: "tier \<noteq> SENSITIVE" using assms by (auto simp: process_tool_output_def raiseW_def)
  from assms tier obtain c raw dg w1 where c: "compress_for_context z text tier mx DEFAULT_EXCERPT_BYTES = Inr c"
      and raw: "encode_utf8 text = Inr raw" and put: "store_put root raw w = (Inr dg, w1)"
      and rest: "(if dg \<noteq> cr_original_digest c then raiseW (AssertionError ''evidence store digest mismatch'')
        else returnW \<lparr>to_record = build_evidence_record aid t actor rid action tier sens (Some dg)
          (Some (case aref of None \<Rightarrow> cr_recovery_handle c | Some r \<Rightarrow> r)) pref (Some c) links,
          to_context_text = cr_context_text c, to_digest = dg\<rparr>) w1 = (Inr out, w')"
    unfolding process_tool_output_def if_not_P [OF tier] bindW_Inr liftW_def by auto
  from raw have "raw = text" by simp
  moreover have "dg = sha256_hex raw" using put by (rule file_store.put_key)
  moreover note compress_ok [OF c]
  ultimately show ?thesis using that [OF tier c] put rest by (simp add: returnW_def cong: option.case_cong)
qed

lemma process_tool_output_total:
  assumes "tier \<noteq> SENSITIVE" "\<not> has_surrogate text" "store_put root text w = (Inr dg, w')"
  shows "\<exists>out. process_tool_output z root text action actor rid aid t tier sens mx aref pref links w = (Inr out, w')"
proof -
  obtain c where c: "compress_for_context z text tier mx DEFAULT_EXCERPT_BYTES = Inr c"
    using assms(2) by (cases "compress_for_context z text tier mx DEFAULT_EXCERPT_BYTES")
      (auto simp: compress_for_context_def encode_utf8_def Let_def split: if_splits)
  have "dg = cr_original_digest c" using compress_ok [OF c] file_store.put_key [OF assms(3)] by simp
  then show ?thesis
    using assms by (simp add: process_tool_output_def c liftW_def bindW_def encode_utf8_def returnW_def)
qed

lemma dget_set_opt_same: "dget d k = None \<Longrightarrow> dget (set_opt k v d) k = map_option PStr v"
  by (simp add: set_opt_def split: option.splits)

lemma dget_set_opt_other: "k \<noteq> k' \<Longrightarrow> dget (set_opt k v d) k' = dget d k'"
  by (simp add: set_opt_def split: option.splits)

lemma record_fields:
  "dget (build_evidence_record aid t actor rid action tier sens dg aref pref c links) ''artifact_digest'' = map_option PStr dg"
  "dget (build_evidence_record aid t actor rid action tier sens dg aref pref c links) ''artifact_ref'' = map_option PStr aref"
  "dget (build_evidence_record aid t actor rid action tier sens dg aref pref c links) ''policy_decision_ref'' = map_option PStr pref"
  "dget (build_evidence_record aid t actor rid action tier sens dg aref pref c links) ''run_id'' = Some (PStr rid)"
  "dget (build_evidence_record aid t actor rid action tier sens dg aref pref c links) ''id'' = Some (PStr aid)"
  "dget (build_evidence_record aid t actor rid action tier sens dg aref pref c links) ''action'' = Some (PStr action)"
  "dget (build_evidence_record aid t actor rid action tier sens dg aref pref c links) ''actor'' = Some (PDict actor)"
  by (cases c; cases "links = []";
      simp add: build_evidence_record_def Let_def dget_set_opt_same dget_set_opt_other)+

text \<open>
  C19: after a successful capture the byte-exact original can be read from the store under the
  digest in the evidence record, and through the record's recovery handle; nothing left the
  process. The digest is the SHA-256 of the text that was captured.
\<close>

theorem captured_output_recoverable:
  assumes "process_tool_output z root text action actor rid aid t tier sens mx None pref links w = (Inr out, w')"
  shows "dget (to_record out) ''artifact_digest'' = Some (PStr (sha256_hex text))
    \<and> store_get root (sha256_hex text) (w_fs w') = Inr text
    \<and> (\<exists>handle. dget (to_record out) ''artifact_ref'' = Some (PStr handle)
         \<and> store_resolve root handle (w_fs w') = Inr text)
    \<and> w_calls w' = w_calls w"
  using assms
proof (rule process_tool_output_Inr)
  fix c assume put: "store_put root text w = (Inr (sha256_hex text), w')"
    and out: "out = \<lparr>to_record = build_evidence_record aid t actor rid action tier sens (Some (sha256_hex text))
        (Some (case None of None \<Rightarrow> recovery_handle (sha256_hex text) | Some r \<Rightarrow> r)) pref (Some c) links,
       to_context_text = cr_context_text c, to_digest = sha256_hex text\<rparr>"
  show ?thesis
    using file_store.put_get [OF put] file_store.put_calls [OF put]
    by (simp add: out record_fields store_resolve_handle)
qed

text \<open>
  Sensitive content never enters the context or the store: the capture raises before
  anything is compressed, stored or recorded, and leaves the world as it was.
\<close>

theorem sensitive_content_refused:
  "\<exists>m. process_tool_output z root text action actor rid aid t SENSITIVE sens mx aref pref links w
     = (Inl (SensitiveContentError m), w)"
  by (simp add: process_tool_output_def raiseW_def)

section \<open>Bounds on the context\<close>

lemma length_decode_replace: "length (decode_replace s) \<le> 3 * length s"
proof (induction s rule: decode_replace.induct)
  case (2 a s)
  have *: "length replacement = 3" by (simp add: replacement_def)
  have "n \<le> length s" if "good_tail a s = n" for n
    using that length_takeWhile_le [of is_cont "take (tail_bytes a - 1) (tl s)"]
    by (auto simp: good_tail_def split: list.splits if_splits)
  then show ?case using 2 * by (auto simp: Let_def split: if_splits)
qed simp

lemma excerpt_ends:
  assumes "0 < e" "2 * e \<le> int (length raw)"
  shows "\<exists>head mid tail. raw = head @ mid @ tail \<and> length head = nat e \<and> length tail = nat e
     \<and> excerpt raw e = decode_replace (head @ excerpt_marker (int (length mid)) @ tail)"
proof -
  let ?n = "nat e"
  have n: "2 * ?n \<le> length raw" "0 < ?n" using assms by auto
  let ?h = "take ?n raw" and ?m = "take (length raw - 2 * ?n) (drop ?n raw)" and ?t = "drop (length raw - ?n) raw"
  have "slice_to e raw = ?h" "slice_from (- e) raw = ?t"
    using assms by (auto simp: slice_to_def slice_from_def slice_index_def nat_diff_distrib')
  moreover have "raw = ?h @ ?m @ ?t"
  proof -
    have "length raw - 2 * ?n + ?n = length raw - ?n" using n by linarith
    then have "?t = drop (length raw - 2 * ?n) (drop ?n raw)" by (simp add: drop_drop)
    then show ?thesis by (metis append_take_drop_id)
  qed
  moreover have "int (length raw) - int (length ?h) - int (length ?t) = int (length ?m)" using n by simp
  ultimately show ?thesis
    using n by (intro exI [of _ ?h] exI [of _ ?m] exI [of _ ?t]) (simp add: excerpt_def Let_def)
qed

lemma excerpt_bound:
  assumes "0 < e" "2 * e \<le> int (length raw)"
  shows "length (excerpt raw e) \<le> 3 * (2 * nat e + length (excerpt_marker (int (length raw) - 2 * e)))"
proof -
  from excerpt_ends [OF assms] obtain head mid tail where *: "raw = head @ mid @ tail"
      "length head = nat e" "length tail = nat e"
      "excerpt raw e = decode_replace (head @ excerpt_marker (int (length mid)) @ tail)"
    by blast
  then have mid: "int (length mid) = int (length raw) - 2 * e" using assms(1) by simp
  have "length (excerpt raw e) \<le> 3 * length (head @ excerpt_marker (int (length mid)) @ tail)"
    unfolding *(4) by (rule length_decode_replace)
  moreover have "3 * (k + (m + k)) = 3 * (2 * k + m)" for k m :: nat by simp
  ultimately show ?thesis unfolding mid length_append *(2,3) by (simp only:)
qed

text \<open>
  C40: large untrusted output enters the context as its first and last 2048 bytes around a marker
  that counts what was left out, whatever its size, provided the limit is at least twice the
  excerpt (the default is four times); smaller or trusted output enters unchanged.
\<close>

theorem context_is_bounded:
  assumes "process_tool_output z root text action actor rid aid t tier sens mx aref pref links w = (Inr out, w')"
    and "2 * DEFAULT_EXCERPT_BYTES \<le> mx"
  shows "if tier = UNTRUSTED \<and> mx < int (length text)
    then (\<exists>head mid tail. text = head @ mid @ tail \<and> length head = 2048 \<and> length tail = 2048
        \<and> to_context_text out = decode_replace (head @ excerpt_marker (int (length mid)) @ tail))
      \<and> length (to_context_text out) \<le> 3 * (4096 + length (excerpt_marker (int (length text) - 4096)))
    else to_context_text out = text"
  using assms(1)
proof (rule process_tool_output_Inr)
  fix c assume c: "compress_for_context z text tier mx DEFAULT_EXCERPT_BYTES = Inr c"
    and out: "out = \<lparr>to_record = build_evidence_record aid t actor rid action tier sens (Some (sha256_hex text))
        (Some (case aref of None \<Rightarrow> recovery_handle (sha256_hex text) | Some r \<Rightarrow> r)) pref (Some c) links,
       to_context_text = cr_context_text c, to_digest = sha256_hex text\<rparr>"
  show ?thesis
  proof (cases "tier = UNTRUSTED \<and> mx < int (length text)")
    case True
    then have e: "0 < DEFAULT_EXCERPT_BYTES" "2 * DEFAULT_EXCERPT_BYTES \<le> int (length text)"
      using assms(2) by (simp_all add: DEFAULT_EXCERPT_BYTES_def)
    have "to_context_text out = excerpt text DEFAULT_EXCERPT_BYTES" using compress_ok [OF c] True out by simp
    then show ?thesis
      using True excerpt_ends [OF e] excerpt_bound [OF e] by (simp add: DEFAULT_EXCERPT_BYTES_def)
  next
    case False
    then show ?thesis using compress_ok [OF c] out by auto
  qed
qed

section \<open>Witnesses\<close>

definition empty_world :: world where
  "empty_world = \<lparr>w_fs = Map.empty, w_calls = []\<rparr>"

lemma empty_world_usable:
  "list_all (\<lambda>c. c \<noteq> dotdot \<and> \<not> List.member c CHR 0x00) p \<Longrightarrow> usable_dir (w_fs empty_world) p"
  "list_all (\<lambda>c. c \<noteq> dotdot \<and> \<not> List.member c CHR 0x00) p \<Longrightarrow> link_free (w_fs empty_world) p"
  by (auto simp: usable_dir_def link_free_def empty_world_def)

lemma demo_store: "\<exists>w'. store_put [''ev''] d empty_world = (Inr (sha256_hex d), w')"
proof (rule store_put_total)
  have "sha256_hex d \<noteq> dotdot" "\<not> List.member (sha256_hex d) CHR 0x00"
    using hex_no_special [OF sha256_hex_hex [of d]] by auto
  then show "link_free (w_fs empty_world) ([''ev''] @ [sha256_hex d])" by (intro empty_world_usable(2)) simp
  show "usable_dir (w_fs empty_world) [''ev'']" by (intro empty_world_usable(1)) simp
qed (simp add: empty_world_def)

lemma demo_capture:
  assumes "\<not> has_surrogate text"
  shows "\<exists>out w'. process_tool_output (\<lambda>_. 0) [''ev''] text ''tool.x'' [] ''R'' ''E'' ''T'' UNTRUSTED ''none'' 8192
     None (Some ''D'') [] empty_world = (Inr out, w')"
proof -
  obtain w' where "store_put [''ev''] text empty_world = (Inr (sha256_hex text), w')" using demo_store by blast
  from process_tool_output_total [OF _ assms this] show ?thesis by blast
qed

theorem captured_output_recoverable_witness:
  "\<exists>out w' handle. process_tool_output (\<lambda>_. 0) [''ev''] ''hello'' ''tool.x'' [] ''R'' ''E'' ''T'' UNTRUSTED
      ''none'' 8192 None (Some ''D'') [] empty_world = (Inr out, w')
     \<and> dget (to_record out) ''artifact_digest'' = Some (PStr (sha256_hex ''hello''))
     \<and> store_get [''ev''] (sha256_hex ''hello'') (w_fs w') = Inr ''hello''
     \<and> dget (to_record out) ''artifact_ref'' = Some (PStr handle) \<and> store_resolve [''ev''] handle (w_fs w') = Inr ''hello''
     \<and> w_calls w' = []"
proof -
  obtain out w' where o: "process_tool_output (\<lambda>_. 0) [''ev''] ''hello'' ''tool.x'' [] ''R'' ''E'' ''T'' UNTRUSTED
      ''none'' 8192 None (Some ''D'') [] empty_world = (Inr out, w')"
    using demo_capture [of "''hello''"] by (auto simp: no_surrogate_ascii)
  have "w_calls empty_world = []" by (simp add: empty_world_def)
  with captured_output_recoverable [OF o] o show ?thesis by metis
qed

theorem context_is_bounded_witness:
  "\<exists>out w'. process_tool_output (\<lambda>_. 0) [''ev''] (replicate 10000 CHR ''a'') ''tool.x'' [] ''R'' ''E'' ''T'' UNTRUSTED
      ''none'' 8192 None (Some ''D'') [] empty_world = (Inr out, w')
     \<and> length (to_context_text out) \<le> 3 * (4096 + length (excerpt_marker 5904))"
proof -
  have "is_ascii (replicate n CHR ''a'')" for n by (induction n) simp_all
  then obtain out w' where *: "process_tool_output (\<lambda>_. 0) [''ev''] (replicate 10000 CHR ''a'') ''tool.x'' [] ''R''
      ''E'' ''T'' UNTRUSTED ''none'' 8192 None (Some ''D'') [] empty_world = (Inr out, w')"
    using demo_capture no_surrogate_ascii by blast
  have "length (to_context_text out) \<le> 3 * (4096 + length (excerpt_marker (int (length (replicate 10000 CHR ''a'')) - 4096)))"
    using context_is_bounded [OF *] by (simp only: length_replicate DEFAULT_EXCERPT_BYTES_def) simp
  with * show ?thesis by (intro exI conjI) (assumption, simp)
qed

end
