(* ===== verification/Tools.thy ===== *)
theory Tools
  imports World
begin

text \<open>
  The allowlisted tool registry (\<open>tools/registry.py\<close>): tool specifications with their schemas and
  handlers, registration, lookup, and the validation of arguments and results.

  JSON Schema validation is done by the third-party \<open>jsonschema\<close> package: the argument
  \<open>iter_errors\<close> gives the violations of a schema by an instance, or the exception that the
  package raises. A handler is a function of the arguments and the world.

  What the clients of a registry rely on is the locale \<open>unique_registry\<close>: registration never
  replaces an entry. It is interpreted here on the tool registry and later on the skill registry.
\<close>

section \<open>Registries without replacement\<close>

text \<open>Registering several entries in order, stopping at the first exception.\<close>

fun foldR :: "('v \<Rightarrow> 's \<Rightarrow> 's result) \<Rightarrow> 'v list \<Rightarrow> 's \<Rightarrow> 's result" where
  "foldR f [] s = Inr s"
| "foldR f (v # vs) s = bindR (f v s) (foldR f vs)"

locale unique_registry =
  fixes register :: "'v \<Rightarrow> 's \<Rightarrow> 's result"
    and lookup :: "'s \<Rightarrow> string \<Rightarrow> 'v option"
    and name :: "'v \<Rightarrow> string"
    and admissible :: "'v \<Rightarrow> bool"
  assumes register_fresh: "admissible v \<Longrightarrow> lookup s (name v) = None \<Longrightarrow> \<exists>s'. register v s = Inr s'"
    and register_only_fresh: "register v s = Inr s' \<Longrightarrow> admissible v \<and> lookup s (name v) = None"
    and lookup_register: "register v s = Inr s' \<Longrightarrow> lookup s' k = (if k = name v then Some v else lookup s k)"
begin

lemma register_keeps: "register v s = Inr s' \<Longrightarrow> lookup s k = Some u \<Longrightarrow> lookup s' k = Some u"
  using register_only_fresh lookup_register by fastforce

lemma register_all_keeps: "foldR register vs s = Inr s' \<Longrightarrow> lookup s k = Some u \<Longrightarrow> lookup s' k = Some u"
  by (induction vs arbitrary: s) (auto simp: bindR_eq_Inr dest: register_keeps)

lemma register_all_lookup: "foldR register vs s = Inr s' \<Longrightarrow> v \<in> set vs \<Longrightarrow> lookup s' (name v) = Some v"
proof (induction vs arbitrary: s)
  case (Cons u vs)
  then obtain s1 where s1: "register u s = Inr s1" "foldR register vs s1 = Inr s'" by (auto simp: bindR_eq_Inr)
  show ?case
  proof (cases "v \<in> set vs")
    case True
    then show ?thesis using Cons.IH [OF s1(2)] by blast
  next
    case False
    then have "lookup s1 (name v) = Some v" using Cons.prems(2) lookup_register [OF s1(1)] by simp
    then show ?thesis using register_all_keeps [OF s1(2)] by blast
  qed
qed simp

lemma register_all_lookup_only:
  "foldR register vs s = Inr s' \<Longrightarrow> lookup s' k = Some v \<Longrightarrow> lookup s k = Some v \<or> v \<in> set vs \<and> k = name v"
proof (induction vs arbitrary: s)
  case (Cons u vs)
  then obtain s1 where "register u s = Inr s1" "foldR register vs s1 = Inr s'" by (auto simp: bindR_eq_Inr)
  with Cons.IH [of s1] Cons.prems(2) lookup_register [of u s s1 k] show ?case
    by (auto split: if_splits)
qed simp

lemma register_all_distinct: "foldR register vs s = Inr s' \<Longrightarrow> distinct (map name vs)"
proof (induction vs arbitrary: s)
  case (Cons u vs)
  then obtain s1 where s1: "register u s = Inr s1" "foldR register vs s1 = Inr s'" by (auto simp: bindR_eq_Inr)
  have "lookup s1 (name u) = Some u" using lookup_register [OF s1(1)] by simp
  have "name u \<noteq> name v" if "v \<in> set vs" for v
  proof
    assume eq: "name u = name v"
    from that obtain xs ys where vs: "vs = xs @ v # ys" by (metis split_list)
    have app: "foldR register (xs @ zs) s1 = bindR (foldR register xs s1) (foldR register zs)" for zs
      by (induction xs arbitrary: s1) (simp_all add: bindR_assoc fun_eq_iff bindR_def split: sum.splits)
    from s1(2) vs obtain s2 s3 where "foldR register xs s1 = Inr s2" "register v s2 = Inr s3"
      by (auto simp: app bindR_eq_Inr)
    then show False
      using register_all_keeps [OF _ \<open>lookup s1 (name u) = Some u\<close>] register_only_fresh eq by fastforce
  qed
  then show ?case using Cons.IH [OF s1(2)] by auto
qed simp

end

section \<open>Validation\<close>

text \<open>A step into a document: an array index or an object key; indices sort before keys.\<close>

datatype path_elem = Index nat | Key string

instantiation path_elem :: linorder
begin

fun less_eq_path_elem :: "path_elem \<Rightarrow> path_elem \<Rightarrow> bool" where
  "Index m \<le> Index n \<longleftrightarrow> m \<le> n"
| "Index m \<le> Key k \<longleftrightarrow> True"
| "Key k \<le> Index n \<longleftrightarrow> False"
| "Key k \<le> Key l \<longleftrightarrow> k \<le> l"

definition less_path_elem :: "path_elem \<Rightarrow> path_elem \<Rightarrow> bool" where
  "less_path_elem a b \<longleftrightarrow> a \<le> b \<and> \<not> b \<le> a"

instance
proof
  fix a b c :: path_elem
  show "a < b \<longleftrightarrow> a \<le> b \<and> \<not> b \<le> a" by (simp add: less_path_elem_def)
  show "a \<le> a" by (cases a) auto
  show "a \<le> b \<Longrightarrow> b \<le> c \<Longrightarrow> a \<le> c" by (cases a; cases b; cases c) auto
  show "a \<le> b \<Longrightarrow> b \<le> a \<Longrightarrow> a = b" by (cases a; cases b) auto
  show "a \<le> b \<or> b \<le> a" by (cases a; cases b) auto
qed

end

record schema_error =
  se_path :: "path_elem list"
  se_message :: string

fun path_elem_str :: "path_elem \<Rightarrow> string" where
  "path_elem_str (Index n) = dec_nat n"
| "path_elem_str (Key k) = k"

definition error_text :: "schema_error \<Rightarrow> string" where
  "error_text e = (let p = join ''/'' (map path_elem_str (se_path e))
     in (if p = [] then ''<root>'' else p) @ '': '' @ se_message e)"

type_synonym iter_errors = "pydict \<Rightarrow> pyval \<Rightarrow> schema_error list result"

definition validate_instance :: "iter_errors \<Rightarrow> pyval \<Rightarrow> pydict \<Rightarrow> string list result" where
  "validate_instance iter_errors value schema =
     bindR (iter_errors schema value) (\<lambda>errors. Inr (map error_text (sort_key se_path errors)))"

lemma validate_instance_ok: "validate_instance ie v s = Inr [] \<longleftrightarrow> ie s v = Inr []"
  by (auto simp: validate_instance_def bindR_eq_Inr dest: arg_cong [where f = length])

section \<open>Tools\<close>

type_synonym handler = "pydict \<Rightarrow> pydict io"

record tool_spec =
  ts_name :: string
  ts_scope :: string
  ts_description :: string
  ts_args_schema :: pydict
  ts_result_schema :: pydict
  ts_handler :: handler

type_synonym tool_registry = "tool_spec dict"

definition tool_register :: "tool_spec \<Rightarrow> tool_registry \<Rightarrow> tool_registry result" where
  "tool_register spec tools =
     (if ts_name spec = [] then Inl (ValueError ''tool name must be non-empty'')
      else if dget tools (ts_name spec) \<noteq> None
      then Inl (ValueError (''tool already registered: '' @ ts_name spec))
      else Inr (dset (ts_name spec) spec tools))"

definition tool_get :: "tool_registry \<Rightarrow> string \<Rightarrow> tool_spec result" where
  "tool_get tools name = (case dget tools name of None \<Rightarrow> Inl (UnknownToolError name) | Some spec \<Rightarrow> Inr spec)"

definition tool_names :: "tool_registry \<Rightarrow> string list" where
  "tool_names tools = sort (dkeys tools)"

definition tool_contains :: "tool_registry \<Rightarrow> string \<Rightarrow> bool" where
  "tool_contains tools name \<longleftrightarrow> dget tools name \<noteq> None"

definition make_tool ::
    "string \<Rightarrow> string \<Rightarrow> string \<Rightarrow> handler \<Rightarrow> pydict option \<Rightarrow> pydict option \<Rightarrow> tool_spec" where
  "make_tool name scope description handler args_schema result_schema =
     (let default = [(''type'', PStr ''object'')];
          pick = (\<lambda>s. case s of None \<Rightarrow> default | Some [] \<Rightarrow> default | Some d \<Rightarrow> d)
      in \<lparr>ts_name = name, ts_scope = scope, ts_description = description,
          ts_args_schema = pick args_schema, ts_result_schema = pick result_schema, ts_handler = handler\<rparr>)"

interpretation tool_reg: unique_registry tool_register dget ts_name "\<lambda>spec. ts_name spec \<noteq> []"
  by unfold_locales (auto simp: tool_register_def split: if_splits)

text \<open>The invariant: keys are distinct, non-empty, and each is the name of its tool.\<close>

definition tools_wf :: "tool_registry \<Rightarrow> bool" where
  "tools_wf tools \<longleftrightarrow> dict_wf tools \<and> (\<forall>(k, spec) \<in> set tools. k = ts_name spec \<and> k \<noteq> [])"

lemma tools_wf_Nil: "tools_wf []"
  by (simp add: tools_wf_def)

lemma tool_register_wf: "tool_register spec tools = Inr tools' \<Longrightarrow> tools_wf tools \<Longrightarrow> tools_wf tools'"
proof -
  assume r: "tool_register spec tools = Inr tools'" and wf: "tools_wf tools"
  from r have "ts_name spec \<noteq> []" "ts_name spec \<notin> set (dkeys tools)" "tools' = dset (ts_name spec) spec tools"
    by (auto simp: tool_register_def map_of_eq_None_iff split: if_splits)
  with wf show "tools_wf tools'" by (auto simp: tools_wf_def dset_fresh dict_wf_def)
qed

lemma register_all_wf: "foldR tool_register specs tools = Inr tools' \<Longrightarrow> tools_wf tools \<Longrightarrow> tools_wf tools'"
  by (induction specs arbitrary: tools) (auto simp: bindR_eq_Inr dest: tool_register_wf)

lemma tool_get_name: "tools_wf tools \<Longrightarrow> tool_get tools n = Inr spec \<Longrightarrow> ts_name spec = n"
  by (auto simp: tool_get_def tools_wf_def split: option.splits dest: map_of_SomeD)

text \<open>
  A registry built by registering a list of tools holds exactly these tools, each under its
  own non-empty name, no two under the same name; a tool once registered is never replaced, and
  \<open>names\<close> lists the names in strictly increasing order.
\<close>

theorem registered_tools_exact:
  assumes "foldR tool_register specs [] = Inr tools"
  shows "distinct (map ts_name specs)
    \<and> (\<forall>n spec. tool_get tools n = Inr spec \<longleftrightarrow> spec \<in> set specs \<and> ts_name spec = n)
    \<and> tools_wf tools \<and> sorted_wrt (<) (tool_names tools)
    \<and> set (tool_names tools) = ts_name ` set specs"
proof -
  have wf: "tools_wf tools" using register_all_wf [OF assms tools_wf_Nil] .
  have get: "tool_get tools n = Inr spec \<longleftrightarrow> spec \<in> set specs \<and> ts_name spec = n" for n spec
    using tool_reg.register_all_lookup [OF assms] tool_reg.register_all_lookup_only [OF assms, of n spec]
    by (auto simp: tool_get_def split: option.splits)
  have "sorted_wrt (<) (tool_names tools)"
    using wf by (simp add: tool_names_def strict_sorted_iff tools_wf_def dict_wf_def)
  moreover have "set (tool_names tools) = ts_name ` set specs"
  proof -
    have "n \<in> set (dkeys tools) \<longleftrightarrow> (\<exists>spec. tool_get tools n = Inr spec)" for n
      using map_of_eq_None_iff [of tools n] by (cases "dget tools n") (simp_all add: tool_get_def)
    then have "n \<in> set (dkeys tools) \<longleftrightarrow> n \<in> ts_name ` set specs" for n using get by (metis imageE imageI)
    then show ?thesis unfolding tool_names_def set_sort by blast
  qed
  ultimately show ?thesis using wf get tool_reg.register_all_distinct [OF assms] by blast
qed

definition demo_tool :: tool_spec where
  "demo_tool = make_tool ''echo'' ''workspace'' ''Echo'' (\<lambda>args. returnW args) None None"

theorem registered_tools_exact_witness:
  "\<exists>tools. foldR tool_register [demo_tool] [] = Inr tools \<and> tool_get tools ''echo'' = Inr demo_tool"
proof -
  have r: "foldR tool_register [demo_tool] [] = Inr [(''echo'', demo_tool)]"
    by (simp add: tool_register_def demo_tool_def make_tool_def Let_def)
  have "ts_name demo_tool = ''echo''" by (simp add: demo_tool_def make_tool_def Let_def)
  with registered_tools_exact [OF r] r show ?thesis by auto
qed

end
