(* ===== verification/Executor.thy ===== *)
theory Executor
  imports RunRegistry Policy Evidence Tools
begin

text \<open>
  The runner-executor (\<open>runner/executor.py\<close>): a tool call passes the policy, the capability check,
  the lookup in the allowlist, the scope of the tool and the validation of its arguments before
  its handler runs; the result is validated, and every outcome is recorded as evidence.

  The executor's collaborators are the fields of the record \<open>executor\<close>; the clock is an argument
  of the call. The lemmas show that a handler runs only behind all gates, that a refused call
  changes nothing but the evidence store, and that every call that returns has a retrievable
  evidence record tied to its policy decision. Two theorems at the end pin down behaviours worth
  knowing: the capability is not tied to the run the call is made for, and a call whose arguments
  cannot be encoded runs its handler without leaving a record.
\<close>

section \<open>Model\<close>

definition POLICY_POINT :: string where "POLICY_POINT = ''pre-tool-call''"
definition REASON_EXECUTED :: string where "REASON_EXECUTED = ''EXECUTED''"
definition REASON_UNKNOWN_TOOL :: string where "REASON_UNKNOWN_TOOL = ''UNKNOWN_TOOL''"
definition REASON_INVALID_ARGS :: string where "REASON_INVALID_ARGS = ''INVALID_TOOL_ARGS''"
definition REASON_INVALID_RESULT :: string where "REASON_INVALID_RESULT = ''INVALID_TOOL_RESULT''"
definition REASON_EXECUTION_FAILED :: string where "REASON_EXECUTION_FAILED = ''EXECUTION_FAILED''"

text \<open>\<open>SCOPE_MISMATCH\<close> is the same text as in the capability layer.\<close>

record execution_result =
  xr_allowed :: bool
  xr_reason :: string
  xr_decision :: pydict
  xr_evidence :: pydict
  xr_output :: "pydict option"

record executor =
  ex_policy :: evaluator
  ex_capabilities :: run_registry
  ex_tools :: tool_registry
  ex_store :: path
  ex_iter_errors :: iter_errors
  ex_zlib_size :: "string \<Rightarrow> nat"

text \<open>The arguments of one call.\<close>

record tool_call =
  tc_run_id :: string
  tc_token :: string
  tc_tool :: string
  tc_args :: pydict
  tc_scope :: string
  tc_created_at :: string
  tc_decision_id :: string
  tc_evidence_id :: string
  tc_resource :: string

text \<open>The resource that the policy sees: the caller's, else the path arguments.\<close>

definition derive_resource :: "string \<Rightarrow> pydict \<Rightarrow> string" where
  "derive_resource resource args =
     (let r = (if resource \<noteq> [] then resource
               else (let p = dget_or args ''path'' (PStr []) in py_str (if truthy p then p else PStr [])))
      in if r \<noteq> [] then r
         else (case dget_or args ''paths'' PNone of
                 PList items \<Rightarrow> join '','' (map py_str items)
               | _ \<Rightarrow> r))"

definition policy_payload :: "tool_call \<Rightarrow> pydict \<Rightarrow> pydict" where
  "policy_payload call actor =
     [(''tool'', PStr (tc_tool call)), (''path'', PStr (derive_resource (tc_resource call) (tc_args call))),
      (''scope'', PStr (tc_scope call)), (''actor'', PDict actor)]"

definition record_payload :: "tool_call \<Rightarrow> pydict \<Rightarrow> pyval" where
  "record_payload call detail =
     PDict [(''tool'', PStr (tc_tool call)), (''args'', PDict (tc_args call)), (''detail'', PDict detail)]"

definition record_call :: "executor \<Rightarrow> tool_call \<Rightarrow> pydict \<Rightarrow> pydict \<Rightarrow> pydict \<Rightarrow> pydict io" where
  "record_call ex call detail actor decision =
     bindW (liftW (dumps opts_sorted_unicode (record_payload call detail))) (\<lambda>payload.
     bindW (liftW (dindex decision ''id'')) (\<lambda>decision_ref.
     bindW (process_tool_output (ex_zlib_size ex) (ex_store ex) payload (''tool.'' @ tc_tool call) actor
              (tc_run_id call) (tc_evidence_id call) (tc_created_at call) UNTRUSTED ''none''
              DEFAULT_MAX_BYTES None (Some (py_str decision_ref)) []) (\<lambda>outcome.
       returnW (to_record outcome))))"

definition deny :: "executor \<Rightarrow> tool_call \<Rightarrow> string \<Rightarrow> pydict \<Rightarrow> pydict \<Rightarrow> execution_result io" where
  "deny ex call why actor decision =
     bindW (record_call ex call [(''denied'', PStr why)] actor decision) (\<lambda>evidence.
       returnW \<lparr>xr_allowed = False, xr_reason = why, xr_decision = decision, xr_evidence = evidence,
                xr_output = None\<rparr>)"

text \<open>The part of a call after its arguments were validated: \<open>except Exception\<close> catches whatever
  the handler raises.\<close>

definition run_handler :: "executor \<Rightarrow> tool_call \<Rightarrow> tool_spec \<Rightarrow> pydict \<Rightarrow> pydict \<Rightarrow> execution_result io" where
  "run_handler ex call spec actor decision = (\<lambda>w.
     case ts_handler spec (tc_args call) w of
       (Inl e, w1) \<Rightarrow> deny ex call REASON_EXECUTION_FAILED actor decision w1
     | (Inr output, w1) \<Rightarrow>
         bindW (liftW (validate_instance (ex_iter_errors ex) (PDict output) (ts_result_schema spec)))
           (\<lambda>result_errors.
              if result_errors \<noteq> [] then deny ex call REASON_INVALID_RESULT actor decision
              else
                bindW (record_call ex call [(''output'', PDict output)] actor decision) (\<lambda>evidence.
                  returnW \<lparr>xr_allowed = True, xr_reason = REASON_EXECUTED, xr_decision = decision,
                           xr_evidence = evidence, xr_output = Some output\<rparr>)) w1)"

definition execute :: "executor \<Rightarrow> int \<Rightarrow> tool_call \<Rightarrow> execution_result io" where
  "execute ex clock call =
     (case reg_get (ex_capabilities ex) (tc_run_id call) of
        None \<Rightarrow> raiseW (RunUnknownError (tc_run_id call))
      | Some run \<Rightarrow>
          let actor = r_actor run
          in bindW (liftW (ex_policy ex POLICY_POINT (policy_payload call actor))) (\<lambda>policy_result.
             let decision = build_policy_decision policy_result (tc_decision_id call) (tc_created_at call)
                              actor (tc_run_id call) POLICY_POINT []
             in if \<not> pr_allow policy_result then
                  bindW (liftW (case pr_reason_codes policy_result of [] \<Rightarrow> Inl IndexError | c # _ \<Rightarrow> Inr c))
                    (\<lambda>code. deny ex call code actor decision)
                else
                  bindW (liftW (reg_check (ex_capabilities ex) (tc_token call) (tc_tool call) (tc_scope call) None clock))
                    (\<lambda>check.
                     if \<not> chk_valid check then deny ex call (chk_reason check) actor decision
                     else
                       (case tool_get (ex_tools ex) (tc_tool call) of
                          Inl e \<Rightarrow> deny ex call REASON_UNKNOWN_TOOL actor decision
                        | Inr spec \<Rightarrow>
                            (if ts_scope spec \<noteq> tc_scope call
                             then deny ex call REASON_SCOPE_MISMATCH actor decision
                             else
                               bindW (liftW (validate_instance (ex_iter_errors ex) (PDict (tc_args call))
                                              (ts_args_schema spec)))
                                 (\<lambda>arg_errors.
                                    if arg_errors \<noteq> [] then deny ex call REASON_INVALID_ARGS actor decision
                                    else run_handler ex call spec actor decision))))))"

section \<open>The gates\<close>

abbreviation decision_of :: "tool_call \<Rightarrow> pydict \<Rightarrow> policy_result \<Rightarrow> pydict" where
  "decision_of call actor pr \<equiv> build_policy_decision pr (tc_decision_id call) (tc_created_at call) actor
     (tc_run_id call) POLICY_POINT []"

text \<open>Everything that has to hold before a handler may run.\<close>

definition gates_passed :: "executor \<Rightarrow> int \<Rightarrow> tool_call \<Rightarrow> run \<Rightarrow> policy_result \<Rightarrow> tool_spec \<Rightarrow> bool" where
  "gates_passed ex clock call run pr spec \<longleftrightarrow>
     reg_get (ex_capabilities ex) (tc_run_id call) = Some run
   \<and> ex_policy ex POLICY_POINT (policy_payload call (r_actor run)) = Inr pr \<and> pr_allow pr
   \<and> (\<exists>check. reg_check (ex_capabilities ex) (tc_token call) (tc_tool call) (tc_scope call) None clock = Inr check
        \<and> chk_valid check)
   \<and> tool_get (ex_tools ex) (tc_tool call) = Inr spec
   \<and> ts_scope spec = tc_scope call
   \<and> validate_instance (ex_iter_errors ex) (PDict (tc_args call)) (ts_args_schema spec) = Inr []"

lemma execute_gates:
  "gates_passed ex clock call run pr spec \<Longrightarrow>
   execute ex clock call w = run_handler ex call spec (r_actor run) (decision_of call (r_actor run) pr) w"
  by (auto simp: gates_passed_def execute_def Let_def bindW_liftW)

text \<open>The outcomes of a call: an exception before anything happened, a refusal, or a run.\<close>

lemma execute_cases:
  obtains (raised) e where "execute ex clock call w = (Inl e, w)" "\<nexists>run pr spec. gates_passed ex clock call run pr spec"
  | (refused) why run pr where "reg_get (ex_capabilities ex) (tc_run_id call) = Some run"
      "ex_policy ex POLICY_POINT (policy_payload call (r_actor run)) = Inr pr"
      "execute ex clock call w = deny ex call why (r_actor run) (decision_of call (r_actor run) pr) w"
      "\<nexists>run pr spec. gates_passed ex clock call run pr spec"
  | (ran) run pr spec where "gates_passed ex clock call run pr spec"
      "execute ex clock call w = run_handler ex call spec (r_actor run) (decision_of call (r_actor run) pr) w"
proof (cases "\<exists>run pr spec. gates_passed ex clock call run pr spec")
  case True
  then show ?thesis using ran execute_gates by blast
next
  case no: False
  show ?thesis
  proof (cases "reg_get (ex_capabilities ex) (tc_run_id call)")
    case None
    then show ?thesis using raised no by (simp add: execute_def raiseW_def)
  next
    case run: (Some run)
    show ?thesis
    proof (cases "ex_policy ex POLICY_POINT (policy_payload call (r_actor run))")
      case (Inl e)
      then show ?thesis using raised no run by (simp add: execute_def Let_def bindW_liftW raiseW_def)
    next
      case pr: (Inr pr)
      have "(\<exists>e. execute ex clock call w = (Inl e, w))
          \<or> (\<exists>why. execute ex clock call w = deny ex call why (r_actor run) (decision_of call (r_actor run) pr) w)"
        using no run pr
        by (auto simp: execute_def Let_def bindW_liftW raiseW_def gates_passed_def
            split: list.splits sum.splits if_splits)
      then show ?thesis using raised refused no run pr by blast
    qed
  qed
qed

section \<open>Recording\<close>

text \<open>A world that differs at most by one entry of the evidence store.\<close>

definition evidence_only :: "path \<Rightarrow> world \<Rightarrow> world \<Rightarrow> bool" where
  "evidence_only root w w' \<longleftrightarrow> w' = w \<or> (\<exists>data r. store_put root data w = (r, w'))"

lemma evidence_only_calls: "evidence_only root w w' \<Longrightarrow> w_calls w' = w_calls w"
  using file_store.put_calls by (auto simp: evidence_only_def)

lemma process_tool_output_world:
  "process_tool_output z root text action actor rid aid t tier sens mx aref pref links w = (r, w') \<Longrightarrow>
   evidence_only root w w'"
  by (auto simp: process_tool_output_def evidence_only_def bindW_def liftW_def raiseW_def returnW_def
      split: if_splits sum.splits prod.splits)

lemma record_call_world: "record_call ex call detail actor decision w = (r, w') \<Longrightarrow> evidence_only (ex_store ex) w w'"
  unfolding record_call_def bindW_liftW
  by (auto simp: bindW_def raiseW_def returnW_def evidence_only_def
      split: sum.splits prod.splits dest!: process_tool_output_world [unfolded evidence_only_def])

lemma deny_world: "deny ex call why actor decision w = (r, w') \<Longrightarrow> evidence_only (ex_store ex) w w'"
  by (auto simp: deny_def bindW_def returnW_def split: prod.splits sum.splits dest: record_call_world)

text \<open>What a record promises.\<close>

definition recorded :: "executor \<Rightarrow> tool_call \<Rightarrow> pydict \<Rightarrow> pydict \<Rightarrow> pydict \<Rightarrow> world \<Rightarrow> bool" where
  "recorded ex call detail actor evidence w \<longleftrightarrow>
     (let payload = json_dumps opts_sorted_unicode (record_payload call detail)
      in dget evidence ''artifact_digest'' = Some (PStr (sha256_hex payload))
       \<and> store_get (ex_store ex) (sha256_hex payload) (w_fs w) = Inr payload
       \<and> dget evidence ''policy_decision_ref'' = Some (PStr (tc_decision_id call))
       \<and> dget evidence ''id'' = Some (PStr (tc_evidence_id call))
       \<and> dget evidence ''run_id'' = Some (PStr (tc_run_id call))
       \<and> dget evidence ''actor'' = Some (PDict actor)
       \<and> dget evidence ''action'' = Some (PStr (''tool.'' @ tc_tool call)))"

lemma decision_id: "dindex (decision_of call actor pr) ''id'' = Inr (PStr (tc_decision_id call))"
  by (simp add: dindex_def build_policy_decision_def Let_def)

lemma record_call_recorded:
  assumes "record_call ex call detail actor (decision_of call actor pr) w = (Inr evd, w')"
  shows "recorded ex call detail actor evd w'"
proof -
  let ?p = "json_dumps opts_sorted_unicode (record_payload call detail)"
  from assms obtain out where p: "process_tool_output (ex_zlib_size ex) (ex_store ex) ?p (''tool.'' @ tc_tool call) actor
      (tc_run_id call) (tc_evidence_id call) (tc_created_at call) UNTRUSTED ''none'' DEFAULT_MAX_BYTES None
      (Some (tc_decision_id call)) [] w = (Inr out, w')" and evd: "evd = to_record out"
    unfolding record_call_def bindW_liftW decision_id
    by (auto simp: bindW_Inr returnW_def raiseW_def dumps_def split: sum.splits if_splits)
  show ?thesis
    using p
  proof (rule process_tool_output_Inr)
    fix c assume put: "store_put (ex_store ex) ?p w = (Inr (sha256_hex ?p), w')"
      and out: "out = \<lparr>to_record = build_evidence_record (tc_evidence_id call) (tc_created_at call) actor (tc_run_id call)
          (''tool.'' @ tc_tool call) UNTRUSTED ''none'' (Some (sha256_hex ?p))
          (Some (case None of None \<Rightarrow> recovery_handle (sha256_hex ?p) | Some r \<Rightarrow> r)) (Some (tc_decision_id call)) (Some c) [],
        to_context_text = cr_context_text c, to_digest = sha256_hex ?p\<rparr>"
    show ?thesis
      using file_store.put_get [OF put] by (simp add: recorded_def Let_def evd out record_fields)
  qed
qed

lemma deny_Inr:
  assumes "deny ex call why actor (decision_of call actor pr) w = (Inr res, w')"
  shows "\<not> xr_allowed res \<and> xr_reason res = why \<and> xr_decision res = decision_of call actor pr \<and> xr_output res = None
     \<and> recorded ex call [(''denied'', PStr why)] actor (xr_evidence res) w'"
  using assms record_call_recorded by (auto simp: deny_def bindW_Inr returnW_def)

lemma run_handler_Inr:
  assumes "run_handler ex call spec actor (decision_of call actor pr) w = (Inr res, w')"
  obtains (failed) why where "\<not> xr_allowed res" "xr_reason res = why" "xr_output res = None"
      "recorded ex call [(''denied'', PStr why)] actor (xr_evidence res) w'"
      "xr_decision res = decision_of call actor pr" "why = REASON_EXECUTION_FAILED \<or> why = REASON_INVALID_RESULT"
  | (ok) outp w1 where "ts_handler spec (tc_args call) w = (Inr outp, w1)"
      "validate_instance (ex_iter_errors ex) (PDict outp) (ts_result_schema spec) = Inr []"
      "xr_allowed res" "xr_reason res = REASON_EXECUTED" "xr_output res = Some outp"
      "recorded ex call [(''output'', PDict outp)] actor (xr_evidence res) w'"
      "xr_decision res = decision_of call actor pr" "evidence_only (ex_store ex) w1 w'"
proof (cases "ts_handler spec (tc_args call) w")
  case (Pair h w1)
  show ?thesis
  proof (cases h)
    case (Inl e)
    then have "deny ex call REASON_EXECUTION_FAILED actor (decision_of call actor pr) w1 = (Inr res, w')"
      using assms Pair by (simp add: run_handler_def)
    from deny_Inr [OF this] show ?thesis using failed by blast
  next
    case (Inr outp)
    with assms Pair obtain errs where v: "validate_instance (ex_iter_errors ex) (PDict outp) (ts_result_schema spec) = Inr errs"
      and rest: "(if errs \<noteq> [] then deny ex call REASON_INVALID_RESULT actor (decision_of call actor pr)
         else bindW (record_call ex call [(''output'', PDict outp)] actor (decision_of call actor pr)) (\<lambda>evidence.
           returnW \<lparr>xr_allowed = True, xr_reason = REASON_EXECUTED, xr_decision = decision_of call actor pr,
             xr_evidence = evidence, xr_output = Some outp\<rparr>)) w1 = (Inr res, w')"
      by (auto simp: run_handler_def bindW_liftW raiseW_def split: sum.splits)
    show ?thesis
    proof (cases "errs = []")
      case False
      with rest have "deny ex call REASON_INVALID_RESULT actor (decision_of call actor pr) w1 = (Inr res, w')" by simp
      from deny_Inr [OF this] show ?thesis using failed by blast
    next
      case True
      with rest obtain evd where evd: "record_call ex call [(''output'', PDict outp)] actor (decision_of call actor pr) w1 = (Inr evd, w')"
          "res = \<lparr>xr_allowed = True, xr_reason = REASON_EXECUTED, xr_decision = decision_of call actor pr,
             xr_evidence = evd, xr_output = Some outp\<rparr>"
        by (auto simp: bindW_Inr returnW_def)
      then show ?thesis
        using ok Pair Inr v True record_call_recorded [OF evd(1)] record_call_world [OF evd(1)] by simp
    qed
  qed
qed

section \<open>Properties\<close>

text \<open>
  C1: a call is reported as allowed only if it passed every gate: its run is registered, the
  policy allowed it, the capability check succeeded for this tool and scope, the tool is on the
  allowlist, the scope is the tool's own, the arguments satisfy the tool's schema, the handler
  returned, and what it returned satisfies the result schema. The reported output is the
  handler's.
\<close>

theorem allowed_only_through_gates:
  assumes "execute ex clock call w = (Inr res, w')" "xr_allowed res"
  shows "\<exists>run pr spec outp w1. gates_passed ex clock call run pr spec
     \<and> ts_handler spec (tc_args call) w = (Inr outp, w1)
     \<and> validate_instance (ex_iter_errors ex) (PDict outp) (ts_result_schema spec) = Inr []
     \<and> xr_output res = Some outp"
proof (cases rule: execute_cases [of ex clock call w])
  case (raised e)
  then show ?thesis using assms by simp
next
  case (refused why run pr)
  then show ?thesis using assms deny_Inr by metis
next
  case (ran run pr spec)
  then have "run_handler ex call spec (r_actor run) (decision_of call (r_actor run) pr) w = (Inr res, w')"
    using assms by simp
  then show ?thesis by (cases rule: run_handler_Inr) (use ran assms in blast)+
qed

text \<open>
  C2: a call that does not pass the gates has no effect on the world but for at most one entry of
  the evidence store: no handler runs and, after the question to the policy service, nothing leaves
  the process, whether the call returns a denial or raises.
\<close>

theorem refused_call_has_no_effect:
  assumes "execute ex clock call w = (r, w')" "\<nexists>run pr spec. gates_passed ex clock call run pr spec"
  shows "evidence_only (ex_store ex) w w' \<and> w_calls w' = w_calls w \<and> (\<forall>res. r = Inr res \<longrightarrow> \<not> xr_allowed res)"
proof (cases rule: execute_cases [of ex clock call w])
  case (raised e)
  then show ?thesis using assms by (auto simp: evidence_only_def)
next
  case (refused why run pr)
  then have d: "deny ex call why (r_actor run) (decision_of call (r_actor run) pr) w = (r, w')" using assms by simp
  then show ?thesis
    using deny_world [OF d] evidence_only_calls [OF deny_world [OF d]] deny_Inr by blast
next
  case (ran run pr spec)
  then show ?thesis using assms(2) by blast
qed

lemma returned_recorded:
  assumes "execute ex clock call w = (Inr res, w')"
  shows "\<exists>run pr. reg_get (ex_capabilities ex) (tc_run_id call) = Some run
     \<and> ex_policy ex POLICY_POINT (policy_payload call (r_actor run)) = Inr pr
     \<and> xr_decision res = decision_of call (r_actor run) pr
     \<and> (if xr_allowed res
        then (\<exists>outp. xr_output res = Some outp \<and> pr_allow pr
               \<and> recorded ex call [(''output'', PDict outp)] (r_actor run) (xr_evidence res) w')
        else recorded ex call [(''denied'', PStr (xr_reason res))] (r_actor run) (xr_evidence res) w')"
proof (cases rule: execute_cases [of ex clock call w])
  case (raised e)
  then show ?thesis using assms by simp
next
  case (refused why run pr)
  then have "deny ex call why (r_actor run) (decision_of call (r_actor run) pr) w = (Inr res, w')" using assms by simp
  from deny_Inr [OF this] refused show ?thesis by auto
next
  case (ran run pr spec)
  then have g: "reg_get (ex_capabilities ex) (tc_run_id call) = Some run"
      "ex_policy ex POLICY_POINT (policy_payload call (r_actor run)) = Inr pr" "pr_allow pr"
      and h: "run_handler ex call spec (r_actor run) (decision_of call (r_actor run) pr) w = (Inr res, w')"
    using assms by (auto simp: gates_passed_def)
  from h show ?thesis by (cases rule: run_handler_Inr) (use g in auto)
qed

text \<open>
  C3: every call that returns, allowed or not, comes with a policy decision and an evidence record
  that refers to it by its identifier and names the run, the actor registered for it and the tool;
  the JSON text of the call, with the handler's output or the reason of the denial, can be read
  back from the evidence store under the digest in the record.
\<close>

theorem returned_call_is_recorded:
  assumes "execute ex clock call w = (Inr res, w')"
  shows "\<exists>run pr. reg_get (ex_capabilities ex) (tc_run_id call) = Some run
     \<and> ex_policy ex POLICY_POINT (policy_payload call (r_actor run)) = Inr pr
     \<and> xr_decision res = decision_of call (r_actor run) pr
     \<and> (if xr_allowed res
        then (\<exists>outp. xr_output res = Some outp \<and> pr_allow pr
               \<and> recorded ex call [(''output'', PDict outp)] (r_actor run) (xr_evidence res) w')
        else recorded ex call [(''denied'', PStr (xr_reason res))] (r_actor run) (xr_evidence res) w')"
  using assms by (rule returned_recorded)

text \<open>
  With the policy client as its evaluator, the executor never fails on a denial without
  reason codes: a denied call whose evidence can be stored returns a result whose reason is the
  first code of the policy's answer.
\<close>

theorem policy_denial_reported:
  assumes "ex_policy ex = evaluate urlopen client"
    and "reg_get (ex_capabilities ex) (tc_run_id call) = Some run"
    and "ex_policy ex POLICY_POINT (policy_payload call (r_actor run)) = Inr pr" "\<not> pr_allow pr"
  shows "execute ex clock call w =
    deny ex call (hd (pr_reason_codes pr)) (r_actor run) (decision_of call (r_actor run) pr) w"
proof -
  have "pr_reason_codes pr \<noteq> []" using client.ev_codes assms(1,3) by metis
  then obtain c cs where "pr_reason_codes pr = c # cs" by (meson neq_Nil_conv)
  then show ?thesis using assms by (simp add: execute_def Let_def bindW_liftW)
qed

lemma record_call_total:
  assumes "ints_ok (record_payload call detail)" "\<not> has_surrogate (json_dumps opts_sorted_unicode (record_payload call detail))"
    and "store_put (ex_store ex) (json_dumps opts_sorted_unicode (record_payload call detail)) w = (Inr dg, w')"
  shows "\<exists>evd. record_call ex call detail actor (decision_of call actor pr) w = (Inr evd, w')"
proof -
  have d: "dumps opts_sorted_unicode (record_payload call detail) = Inr (json_dumps opts_sorted_unicode (record_payload call detail))"
    using assms(1) by (simp only: dumps_def if_True)
  show ?thesis
    using process_tool_output_total [OF _ assms(2,3), of UNTRUSTED "ex_zlib_size ex" "''tool.'' @ tc_tool call" actor
        "tc_run_id call" "tc_evidence_id call" "tc_created_at call" "''none''" DEFAULT_MAX_BYTES None
        "Some (tc_decision_id call)" "[]"]
    by (auto simp: record_call_def bindW_liftW decision_id d bindW_Inr returnW_def)
qed

lemma gated_executes:
  assumes "gates_passed ex clock call run pr spec" "ts_handler spec (tc_args call) w = (Inr outp, w1)"
    and "validate_instance (ex_iter_errors ex) (PDict outp) (ts_result_schema spec) = Inr []"
    and "ints_ok (record_payload call [(''output'', PDict outp)])"
    and "\<not> has_surrogate (json_dumps opts_sorted_unicode (record_payload call [(''output'', PDict outp)]))"
    and "store_put (ex_store ex) (json_dumps opts_sorted_unicode (record_payload call [(''output'', PDict outp)])) w1 = (Inr dg, w')"
  shows "\<exists>res. execute ex clock call w = (Inr res, w') \<and> xr_allowed res \<and> xr_output res = Some outp"
proof -
  obtain evd where "record_call ex call [(''output'', PDict outp)] (r_actor run) (decision_of call (r_actor run) pr) w1 = (Inr evd, w')"
    using record_call_total [OF assms(4-6)] by blast
  then have "run_handler ex call spec (r_actor run) (decision_of call (r_actor run) pr) w =
     (Inr \<lparr>xr_allowed = True, xr_reason = REASON_EXECUTED, xr_decision = decision_of call (r_actor run) pr,
           xr_evidence = evd, xr_output = Some outp\<rparr>, w')"
    using assms(2,3) by (simp add: run_handler_def io_defs)
  then show ?thesis using execute_gates [OF assms(1)] by simp
qed

text \<open>
  C4: a call that passes the gates, whose handler returns a valid result, and whose record can be
  encoded and stored, is executed: it returns, allowed, with the handler's output.
\<close>

theorem gated_call_executes:
  assumes "gates_passed ex clock call run pr spec" "ts_handler spec (tc_args call) w = (Inr outp, w1)"
    and "validate_instance (ex_iter_errors ex) (PDict outp) (ts_result_schema spec) = Inr []"
    and "ints_ok (record_payload call [(''output'', PDict outp)])"
    and "\<not> has_surrogate (json_dumps opts_sorted_unicode (record_payload call [(''output'', PDict outp)]))"
    and "store_put (ex_store ex) (json_dumps opts_sorted_unicode (record_payload call [(''output'', PDict outp)])) w1 = (Inr dg, w')"
  shows "\<exists>res. execute ex clock call w = (Inr res, w') \<and> xr_allowed res \<and> xr_output res = Some outp"
  using assms by (rule gated_executes)

lemma process_tool_output_surrogate:
  "has_surrogate text \<Longrightarrow> tier \<noteq> SENSITIVE \<Longrightarrow>
   process_tool_output z root text action actor rid aid t tier sens mx aref pref links w = (Inl UnicodeEncodeError, w)"
  by (simp add: process_tool_output_def compress_for_context_def encode_utf8_def io_defs)

text \<open>
  When the text of the record cannot be encoded, because an argument or the output holds a lone
  surrogate, the call raises \<open>UnicodeEncodeError\<close> after its handler ran: the handler's effects stay
  and no evidence of them is stored.
\<close>

theorem unencodable_call_unrecorded:
  assumes "gates_passed ex clock call run pr spec" "ts_handler spec (tc_args call) w = (Inr outp, w1)"
    and "validate_instance (ex_iter_errors ex) (PDict outp) (ts_result_schema spec) = Inr []"
    and "ints_ok (record_payload call [(''output'', PDict outp)])"
    and "has_surrogate (json_dumps opts_sorted_unicode (record_payload call [(''output'', PDict outp)]))"
  shows "execute ex clock call w = (Inl UnicodeEncodeError, w1)"
proof -
  let ?p = "record_payload call [(''output'', PDict outp)]"
  have d: "dumps opts_sorted_unicode ?p = Inr (json_dumps opts_sorted_unicode ?p)"
    using assms(4) by (simp only: dumps_def if_True)
  have "record_call ex call [(''output'', PDict outp)] (r_actor run) (decision_of call (r_actor run) pr) w1
      = (Inl UnicodeEncodeError, w1)"
    by (simp add: record_call_def decision_id d io_defs process_tool_output_surrogate [OF assms(5)])
  then have "run_handler ex call spec (r_actor run) (decision_of call (r_actor run) pr) w = (Inl UnicodeEncodeError, w1)"
    using assms(2,3) by (simp add: run_handler_def io_defs)
  then show ?thesis using execute_gates [OF assms(1)] by simp
qed

section \<open>A concrete deployment\<close>

text \<open>
  Two runs, the second one finished; a tool that starts a program and returns its arguments; a
  policy that allows everything; and a token issued to the first run.
\<close>

definition demo_runs :: run_registry where
  "demo_runs = projr (reg_finish ''RUN-2'' (snd (reg_start [] (Some ''RUN-2'') [] 11 demo_registry)))"

definition probe_tool :: tool_spec where
  "probe_tool = make_tool ''probe'' ''workspace'' ''Probe''
     (\<lambda>args w. (Inr args, w\<lparr>w_calls := RunProgram [''probe''] [] (Inr []) # w_calls w\<rparr>)) None None"

definition demo_result :: policy_result where
  "demo_result = \<lparr>pr_allow = True, pr_reason_codes = [REASON_ALLOWED], pr_bundle_version = ''b1'', pr_input_digest = []\<rparr>"

definition demo_executor :: executor where
  "demo_executor = \<lparr>ex_policy = (\<lambda>_ _. Inr demo_result), ex_capabilities = demo_runs,
     ex_tools = [(''probe'', probe_tool)], ex_store = [''ev''], ex_iter_errors = (\<lambda>_ _. Inr []),
     ex_zlib_size = length\<rparr>"

definition demo_call :: "string \<Rightarrow> string \<Rightarrow> pydict \<Rightarrow> tool_call" where
  "demo_call rid token args = \<lparr>tc_run_id = rid, tc_token = token, tc_tool = ''probe'', tc_args = args,
     tc_scope = ''workspace'', tc_created_at = ''T'', tc_decision_id = ''D'', tc_evidence_id = ''E'', tc_resource = []\<rparr>"

lemma demo_runs_eq:
  "demo_runs = \<lparr>reg_secret = ''k'', reg_runs =
     [(''RUN-1'', \<lparr>r_run_id = ''RUN-1'', r_actor = [], r_created_at = 10, r_finished = False\<rparr>),
      (''RUN-2'', \<lparr>r_run_id = ''RUN-2'', r_actor = [], r_created_at = 11, r_finished = True\<rparr>)]\<rparr>"
  by (simp add: demo_runs_def demo_registry_def reg_start_def reg_finish_def reg_get_def new_registry_def Let_def)

lemma demo_valid_token:
  "\<exists>t res. reg_check demo_runs t ''probe'' ''workspace'' None 20 = Inr res \<and> chk_valid res \<and> chk_run_id res = Some ''RUN-1''"
proof -
  let ?c = "\<lparr>cap_run_id = ''RUN-1'', cap_tool = ''probe'', cap_scope = ''workspace'', cap_expires_at = 310\<rparr>"
  have ok: "cap_ok ?c"
    by (simp add: cap_ok_def token_text_def valid_str_ascii no_surrogate_ascii int_ok_def max_int_digits_def dec_nat.simps)
  obtain t where "issue_token ''k'' ?c = Inr t" using issue_token_total [OF ok] by blast
  then have "decode_token ''k'' t = Inr (Decoded ?c)" by (rule decode_issued [OF ok])
  then have "reg_check demo_runs t ''probe'' ''workspace'' None 20 = Inr (check_claims demo_runs ?c ''probe'' ''workspace'' 20)"
    by (simp add: reg_check_def demo_runs_eq)
  then show ?thesis by (intro exI conjI) (assumption, simp_all add: check_claims_def reg_get_def demo_runs_eq)
qed

lemma demo_gates:
  assumes "reg_check demo_runs t ''probe'' ''workspace'' None 20 = Inr res" "chk_valid res" "rid = ''RUN-1'' \<or> rid = ''RUN-2''"
  shows "\<exists>run. r_actor run = [] \<and> gates_passed demo_executor 20 (demo_call rid t args) run demo_result probe_tool"
  using assms
  by (auto simp: gates_passed_def demo_executor_def demo_call_def demo_result_def reg_get_def demo_runs_eq
      tool_get_def probe_tool_def make_tool_def Let_def validate_instance_def)

lemma demo_put: "\<exists>w'. store_put [''ev''] d (empty_world\<lparr>w_calls := cs\<rparr>) = (Inr (sha256_hex d), w')"
proof (rule store_put_total)
  have "sha256_hex d \<noteq> dotdot" "\<not> List.member (sha256_hex d) CHR 0x00"
    using hex_no_special [OF sha256_hex_hex [of d]] by auto
  then show "link_free (w_fs (empty_world\<lparr>w_calls := cs\<rparr>)) ([''ev''] @ [sha256_hex d])"
    using empty_world_usable(2) by simp
  show "usable_dir (w_fs (empty_world\<lparr>w_calls := cs\<rparr>)) [''ev'']" using empty_world_usable(1) by simp
qed (simp add: empty_world_def)

lemma demo_payload:
  "ints_ok (record_payload (demo_call rid t []) [(''output'', PDict [])])"
  "\<not> has_surrogate (json_dumps opts_sorted_unicode (record_payload (demo_call rid t []) [(''output'', PDict [])]))"
proof -
  show "ints_ok (record_payload (demo_call rid t []) [(''output'', PDict [])])"
    by (simp add: record_payload_def demo_call_def)
  have "is_ascii (json_dumps opts_sorted_unicode (record_payload (demo_call rid t []) [(''output'', PDict [])]))"
    by (simp add: record_payload_def demo_call_def dump_members_def opts_sorted_unicode_def esc_str_def
        esc_byte_def item_sep_def key_sep_def less_char_def)
  then show "\<not> has_surrogate (json_dumps opts_sorted_unicode (record_payload (demo_call rid t []) [(''output'', PDict [])]))"
    by (rule no_surrogate_ascii)
qed

lemma probe_handler: "ts_handler probe_tool args w = (Inr args, w\<lparr>w_calls := RunProgram [''probe''] [] (Inr []) # w_calls w\<rparr>)"
  by (simp add: probe_tool_def make_tool_def Let_def)

lemma demo_validates: "validate_instance (ex_iter_errors demo_executor) v s = Inr []"
  by (simp add: demo_executor_def validate_instance_def)

lemma demo_executes:
  assumes "reg_check demo_runs t ''probe'' ''workspace'' None 20 = Inr chk" "chk_valid chk" "rid = ''RUN-1'' \<or> rid = ''RUN-2''"
  shows "\<exists>res w'. execute demo_executor 20 (demo_call rid t []) empty_world = (Inr res, w') \<and> xr_allowed res"
proof -
  obtain run where g: "gates_passed demo_executor 20 (demo_call rid t []) run demo_result probe_tool"
    using demo_gates [OF assms] by blast
  have "tc_args (demo_call rid t []) = []" "ex_store demo_executor = [''ev'']"
    by (simp_all add: demo_call_def demo_executor_def)
  moreover obtain w' where "store_put [''ev''] (json_dumps opts_sorted_unicode (record_payload (demo_call rid t []) [(''output'', PDict [])]))
      (empty_world\<lparr>w_calls := RunProgram [''probe''] [] (Inr []) # w_calls empty_world\<rparr>) = (Inr (sha256_hex (json_dumps opts_sorted_unicode
        (record_payload (demo_call rid t []) [(''output'', PDict [])]))), w')"
    using demo_put by blast
  ultimately show ?thesis
    using gated_executes [OF g _ demo_validates demo_payload, of empty_world] probe_handler by fastforce
qed

theorem gated_call_executes_witness:
  "\<exists>t res w'. execute demo_executor 20 (demo_call ''RUN-1'' t []) empty_world = (Inr res, w') \<and> xr_allowed res
     \<and> xr_output res = Some []"
proof -
  obtain t chk where t: "reg_check demo_runs t ''probe'' ''workspace'' None 20 = Inr chk" "chk_valid chk"
    using demo_valid_token by blast
  obtain run where g: "gates_passed demo_executor 20 (demo_call ''RUN-1'' t []) run demo_result probe_tool"
    using demo_gates [OF t] by blast
  have h: "ts_handler probe_tool (tc_args (demo_call ''RUN-1'' t [])) empty_world
      = (Inr [], empty_world\<lparr>w_calls := RunProgram [''probe''] [] (Inr []) # w_calls empty_world\<rparr>)"
    by (simp add: probe_handler demo_call_def)
  have "ex_store demo_executor = [''ev'']" by (simp add: demo_executor_def)
  with demo_put obtain w' where p: "store_put (ex_store demo_executor)
      (json_dumps opts_sorted_unicode (record_payload (demo_call ''RUN-1'' t []) [(''output'', PDict [])]))
      (empty_world\<lparr>w_calls := RunProgram [''probe''] [] (Inr []) # w_calls empty_world\<rparr>) = (Inr (sha256_hex (json_dumps opts_sorted_unicode
        (record_payload (demo_call ''RUN-1'' t []) [(''output'', PDict [])]))), w')"
    by metis
  from gated_call_executes [OF g h demo_validates demo_payload p] show ?thesis by blast
qed

theorem allowed_only_through_gates_witness:
  "\<exists>t run pr spec. gates_passed demo_executor 20 (demo_call ''RUN-1'' t []) run pr spec"
proof -
  obtain t chk where t: "reg_check demo_runs t ''probe'' ''workspace'' None 20 = Inr chk" "chk_valid chk"
    using demo_valid_token by blast
  obtain res w' where "execute demo_executor 20 (demo_call ''RUN-1'' t []) empty_world = (Inr res, w')" "xr_allowed res"
    using demo_executes [OF t] by blast
  from allowed_only_through_gates [OF this] show ?thesis by blast
qed

theorem returned_call_is_recorded_witness:
  "\<exists>t res w' (run :: run) outp. execute demo_executor 20 (demo_call ''RUN-1'' t []) empty_world = (Inr res, w')
     \<and> recorded demo_executor (demo_call ''RUN-1'' t []) [(''output'', PDict outp)] (r_actor run) (xr_evidence res) w'"
proof -
  obtain t chk where t: "reg_check demo_runs t ''probe'' ''workspace'' None 20 = Inr chk" "chk_valid chk"
    using demo_valid_token by blast
  obtain res w' where r: "execute demo_executor 20 (demo_call ''RUN-1'' t []) empty_world = (Inr res, w')" "xr_allowed res"
    using demo_executes [OF t] by blast
  from returned_call_is_recorded [OF r(1)] r(2) obtain run :: run and outp where
      "recorded demo_executor (demo_call ''RUN-1'' t []) [(''output'', PDict outp)] (r_actor run) (xr_evidence res) w'"
    by auto
  with r show ?thesis by blast
qed

text \<open>
  The capability presented with a call is not tied to the run that the call names. There is a
  deployment in which a call made for a finished run, with a token that was issued to another run,
  passes all gates, runs its tool, and is recorded under the finished run.
\<close>

theorem capability_not_bound_to_run:
  "\<exists>ex clock call w res w' check. execute ex clock call w = (Inr res, w') \<and> xr_allowed res
     \<and> is_finished (ex_capabilities ex) (tc_run_id call)
     \<and> reg_check (ex_capabilities ex) (tc_token call) (tc_tool call) (tc_scope call) None clock = Inr check
     \<and> chk_run_id check \<noteq> Some (tc_run_id call)
     \<and> dget (xr_evidence res) ''run_id'' = Some (PStr (tc_run_id call))"
proof -
  obtain t chk where t: "reg_check demo_runs t ''probe'' ''workspace'' None 20 = Inr chk" "chk_valid chk"
      "chk_run_id chk = Some ''RUN-1''"
    using demo_valid_token by blast
  obtain res w' where r: "execute demo_executor 20 (demo_call ''RUN-2'' t []) empty_world = (Inr res, w')" "xr_allowed res"
    using demo_executes [OF t(1,2), of "''RUN-2''"] by blast
  have "dget (xr_evidence res) ''run_id'' = Some (PStr (tc_run_id (demo_call ''RUN-2'' t [])))"
    using returned_recorded [OF r(1)] r(2) by (auto simp: recorded_def Let_def)
  moreover have "is_finished (ex_capabilities demo_executor) (tc_run_id (demo_call ''RUN-2'' t []))"
    by (simp add: is_finished_def reg_get_def demo_executor_def demo_call_def demo_runs_eq)
  moreover have "reg_check (ex_capabilities demo_executor) (tc_token (demo_call ''RUN-2'' t []))
      (tc_tool (demo_call ''RUN-2'' t [])) (tc_scope (demo_call ''RUN-2'' t [])) None 20 = Inr chk"
      "chk_run_id chk \<noteq> Some (tc_run_id (demo_call ''RUN-2'' t []))"
    using t by (simp_all add: demo_executor_def demo_call_def)
  ultimately show ?thesis using r by blast
qed

theorem refused_call_has_no_effect_witness:
  "\<exists>r w'. execute demo_executor 20 (demo_call ''RUN-1'' [] []) empty_world = (r, w') \<and> w_calls w' = []"
proof -
  have "\<not> chk_valid res" if "reg_check demo_runs [] ''probe'' ''workspace'' None 20 = Inr res" for res
    using that by (auto simp: reg_check_def decode_token_def)
  then have "\<nexists>run pr spec. gates_passed demo_executor 20 (demo_call ''RUN-1'' [] []) run pr spec"
    by (auto simp: gates_passed_def demo_executor_def demo_call_def)
  then show ?thesis
    using refused_call_has_no_effect [of demo_executor 20 "demo_call ''RUN-1'' [] []" empty_world]
    by (cases "execute demo_executor 20 (demo_call ''RUN-1'' [] []) empty_world") (simp add: empty_world_def)
qed

definition denying_executor :: executor where
  "denying_executor = demo_executor\<lparr>ex_policy := evaluate (\<lambda>_. HttpUnavailable) demo_client\<rparr>"

lemma demo_unavailable:
  "\<exists>pr. evaluate (\<lambda>_. HttpUnavailable) demo_client POLICY_POINT (policy_payload (demo_call ''RUN-1'' [] []) []) = Inr pr
     \<and> \<not> pr_allow pr \<and> pr_reason_codes pr = [REASON_POLICY_UNAVAILABLE]"
proof -
  let ?p = "policy_payload (demo_call ''RUN-1'' [] []) []"
  have p: "?p = [(''tool'', PStr ''probe''), (''path'', PStr []), (''scope'', PStr ''workspace''), (''actor'', PDict [])]"
    by (simp add: policy_payload_def demo_call_def derive_resource_def Let_def)
  have "is_ascii (json_dumps opts_canonical (PDict ?p))"
    by (simp add: p dump_members_def opts_canonical_def esc_str_def esc_byte_def item_sep_def key_sep_def less_char_def)
  moreover have "is_ascii (json_dumps opts_default (PDict [(''input'', PDict ?p)]))"
    by (rule printed_is_ascii, rule dumps_printed(1))
      (simp_all add: p opts_default_def dict_wf_def str_ok_def valid_str_ascii no_surrogate_ascii)
  moreover have "ints_ok (PDict ?p)" "ints_ok (PDict [(''input'', PDict ?p)])" by (simp_all add: p)
  ultimately show ?thesis
    by (simp only: evaluate_def compute_input_digest_def build_request_def dumps_def if_True bindR_Inr encode_utf8_ascii
        http_outcome.case fail_closed_def) simp
qed

theorem policy_denial_reported_witness:
  "\<exists>pr. execute denying_executor 20 (demo_call ''RUN-1'' [] []) empty_world =
     deny denying_executor (demo_call ''RUN-1'' [] []) REASON_POLICY_UNAVAILABLE []
       (decision_of (demo_call ''RUN-1'' [] []) [] pr) empty_world"
proof -
  obtain pr where pr: "evaluate (\<lambda>_. HttpUnavailable) demo_client POLICY_POINT (policy_payload (demo_call ''RUN-1'' [] []) []) = Inr pr"
      "\<not> pr_allow pr" "pr_reason_codes pr = [REASON_POLICY_UNAVAILABLE]"
    using demo_unavailable by blast
  have e: "ex_policy denying_executor = evaluate (\<lambda>_. HttpUnavailable) demo_client"
    by (simp add: denying_executor_def)
  have "reg_get (ex_capabilities denying_executor) (tc_run_id (demo_call ''RUN-1'' [] [])) =
      Some \<lparr>r_run_id = ''RUN-1'', r_actor = [], r_created_at = 10, r_finished = False\<rparr>"
    by (simp add: denying_executor_def demo_executor_def demo_call_def reg_get_def demo_runs_eq)
  from policy_denial_reported [OF e this, of pr] pr e show ?thesis by auto
qed

text \<open>A lone surrogate, as \<open>json.loads\<close> produces it from its escape sequence.\<close>

definition surrogate_args :: pydict where
  "surrogate_args = [(''x'', PStr [CHR 0xED, CHR 0xA0, CHR 0x80])]"

theorem unencodable_call_unrecorded_witness:
  "\<exists>t. execute demo_executor 20 (demo_call ''RUN-1'' t surrogate_args) empty_world
     = (Inl UnicodeEncodeError, empty_world\<lparr>w_calls := [RunProgram [''probe''] [] (Inr [])]\<rparr>)"
proof -
  obtain t chk where t: "reg_check demo_runs t ''probe'' ''workspace'' None 20 = Inr chk" "chk_valid chk"
    using demo_valid_token by blast
  let ?call = "demo_call ''RUN-1'' t surrogate_args"
  obtain run where g: "gates_passed demo_executor 20 ?call run demo_result probe_tool"
    using demo_gates [OF t] by blast
  have h: "ts_handler probe_tool (tc_args ?call) empty_world
      = (Inr surrogate_args, empty_world\<lparr>w_calls := [RunProgram [''probe''] [] (Inr [])]\<rparr>)"
    by (simp add: probe_handler demo_call_def empty_world_def)
  have i: "ints_ok (record_payload ?call [(''output'', PDict surrogate_args)])"
    by (simp add: record_payload_def demo_call_def surrogate_args_def)
  have "has_surrogate (json_dumps opts_sorted_unicode (record_payload ?call [(''output'', PDict surrogate_args)]))"
    by (simp add: record_payload_def demo_call_def surrogate_args_def dump_members_def opts_sorted_unicode_def
        esc_str_def esc_byte_def item_sep_def key_sep_def less_char_def)
  from unencodable_call_unrecorded [OF g h demo_validates i this] show ?thesis by blast
qed

end
