(* ===== verification/Traceability.thy ===== *)
theory Traceability
  imports Json World "HOL-Library.Product_Lexorder"
begin

text \<open>
  Portfolio traceability (\<open>traceability.py\<close>): canonical artifacts are indexed by path, the chain of
  a feature is everything connected to its artifacts through local links in either direction, and
  the report lists the lifecycle stages that are missing and the links that lead nowhere.

  An index is a list of paths with their documents, in the order of the dictionary. The iteration
  order of a Python \<open>set\<close> is unspecified: the argument \<open>set_order\<close> gives the order in which the
  interpreter enumerates a set of paths, and the theorems assume only that it enumerates its
  elements once each. The enumeration of a directory tree is the argument \<open>rglob\<close>.

  The search is a worklist loop whose termination is proved here; the lemmas show that it selects
  exactly the connected component of the feature and that the report is exact.
\<close>

section \<open>Documents and links\<close>

definition CHAIN_ORDER :: "string list" where
  "CHAIN_ORDER = [''idea'', ''specification'', ''threat-model'', ''plan'', ''task'', ''review'', ''security-review'']"

record trace_node =
  tn_artifact_id :: string
  tn_artifact_type :: string
  tn_path :: string
  tn_feature_id :: pyval

record traceability =
  tr_feature_id :: string
  tr_nodes :: "trace_node list"
  tr_ordered_types :: "string list"
  tr_missing_types :: "string list"
  tr_dangling :: "string list"

definition tr_complete :: "traceability \<Rightarrow> bool" where
  "tr_complete r \<longleftrightarrow> tr_missing_types r = [] \<and> tr_dangling r = []"

type_synonym index = "(path \<times> pydict) list"

text \<open>\<open>read_text\<close> with strict UTF-8, then \<open>json.loads\<close>; the translation of line ends that
  \<open>read_text\<close> performs does not change how JSON is read.\<close>

definition read_artifact_file :: "fs \<Rightarrow> path \<Rightarrow> pydict result" where
  "read_artifact_file fs p =
     bindR (read_bytes fs p) (\<lambda>raw.
       if valid_str raw \<and> \<not> has_surrogate raw
       then bindR (json_loads raw) (\<lambda>data. case data of PDict d \<Rightarrow> Inr d | _ \<Rightarrow> Inl TypeError)
       else Inl UnicodeDecodeError)"

fun load_artifacts_onto :: "fs \<Rightarrow> path list \<Rightarrow> index \<Rightarrow> index result" where
  "load_artifacts_onto fs [] acc = Inr acc"
| "load_artifacts_onto fs (p # ps) acc =
     (if is_file fs p then
        bindR (resolve fs p) (\<lambda>key.
        bindR (read_artifact_file fs p) (\<lambda>doc. load_artifacts_onto fs ps (AList.update key doc acc)))
      else load_artifacts_onto fs ps acc)"

definition load_artifacts :: "fs \<Rightarrow> path list \<Rightarrow> index result" where
  "load_artifacts fs ps = load_artifacts_onto fs ps []"

definition discover :: "(path \<Rightarrow> path list) \<Rightarrow> fs \<Rightarrow> path \<Rightarrow> string \<Rightarrow> index result" where
  "discover rglob fs repo_root subdir = load_artifacts fs (sort (rglob (path_join repo_root subdir)))"

definition link_href :: "pyval \<Rightarrow> string result" where
  "link_href link = bindR (val_get link ''href'' (PStr [])) (\<lambda>v. Inr (py_str v))"

definition local_link_targets :: "pydict \<Rightarrow> string list result" where
  "local_link_targets doc =
     bindR (val_iter (dget_or doc ''links'' (PList []))) (\<lambda>links.
     bindR (mapR link_href links) (\<lambda>hrefs. Inr (filter (ends_with ''.json'') hrefs)))"

text \<open>\<open>path.relative_to(root).as_posix()\<close>.\<close>

definition relative_posix :: "path \<Rightarrow> path \<Rightarrow> string result" where
  "relative_posix root p =
     (if prefix root p
      then Inr (let r = drop (length root) p in if r = [] then ''.'' else join ''/'' r)
      else Inl (ValueError []))"

fun by_href_onto :: "path \<Rightarrow> path list \<Rightarrow> path dict \<Rightarrow> path dict result" where
  "by_href_onto root [] acc = Inr acc"
| "by_href_onto root (p # ps) acc = bindR (relative_posix root p) (\<lambda>h. by_href_onto root ps (dset h p acc))"

definition by_href :: "path \<Rightarrow> index \<Rightarrow> path dict result" where
  "by_href root index = by_href_onto root (map fst index) []"

text \<open>The reverse edges: for each target, the documents that link to it, once per link.\<close>

definition get_list :: "(path \<times> path list) list \<Rightarrow> path \<Rightarrow> path list" where
  "get_list m t = (case map_of m t of None \<Rightarrow> [] | Some ps \<Rightarrow> ps)"

definition add_incoming :: "path dict \<Rightarrow> path \<Rightarrow> string \<Rightarrow> (path \<times> path list) list \<Rightarrow> (path \<times> path list) list" where
  "add_incoming hrefs p h m =
     (case dget hrefs h of None \<Rightarrow> m | Some target \<Rightarrow> AList.update target (get_list m target @ [p]) m)"

fun incoming_onto :: "path dict \<Rightarrow> index \<Rightarrow> (path \<times> path list) list \<Rightarrow> (path \<times> path list) list result" where
  "incoming_onto hrefs [] acc = Inr acc"
| "incoming_onto hrefs ((p, doc) # rest) acc =
     bindR (local_link_targets doc) (\<lambda>links.
       incoming_onto hrefs rest (fold (add_incoming hrefs p) links acc))"

section \<open>The search\<close>

text \<open>The body of the loop for one document: the dangling links and the neighbours.\<close>

definition expand ::
    "path dict \<Rightarrow> (path \<times> path list) list \<Rightarrow> index \<Rightarrow> path \<Rightarrow> (string list \<times> path list) result" where
  "expand hrefs incoming index current =
     (case map_of index current of
        None \<Rightarrow> Inl (KeyError (join ''/'' current))
      | Some doc \<Rightarrow>
          bindR (local_link_targets doc) (\<lambda>links.
            Inr (filter (\<lambda>h. dget hrefs h = None) links,
                 List.map_filter (dget hrefs) links
                 @ get_list incoming current)))"

text \<open>Adding the neighbours that are not selected yet; the end of the frontier is its head here.\<close>

fun add_new :: "path list \<Rightarrow> path list \<Rightarrow> path list \<Rightarrow> path list \<times> path list" where
  "add_new [] selected frontier = (selected, frontier)"
| "add_new (n # ns) selected frontier =
     (if List.member selected n then add_new ns selected frontier
      else add_new ns (selected @ [n]) (n # frontier))"

text \<open>All paths that can ever become neighbours.\<close>

definition candidates :: "path dict \<Rightarrow> (path \<times> path list) list \<Rightarrow> path set" where
  "candidates hrefs incoming = snd ` set hrefs \<union> (\<Union>(t, ps) \<in> set incoming. set ps)"

lemma finite_candidates: "finite (candidates hrefs incoming)"
  by (auto simp: candidates_def)

lemma map_filter_candidates: "set (List.map_filter (dget hrefs) links) \<subseteq> snd ` set hrefs"
  by (induction links) (auto simp: List.map_filter_simps split: option.splits dest!: map_of_SomeD intro: rev_image_eqI)

lemma expand_candidates:
  "expand hrefs incoming index current = Inr (ds, ns) \<Longrightarrow> set ns \<subseteq> candidates hrefs incoming"
  using map_filter_candidates
  by (fastforce simp: expand_def get_list_def candidates_def bindR_eq_Inr split: option.splits dest: map_of_SomeD)

lemma add_new_eq:
  "\<exists>new. add_new ns sel fr = (sel @ new, rev new @ fr) \<and> set new = set ns - set sel \<and> distinct new"
proof (induction ns arbitrary: sel fr)
  case (Cons n ns)
  show ?case
  proof (cases "n \<in> set sel")
    case True
    then show ?thesis using Cons [of sel fr] by auto
  next
    case False
    obtain new where "add_new ns (sel @ [n]) (n # fr) = ((sel @ [n]) @ new, rev new @ n # fr)"
        "set new = set ns - set (sel @ [n])" "distinct new"
      using Cons [of "sel @ [n]" "n # fr"] by blast
    with False show ?thesis by (intro exI [of _ "n # new"]) auto
  qed
qed simp

function trace_loop ::
    "path dict \<Rightarrow> (path \<times> path list) list \<Rightarrow> index \<Rightarrow> path list \<Rightarrow> path list \<Rightarrow> string list
     \<Rightarrow> (path list \<times> string list) result" where
  "trace_loop hrefs incoming index selected [] dangling = Inr (selected, dangling)"
| "trace_loop hrefs incoming index selected (current # frontier) dangling =
     (case expand hrefs incoming index current of
        Inl e \<Rightarrow> Inl e
      | Inr (ds, ns) \<Rightarrow>
          (case add_new ns selected frontier of
             (selected', frontier') \<Rightarrow> trace_loop hrefs incoming index selected' frontier' (dangling @ ds)))"
  by pat_completeness auto
termination
proof (relation "(\<lambda>(hrefs, incoming, index, selected, frontier, dangling). card (candidates hrefs incoming - set selected))
    <*mlex*> measure (\<lambda>(hrefs, incoming, index, selected, frontier, dangling). length frontier)")
  fix hrefs incoming index selected current frontier dangling ds ns selected' frontier' and x :: "string list \<times> path list" and y
  assume e: "expand hrefs incoming index current = Inr x" "(ds, ns) = x"
    and a: "(selected', frontier') = add_new ns selected frontier"
  obtain new where n: "add_new ns selected frontier = (selected @ new, rev new @ frontier)"
      "set new = set ns - set selected"
    using add_new_eq by blast
  have "set new \<subseteq> candidates hrefs incoming - set selected"
    using expand_candidates e n(2) by blast
  then have "card (candidates hrefs incoming - set selected') < card (candidates hrefs incoming - set selected)"
    if "new \<noteq> []"
  proof -
    from that obtain x where "x \<in> set new" by (cases new) auto
    then have "candidates hrefs incoming - set selected' \<subset> candidates hrefs incoming - set selected"
      using a n(1) \<open>set new \<subseteq> candidates hrefs incoming - set selected\<close> by auto
    then show ?thesis by (rule psubset_card_mono [rotated]) (simp add: finite_candidates)
  qed
  moreover have "card (candidates hrefs incoming - set selected') \<le> card (candidates hrefs incoming - set selected)"
    using a n by (auto intro!: card_mono simp: finite_candidates)
  ultimately show "((hrefs, incoming, index, selected', frontier', dangling @ ds),
      hrefs, incoming, index, selected, current # frontier, dangling)
     \<in> (\<lambda>(hrefs, incoming, index, selected, frontier, dangling). card (candidates hrefs incoming - set selected))
       <*mlex*> measure (\<lambda>(hrefs, incoming, index, selected, frontier, dangling). length frontier)"
    using a n by (cases "new = []") (auto intro: mlex_less mlex_leq)
qed (simp add: wf_mlex)

section \<open>The report\<close>

definition chain_rank :: "string \<Rightarrow> nat" where
  "chain_rank t = length (takeWhile (\<lambda>k. k \<noteq> t) CHAIN_ORDER)"

definition node_sort_key :: "trace_node \<Rightarrow> nat \<times> string" where
  "node_sort_key n = (chain_rank (tn_artifact_type n), tn_artifact_id n)"

definition make_node :: "path \<Rightarrow> index \<Rightarrow> path \<Rightarrow> trace_node result" where
  "make_node root index p =
     (case map_of index p of
        None \<Rightarrow> Inl (KeyError (join ''/'' p))
      | Some doc \<Rightarrow>
          bindR (relative_posix root p) (\<lambda>href.
            Inr \<lparr>tn_artifact_id = py_str (dget_or doc ''id'' (PStr [])),
                 tn_artifact_type = py_str (dget_or doc ''artifact_type'' (PStr [])),
                 tn_path = href, tn_feature_id = dget_or doc ''feature_id'' PNone\<rparr>))"

definition seeds :: "string \<Rightarrow> index \<Rightarrow> path list" where
  "seeds feature_id index = map fst (filter (\<lambda>(p, doc). dget_or doc ''feature_id'' PNone = PStr feature_id) index)"

definition trace_feature :: "(path list \<Rightarrow> path list) \<Rightarrow> path \<Rightarrow> string \<Rightarrow> index \<Rightarrow> traceability result" where
  "trace_feature set_order root feature_id index =
     bindR (by_href root index) (\<lambda>hrefs.
     bindR (incoming_onto hrefs index []) (\<lambda>incoming.
     bindR (trace_loop hrefs incoming index (seeds feature_id index)
              (rev (set_order (seeds feature_id index))) []) (\<lambda>(selected, dangling).
     bindR (mapR (make_node root index) (set_order selected)) (\<lambda>nodes.
       let present = map tn_artifact_type nodes
       in Inr \<lparr>tr_feature_id = feature_id, tr_nodes = sort_key node_sort_key nodes,
               tr_ordered_types = filter (List.member present) CHAIN_ORDER,
               tr_missing_types = filter (\<lambda>k. \<not> List.member present k) CHAIN_ORDER,
               tr_dangling = sort (remdups dangling)\<rparr>))))"

text \<open>The format specification \<open>:<n\<close>.\<close>

definition pad_right :: "nat \<Rightarrow> string \<Rightarrow> string" where
  "pad_right n s = s @ replicate (n - py_len s) CHR '' ''"

definition format_report :: "traceability \<Rightarrow> string" where
  "format_report r =
     join [newline]
       ([''feature '' @ tr_feature_id r @ '': '' @ (if tr_complete r then ''COMPLETE'' else ''INCOMPLETE'')]
        @ map (\<lambda>n. ''  '' @ pad_right 16 (tn_artifact_type n) @ '' '' @ pad_right 12 (tn_artifact_id n) @ '' '' @ tn_path n)
            (tr_nodes r)
        @ (if tr_missing_types r = [] then [] else [''  missing: '' @ join '', '' (tr_missing_types r)])
        @ (if tr_dangling r = [] then [] else [''  dangling: '' @ join '', '' (tr_dangling r)]))"

section \<open>The search computes a connected component\<close>

text \<open>
  The link graph: a document links to another when one of its local links is the reference of the
  other. The search also follows links backwards.
\<close>

definition links_to :: "path dict \<Rightarrow> index \<Rightarrow> path \<Rightarrow> path \<Rightarrow> bool" where
  "links_to hrefs index p q \<longleftrightarrow> (\<exists>doc links h. map_of index p = Some doc \<and> local_link_targets doc = Inr links
     \<and> h \<in> set links \<and> dget hrefs h = Some q)"

definition connected :: "path dict \<Rightarrow> index \<Rightarrow> (path \<times> path) set" where
  "connected hrefs index = {(p, q). links_to hrefs index p q \<or> links_to hrefs index q p}\<^sup>*"

lemma set_map_filter: "y \<in> set (List.map_filter f xs) \<longleftrightarrow> (\<exists>x \<in> set xs. f x = Some y)"
  by (induction xs) (auto simp: List.map_filter_simps split: option.splits)

lemma incoming_step:
  "q \<in> set (get_list (fold (add_incoming hrefs p) links acc) t) \<longleftrightarrow>
     q \<in> set (get_list acc t) \<or> q = p \<and> (\<exists>h \<in> set links. dget hrefs h = Some t)"
proof (induction links arbitrary: acc)
  case (Cons h links)
  have "q \<in> set (get_list (add_incoming hrefs p h acc) t) \<longleftrightarrow>
      q \<in> set (get_list acc t) \<or> q = p \<and> dget hrefs h = Some t"
    by (auto simp: add_incoming_def get_list_def update_conv' split: option.splits)
  then show ?case using Cons [of "add_incoming hrefs p h acc"] by auto
qed simp

lemma incoming_onto_iff:
  assumes "incoming_onto hrefs rest acc = Inr incoming" "distinct (map fst rest)"
  shows "q \<in> set (get_list incoming t) \<longleftrightarrow> q \<in> set (get_list acc t) \<or> links_to hrefs rest q t"
  using assms
proof (induction rest arbitrary: acc)
  case Nil
  then show ?case by (simp add: links_to_def)
next
  case (Cons e rest)
  obtain p doc where e: "e = (p, doc)" by (cases e)
  from Cons.prems(1) e obtain links where links: "local_link_targets doc = Inr links"
      and inc: "incoming_onto hrefs rest (fold (add_incoming hrefs p) links acc) = Inr incoming"
    by (auto simp: bindR_eq_Inr)
  have "p \<notin> set (map fst rest)" using Cons.prems(2) e by simp
  then have "map_of rest p = None" by (simp add: map_of_eq_None_iff)
  then have "links_to hrefs (e # rest) q t \<longleftrightarrow> q = p \<and> (\<exists>h \<in> set links. dget hrefs h = Some t) \<or> links_to hrefs rest q t"
    using links e by (auto simp: links_to_def)
  then show ?case using Cons.IH [OF inc] Cons.prems(2) by (auto simp: incoming_step)
qed

lemma expand_neighbours:
  assumes "distinct (map fst index)" "incoming_onto hrefs index [] = Inr incoming"
    and "expand hrefs incoming index p = Inr (ds, ns)"
  shows "set ns = {q. links_to hrefs index p q \<or> links_to hrefs index q p}"
proof -
  from assms(3) obtain doc links where "map_of index p = Some doc" "local_link_targets doc = Inr links"
      "ns = List.map_filter (dget hrefs) links @ get_list incoming p"
    by (auto simp: expand_def bindR_eq_Inr split: option.splits)
  moreover have "q \<in> set (get_list incoming p) \<longleftrightarrow> links_to hrefs index q p" for q
    using incoming_onto_iff [OF assms(2,1), of q p] by (simp add: get_list_def)
  ultimately show ?thesis by (auto simp: set_map_filter links_to_def)
qed

text \<open>The loop invariant: what is selected but no longer on the frontier is closed under the links.\<close>

lemma trace_loop_selects:
  assumes "distinct (map fst index)" "incoming_onto hrefs index [] = Inr incoming"
  shows "trace_loop hrefs incoming index sel fr dang = Inr (sel', dang') \<Longrightarrow> set fr \<subseteq> set sel \<Longrightarrow>
     (\<And>p q. p \<in> set sel - set fr \<Longrightarrow> links_to hrefs index p q \<or> links_to hrefs index q p \<Longrightarrow> q \<in> set sel) \<Longrightarrow>
     set sel' = connected hrefs index `` set sel"
  using assms
proof (induction hrefs incoming index sel fr dang rule: trace_loop.induct)
  case (1 hrefs incoming index sel dang)
  let ?R = "{(p, q). links_to hrefs index p q \<or> links_to hrefs index q p}"
  have "q \<in> set sel" if "(p, q) \<in> ?R\<^sup>*" "p \<in> set sel" for p q
    using that by (induction rule: rtrancl_induct) (use 1(3) in auto)
  then show ?case using 1(1) by (auto simp: connected_def)
next
  case (2 hrefs incoming index sel cur fr dang)
  from 2(2) obtain ds ns where e: "expand hrefs incoming index cur = Inr (ds, ns)"
    by (auto split: sum.splits)
  obtain new where n: "add_new ns sel fr = (sel @ new, rev new @ fr)" "set new = set ns - set sel"
    using add_new_eq by blast
  note nb = expand_neighbours [OF 2(5,6) e]
  have loop: "trace_loop hrefs incoming index (sel @ new) (rev new @ fr) (dang @ ds) = Inr (sel', dang')"
    using 2(2) e n by simp
  have "cur \<in> set sel" using 2(3) by simp
  have "set sel' = connected hrefs index `` set (sel @ new)"
  proof (rule 2(1) [OF e refl n(1) [symmetric] loop])
    show "set (rev new @ fr) \<subseteq> set (sel @ new)" using 2(3) by auto
    fix p q assume "p \<in> set (sel @ new) - set (rev new @ fr)" and l: "links_to hrefs index p q \<or> links_to hrefs index q p"
    then have "p \<in> set sel" "p \<notin> set fr" by auto
    then show "q \<in> set (sel @ new)" using 2(4) [OF _ l] l nb n(2) by (cases "p = cur") auto
  qed (fact 2(5), fact 2(6))
  moreover have "set new \<subseteq> connected hrefs index `` set sel"
    using n(2) nb \<open>cur \<in> set sel\<close> by (auto simp: connected_def)
  then have "connected hrefs index `` set (sel @ new) = connected hrefs index `` set sel"
    unfolding connected_def by (auto intro: rtrancl_trans)
  ultimately show ?case by simp
qed

definition dangling_link :: "path dict \<Rightarrow> index \<Rightarrow> path \<Rightarrow> string \<Rightarrow> bool" where
  "dangling_link hrefs index p h \<longleftrightarrow> (\<exists>doc links. map_of index p = Some doc \<and> local_link_targets doc = Inr links
     \<and> h \<in> set links \<and> dget hrefs h = None)"

lemma expand_dangling:
  "expand hrefs incoming index p = Inr (ds, ns) \<Longrightarrow> set ds = {h. dangling_link hrefs index p h}"
  by (auto simp: expand_def bindR_eq_Inr dangling_link_def split: option.splits)

lemma trace_loop_dangling:
  "trace_loop hrefs incoming index sel fr dang = Inr (sel', dang') \<Longrightarrow> set fr \<subseteq> set sel \<Longrightarrow>
   (\<And>p h. p \<in> set sel - set fr \<Longrightarrow> dangling_link hrefs index p h \<Longrightarrow> h \<in> set dang) \<Longrightarrow>
   (\<And>h. h \<in> set dang \<Longrightarrow> \<exists>p \<in> set sel. dangling_link hrefs index p h) \<Longrightarrow>
   set dang' = {h. \<exists>p \<in> set sel'. dangling_link hrefs index p h} \<and> set sel \<subseteq> set sel' \<and> (distinct sel \<longrightarrow> distinct sel')"
proof (induction hrefs incoming index sel fr dang rule: trace_loop.induct)
  case (1 hrefs incoming index sel dang)
  then show ?case by auto
next
  case (2 hrefs incoming index sel cur fr dang)
  from 2(2) obtain ds ns where e: "expand hrefs incoming index cur = Inr (ds, ns)"
    by (auto split: sum.splits)
  obtain new where n: "add_new ns sel fr = (sel @ new, rev new @ fr)" "set new = set ns - set sel" "distinct new"
    using add_new_eq by blast
  have loop: "trace_loop hrefs incoming index (sel @ new) (rev new @ fr) (dang @ ds) = Inr (sel', dang')"
    using 2(2) e n by simp
  have "set dang' = {h. \<exists>p \<in> set sel'. dangling_link hrefs index p h} \<and> set (sel @ new) \<subseteq> set sel'
      \<and> (distinct (sel @ new) \<longrightarrow> distinct sel')"
  proof (rule 2(1) [OF e refl n(1) [symmetric] loop])
    show "set (rev new @ fr) \<subseteq> set (sel @ new)" using 2(3) by auto
    show "h \<in> set (dang @ ds)" if "p \<in> set (sel @ new) - set (rev new @ fr)" "dangling_link hrefs index p h" for p h
      using that 2(4) [of p h] expand_dangling [OF e] by (cases "p = cur") auto
    show "\<exists>p \<in> set (sel @ new). dangling_link hrefs index p h" if "h \<in> set (dang @ ds)" for h
      using that 2(3) 2(5) [of h] expand_dangling [OF e] by auto
  qed
  then show ?case using n by auto
qed

section \<open>The report is exact\<close>

text \<open>What the interpreter's enumeration of a set guarantees.\<close>

definition enumerates :: "(path list \<Rightarrow> path list) \<Rightarrow> bool" where
  "enumerates set_order \<longleftrightarrow> (\<forall>xs. distinct xs \<longrightarrow> distinct (set_order xs) \<and> set (set_order xs) = set xs)"

lemma seeds_distinct: "distinct (map fst index) \<Longrightarrow> distinct (seeds fid index)"
  unfolding seeds_def by (induction index) auto

text \<open>The artifacts that belong to the chain of a feature: those connected to one of its own.\<close>

definition chain_paths :: "path dict \<Rightarrow> index \<Rightarrow> string \<Rightarrow> path set" where
  "chain_paths hrefs index fid = connected hrefs index `` set (seeds fid index)"

lemma trace_feature_selects:
  assumes "enumerates set_order" "distinct (map fst index)" "trace_feature set_order root fid index = Inr rep"
  obtains hrefs selected dangling nodes where "by_href root index = Inr hrefs"
    "set selected = chain_paths hrefs index fid" "distinct selected"
    "set dangling = {h. \<exists>p \<in> chain_paths hrefs index fid. dangling_link hrefs index p h}"
    "mapR (make_node root index) (set_order selected) = Inr nodes"
    "rep = \<lparr>tr_feature_id = fid, tr_nodes = sort_key node_sort_key nodes,
       tr_ordered_types = filter (List.member (map tn_artifact_type nodes)) CHAIN_ORDER,
       tr_missing_types = filter (\<lambda>k. \<not> List.member (map tn_artifact_type nodes) k) CHAIN_ORDER,
       tr_dangling = sort (remdups dangling)\<rparr>"
proof -
  let ?s = "seeds fid index"
  from assms(3) obtain hrefs incoming selected dangling nodes where *: "by_href root index = Inr hrefs"
      "incoming_onto hrefs index [] = Inr incoming"
      "trace_loop hrefs incoming index ?s (rev (set_order ?s)) [] = Inr (selected, dangling)"
      "mapR (make_node root index) (set_order selected) = Inr nodes"
      "rep = \<lparr>tr_feature_id = fid, tr_nodes = sort_key node_sort_key nodes,
         tr_ordered_types = filter (List.member (map tn_artifact_type nodes)) CHAIN_ORDER,
         tr_missing_types = filter (\<lambda>k. \<not> List.member (map tn_artifact_type nodes) k) CHAIN_ORDER,
         tr_dangling = sort (remdups dangling)\<rparr>"
    unfolding trace_feature_def bindR_eq_Inr Let_def by (auto simp: bindR_eq_Inr split: prod.splits)
  have d: "distinct ?s" using seeds_distinct [OF assms(2)] .
  then have fr: "set (rev (set_order ?s)) = set ?s" using assms(1) by (simp add: enumerates_def)
  have "set selected = chain_paths hrefs index fid"
    unfolding chain_paths_def by (rule trace_loop_selects [OF assms(2) *(2,3)]) (use fr in auto)
  moreover have "set dangling = {h. \<exists>p \<in> set selected. dangling_link hrefs index p h} \<and> set ?s \<subseteq> set selected
      \<and> (distinct ?s \<longrightarrow> distinct selected)"
    by (rule trace_loop_dangling [OF *(3)]) (use fr in auto)
  ultimately show ?thesis using that * d by auto
qed

section \<open>The search returns\<close>

text \<open>An index the search can read: every document is below the root and has readable links.\<close>

definition index_readable :: "path \<Rightarrow> index \<Rightarrow> bool" where
  "index_readable root index \<longleftrightarrow>
     list_all (\<lambda>(p, doc). prefix root p \<and> (\<exists>links. local_link_targets doc = Inr links)) index"

lemma dset_values: "snd ` set (dset h p acc) \<subseteq> insert p (snd ` set acc)"
  by (induction acc) auto

lemma by_href_onto_total:
  "list_all (prefix root) ps \<Longrightarrow> \<exists>m. by_href_onto root ps acc = Inr m \<and> snd ` set m \<subseteq> set ps \<union> snd ` set acc"
proof (induction ps arbitrary: acc)
  case (Cons p ps)
  then obtain h where h: "relative_posix root p = Inr h" by (auto simp: relative_posix_def)
  from Cons.prems have "list_all (prefix root) ps" by simp
  from Cons.IH [OF this, of "dset h p acc"] obtain m where m: "by_href_onto root ps (dset h p acc) = Inr m"
    "snd ` set m \<subseteq> set ps \<union> snd ` set (dset h p acc)" by blast
  then have "snd ` set m \<subseteq> set (p # ps) \<union> snd ` set acc" using dset_values [of h p acc] by auto
  with m(1) h show ?case by simp
qed simp

lemma incoming_onto_total:
  "list_all (\<lambda>(p, doc). \<exists>links. local_link_targets doc = Inr links) index \<Longrightarrow> fst ` set index \<subseteq> K \<Longrightarrow>
   (\<And>t. set (get_list acc t) \<subseteq> K) \<Longrightarrow> \<exists>m. incoming_onto hrefs index acc = Inr m \<and> (\<forall>t. set (get_list m t) \<subseteq> K)"
proof (induction hrefs index acc rule: incoming_onto.induct)
  case (2 hrefs p doc rest acc)
  then obtain links where l: "local_link_targets doc = Inr links" by auto
  have s: "set (get_list (fold (add_incoming hrefs p) links acc) t) \<subseteq> K" for t
  proof
    fix q assume "q \<in> set (get_list (fold (add_incoming hrefs p) links acc) t)"
    then show "q \<in> K" using 2(3) 2(4) [of t] by (auto simp: incoming_step)
  qed
  from 2(1) [OF _ _ s] 2(2,3) l show ?case by simp
qed simp

lemma trace_loop_total:
  assumes "\<And>p. p \<in> K \<Longrightarrow> \<exists>doc links. map_of index p = Some doc \<and> local_link_targets doc = Inr links"
    and "snd ` set hrefs \<subseteq> K" "\<And>t. set (get_list incoming t) \<subseteq> K"
  shows "set selected \<subseteq> K \<Longrightarrow> set frontier \<subseteq> K \<Longrightarrow>
    \<exists>sel ds. trace_loop hrefs incoming index selected frontier dangling = Inr (sel, ds) \<and> set sel \<subseteq> K"
  using assms
proof (induction hrefs incoming index selected frontier dangling rule: trace_loop.induct)
  case (2 hrefs incoming index selected current frontier dangling)
  have "current \<in> K" using 2(3) by simp
  from 2(4) [OF this] obtain doc links where d: "map_of index current = Some doc" "local_link_targets doc = Inr links" by blast
  define ns where "ns = List.map_filter (dget hrefs) links @ get_list incoming current"
  define ds where "ds = filter (\<lambda>h. dget hrefs h = None) links"
  have e: "expand hrefs incoming index current = Inr (ds, ns)" using d by (simp add: expand_def ns_def ds_def)
  have ns: "set ns \<subseteq> K" using map_filter_candidates [of hrefs links] 2(5) 2(6) [of current] by (auto simp: ns_def)
  obtain new where n: "add_new ns selected frontier = (selected @ new, rev new @ frontier)" "set new = set ns - set selected"
    using add_new_eq by blast
  have "set (selected @ new) \<subseteq> K" "set (rev new @ frontier) \<subseteq> K" using n(2) ns 2(2,3) by auto
  from 2(1) [OF e refl n(1) [symmetric] this 2(4-6)] show ?case using e n(1) by simp
qed simp

lemma make_node_total:
  assumes "p \<in> fst ` set index" "prefix root p"
  shows "\<exists>n. make_node root index p = Inr n"
proof -
  obtain doc where "map_of index p = Some doc" using assms(1) by (cases "map_of index p") (auto simp: map_of_eq_None_iff)
  then show ?thesis using assms(2) by (simp add: make_node_def relative_posix_def)
qed

lemma mapR_returns: "(\<And>x. x \<in> set xs \<Longrightarrow> \<exists>y. f x = Inr y) \<Longrightarrow> \<exists>ys. mapR f xs = Inr ys"
proof (induction xs)
  case (Cons x xs)
  obtain y where "f x = Inr y" using Cons.prems by fastforce
  moreover obtain ys where "mapR f xs = Inr ys" using Cons by fastforce
  ultimately show ?case by simp
qed simp

lemma trace_feature_total:
  assumes "\<And>xs. set (set_order xs) = set xs" "index_readable root index"
  shows "\<exists>report. trace_feature set_order root feature_id index = Inr report"
proof -
  let ?K = "fst ` set index"
  have r: "list_all (prefix root) (map fst index)"
      "list_all (\<lambda>(p, doc). \<exists>links. local_link_targets doc = Inr links) index"
    using assms(2) by (auto simp: index_readable_def list_all_iff)
  obtain hrefs where h: "by_href root index = Inr hrefs" "snd ` set hrefs \<subseteq> ?K"
    using by_href_onto_total [OF r(1), of "[]"] by (auto simp: by_href_def)
  obtain incoming where i: "incoming_onto hrefs index [] = Inr incoming" "\<And>t. set (get_list incoming t) \<subseteq> ?K"
    using incoming_onto_total [OF r(2) subset_refl, of "[]" hrefs] by (auto simp: get_list_def)
  have docs: "\<exists>doc links. map_of index p = Some doc \<and> local_link_targets doc = Inr links" if k: "p \<in> ?K" for p
  proof -
    obtain doc where d: "map_of index p = Some doc" using k by (cases "map_of index p") (auto simp: map_of_eq_None_iff)
    from map_of_SomeD [OF d] r(2) obtain links where "local_link_targets doc = Inr links" by (auto simp: list_all_iff)
    with d show ?thesis by blast
  qed
  let ?s = "seeds feature_id index"
  have s: "set ?s \<subseteq> ?K" "set (rev (set_order ?s)) \<subseteq> ?K" using assms(1) by (auto simp: seeds_def)
  obtain sel ds where t: "trace_loop hrefs incoming index ?s (rev (set_order ?s)) [] = Inr (sel, ds)" "set sel \<subseteq> ?K"
    using trace_loop_total [OF docs h(2) i(2) s] by blast
  have "\<exists>n. make_node root index p = Inr n" if "p \<in> set (set_order sel)" for p
  proof (rule make_node_total)
    show "p \<in> ?K" using that assms(1) t(2) by auto
    then show "prefix root p" using r(1) by (auto simp: list_all_iff)
  qed
  then obtain nodes where "mapR (make_node root index) (set_order sel) = Inr nodes" using mapR_returns by blast
  with h(1) i(1) t(1) show ?thesis by (simp add: trace_feature_def)
qed

lemma by_href_onto_prefix: "by_href_onto root ps acc = Inr m \<Longrightarrow> list_all (prefix root) ps"
  by (induction ps arbitrary: acc) (auto simp: bindR_eq_Inr relative_posix_def split: if_splits)

lemma incoming_onto_links:
  "incoming_onto hrefs index acc = Inr m \<Longrightarrow> list_all (\<lambda>(p, doc). \<exists>links. local_link_targets doc = Inr links) index"
  by (induction hrefs index acc rule: incoming_onto.induct) (auto simp: bindR_eq_Inr)

text \<open>
  C36: the search for the chain of a feature always comes to an end, also when the links form cycles,
  and it reports exactly when every document of the index lies below the repository root and its
  links can be read; no document that is discovered on the way can make it fail.
\<close>

theorem trace_reports_iff:
  assumes "\<And>xs. set (set_order xs) = set xs"
  shows "(\<exists>report. trace_feature set_order root feature_id index = Inr report) \<longleftrightarrow> index_readable root index"
proof
  assume "\<exists>report. trace_feature set_order root feature_id index = Inr report"
  then obtain hrefs incoming where "by_href root index = Inr hrefs" "incoming_onto hrefs index [] = Inr incoming"
    by (auto simp: trace_feature_def bindR_eq_Inr)
  then have "list_all (prefix root) (map fst index)" "list_all (\<lambda>(p, doc). \<exists>links. local_link_targets doc = Inr links) index"
    using by_href_onto_prefix incoming_onto_links unfolding by_href_def by blast+
  then show "index_readable root index" by (auto simp: index_readable_def list_all_iff)
qed (rule trace_feature_total [OF assms])

text \<open>
  C37: the report of a feature lists exactly the artifacts connected to one of the feature's own
  artifacts by local links, followed in either direction any number of times.
\<close>

theorem trace_nodes_exact:
  assumes "enumerates set_order" "distinct (map fst index)" "trace_feature set_order root fid index = Inr rep"
  shows "\<exists>hrefs. by_href root index = Inr hrefs
     \<and> (\<forall>n. n \<in> set (tr_nodes rep) \<longleftrightarrow> (\<exists>p \<in> chain_paths hrefs index fid. make_node root index p = Inr n))
     \<and> sorted (map node_sort_key (tr_nodes rep))"
  using assms
proof (rule trace_feature_selects)
  fix hrefs selected dangling nodes
  assume h: "by_href root index = Inr hrefs" and s: "set selected = chain_paths hrefs index fid" "distinct selected"
    and m: "mapR (make_node root index) (set_order selected) = Inr nodes"
    and rep: "rep = \<lparr>tr_feature_id = fid, tr_nodes = sort_key node_sort_key nodes,
       tr_ordered_types = filter (List.member (map tn_artifact_type nodes)) CHAIN_ORDER,
       tr_missing_types = filter (\<lambda>k. \<not> List.member (map tn_artifact_type nodes) k) CHAIN_ORDER,
       tr_dangling = sort (remdups dangling)\<rparr>"
  have "set (set_order selected) = chain_paths hrefs index fid" using assms(1) s by (simp add: enumerates_def)
  then have "n \<in> set nodes \<longleftrightarrow> (\<exists>p \<in> chain_paths hrefs index fid. make_node root index p = Inr n)" for n
    using mapR_Inr_set [OF m] mapR_Inr_all [OF m] by fastforce
  then show ?thesis using h by (auto simp: rep)
qed

text \<open>
  A feature is reported complete exactly when every stage of the lifecycle occurs among the
  artifacts of its chain and none of these artifacts has a local link that leads nowhere; the
  dangling links are reported sorted and once each, and the missing and the present stages
  partition the lifecycle in its order.
\<close>

theorem trace_complete_exact:
  assumes "enumerates set_order" "distinct (map fst index)" "trace_feature set_order root fid index = Inr rep"
  shows "\<exists>hrefs. by_href root index = Inr hrefs
     \<and> (tr_complete rep \<longleftrightarrow>
          (\<forall>k \<in> set CHAIN_ORDER. \<exists>p n. p \<in> chain_paths hrefs index fid \<and> make_node root index p = Inr n \<and> tn_artifact_type n = k)
        \<and> \<not> (\<exists>p h. p \<in> chain_paths hrefs index fid \<and> dangling_link hrefs index p h))
     \<and> set (tr_dangling rep) = {h. \<exists>p \<in> chain_paths hrefs index fid. dangling_link hrefs index p h}
     \<and> sorted (tr_dangling rep) \<and> distinct (tr_dangling rep)
     \<and> (\<forall>k. (k \<in> set (tr_missing_types rep) \<longleftrightarrow> k \<in> set CHAIN_ORDER \<and> k \<notin> tn_artifact_type ` set (tr_nodes rep)))"
  using assms
proof (rule trace_feature_selects)
  fix hrefs selected dangling nodes
  assume h: "by_href root index = Inr hrefs" and s: "set selected = chain_paths hrefs index fid" "distinct selected"
    and d: "set dangling = {h. \<exists>p \<in> chain_paths hrefs index fid. dangling_link hrefs index p h}"
    and m: "mapR (make_node root index) (set_order selected) = Inr nodes"
    and rep: "rep = \<lparr>tr_feature_id = fid, tr_nodes = sort_key node_sort_key nodes,
       tr_ordered_types = filter (List.member (map tn_artifact_type nodes)) CHAIN_ORDER,
       tr_missing_types = filter (\<lambda>k. \<not> List.member (map tn_artifact_type nodes) k) CHAIN_ORDER,
       tr_dangling = sort (remdups dangling)\<rparr>"
  have "set (set_order selected) = chain_paths hrefs index fid" using assms(1) s by (simp add: enumerates_def)
  then have n: "n \<in> set nodes \<longleftrightarrow> (\<exists>p. p \<in> chain_paths hrefs index fid \<and> make_node root index p = Inr n)" for n
    using mapR_Inr_set [OF m] mapR_Inr_all [OF m] by fastforce
  have "tr_missing_types rep = [] \<longleftrightarrow> (\<forall>k \<in> set CHAIN_ORDER. \<exists>n \<in> set nodes. tn_artifact_type n = k)"
    by (auto simp: rep filter_empty_conv)
  moreover have "set (tr_dangling rep) = set dangling" by (simp add: rep)
  then have "tr_dangling rep = [] \<longleftrightarrow> set dangling = {}" by (metis set_empty)
  ultimately have "tr_complete rep \<longleftrightarrow>
      (\<forall>k \<in> set CHAIN_ORDER. \<exists>p n. p \<in> chain_paths hrefs index fid \<and> make_node root index p = Inr n \<and> tn_artifact_type n = k)
      \<and> \<not> (\<exists>p h. p \<in> chain_paths hrefs index fid \<and> dangling_link hrefs index p h)"
    unfolding tr_complete_def d using n by blast
  then show ?thesis using h d by (auto simp: rep)
qed

section \<open>Witnesses\<close>

definition demo_index :: index where
  "demo_index =
     [([''a.json''], [(''id'', PStr ''A''), (''artifact_type'', PStr ''idea''), (''feature_id'', PStr ''F''),
        (''links'', PList [PDict [(''href'', PStr ''b.json'')], PDict [(''href'', PStr ''x.json'')]])]),
      ([''b.json''], [(''id'', PStr ''B''), (''artifact_type'', PStr ''plan'')]),
      ([''c.json''], [(''id'', PStr ''C''), (''artifact_type'', PStr ''task'')])]"

lemma demo_hrefs: "by_href [] demo_index
    = Inr [(''a.json'', [''a.json'']), (''b.json'', [''b.json'']), (''c.json'', [''c.json''])]"
  by (simp add: by_href_def demo_index_def relative_posix_def Let_def)

lemma demo_links:
  "local_link_targets [(''id'', PStr ''A''), (''artifact_type'', PStr ''idea''), (''feature_id'', PStr ''F''),
        (''links'', PList [PDict [(''href'', PStr ''b.json'')], PDict [(''href'', PStr ''x.json'')]])]
    = Inr [''b.json'', ''x.json'']"
  "local_link_targets [(''id'', PStr ''B''), (''artifact_type'', PStr ''plan'')] = Inr []"
  "local_link_targets [(''id'', PStr ''C''), (''artifact_type'', PStr ''task'')] = Inr []"
  by (simp_all add: local_link_targets_def link_href_def dget_or_def ends_with_def)

lemma demo_trace:
  "\<exists>rep. trace_feature id [] ''F'' demo_index = Inr rep \<and> tr_dangling rep = [''x.json'']
     \<and> map tn_artifact_id (tr_nodes rep) = [''A'', ''B'']"
proof -
  have seeds: "seeds ''F'' demo_index = [[''a.json'']]" by (simp add: seeds_def demo_index_def dget_or_def)
  have inc: "incoming_onto [(''a.json'', [''a.json'']), (''b.json'', [''b.json'']), (''c.json'', [''c.json''])] demo_index []
      = Inr [([''b.json''], [[''a.json'']])]"
    unfolding demo_index_def by (simp add: demo_links add_incoming_def get_list_def)
  show ?thesis
    by (simp add: trace_feature_def demo_hrefs inc seeds)
      (simp add: demo_index_def expand_def demo_links get_list_def List.map_filter_simps make_node_def
        relative_posix_def dget_or_def Let_def node_sort_key_def chain_rank_def CHAIN_ORDER_def)
qed

lemma demo_enumerates: "enumerates id"
  by (simp add: enumerates_def)

lemma demo_distinct: "distinct (map fst demo_index)"
  by (simp add: demo_index_def)

theorem trace_reports_iff_witness:
  "\<exists>report. trace_feature id [] ''FEAT-1'' demo_index = Inr report"
proof -
  have "index_readable [] demo_index"
    using demo_links by (auto simp: index_readable_def demo_index_def)
  then show ?thesis using trace_reports_iff [of id "[]" "''FEAT-1''" demo_index] by simp
qed

theorem trace_nodes_exact_witness:
  "\<exists>rep hrefs. trace_feature id [] ''F'' demo_index = Inr rep \<and> by_href [] demo_index = Inr hrefs
     \<and> sorted (map node_sort_key (tr_nodes rep))"
proof -
  obtain rep where "trace_feature id [] ''F'' demo_index = Inr rep" using demo_trace by blast
  with trace_nodes_exact [OF demo_enumerates demo_distinct this] show ?thesis by blast
qed

theorem trace_complete_exact_witness:
  "\<exists>rep. trace_feature id [] ''F'' demo_index = Inr rep \<and> \<not> tr_complete rep"
proof -
  obtain rep where r: "trace_feature id [] ''F'' demo_index = Inr rep" "tr_dangling rep = [''x.json'']"
    using demo_trace by blast
  from trace_complete_exact [OF demo_enumerates demo_distinct r(1)] r(2)
  have "\<not> tr_complete rep" by (auto simp: tr_complete_def)
  with r(1) show ?thesis by blast
qed

end
