(* ===== verification/Artifacts.thy ===== *)
theory Artifacts
  imports Tools Json
begin

text \<open>
  The schema registry and the validation of artifacts (\<open>artifacts/registry.py\<close>). Schemas are JSON
  files under \<open>contracts/schemas\<close> of the repository, which is found by walking up from a starting
  point. Validation itself is done by the third-party packages \<open>jsonschema\<close> and \<open>referencing\<close>: the
  argument \<open>ref_errors\<close> gives the violations of a schema by a document, given the registered
  schemas by name; \<open>listdir\<close> gives the names in a directory.
\<close>

section \<open>Finding and loading schemas\<close>

definition SCHEMA_DIR_REL :: path where
  "SCHEMA_DIR_REL = [''contracts'', ''schemas'']"

definition SCHEMA_SUFFIX :: string where
  "SCHEMA_SUFFIX = ''.schema.json''"

definition file_not_found :: py_error where
  "file_not_found = OtherError ''FileNotFoundError''"

text \<open>A path and its ancestors, the path first.\<close>

definition self_and_parents :: "path \<Rightarrow> path list" where
  "self_and_parents p = rev (prefixes p)"

definition find_repo_root :: "fs \<Rightarrow> path \<Rightarrow> path result" where
  "find_repo_root fs start =
     bindR (resolve fs start) (\<lambda>origin.
       case filter (\<lambda>parent. is_file fs (parent @ SCHEMA_DIR_REL @ [''common.schema.json'']))
              (self_and_parents origin) of
         [] \<Rightarrow> Inl file_not_found
       | parent # _ \<Rightarrow> Inr parent)"

text \<open>The part of the environment that the registry reads: the place of the module's own file,
  the contents of directories and the external validator.\<close>

record schema_env =
  se_module_file :: path
  se_listdir :: "fs \<Rightarrow> path \<Rightarrow> string list"
  se_ref_errors :: "pyval \<Rightarrow> (string \<times> pyval) list \<Rightarrow> pyval \<Rightarrow> schema_error list result"

definition schema_dir :: "schema_env \<Rightarrow> fs \<Rightarrow> path option \<Rightarrow> path result" where
  "schema_dir env fs repo_root =
     bindR (case repo_root of Some r \<Rightarrow> Inr r | None \<Rightarrow> find_repo_root fs (se_module_file env))
       (\<lambda>root. Inr (root @ SCHEMA_DIR_REL))"

definition read_json :: "fs \<Rightarrow> path \<Rightarrow> pyval result" where
  "read_json fs p =
     bindR (read_bytes fs p) (\<lambda>raw.
       if valid_str raw \<and> \<not> has_surrogate raw then json_loads raw else Inl UnicodeDecodeError)"

definition load_schema :: "schema_env \<Rightarrow> fs \<Rightarrow> string \<Rightarrow> path option \<Rightarrow> pyval result" where
  "load_schema env fs name repo_root =
     bindR (schema_dir env fs repo_root) (\<lambda>dir. read_json fs (path_join dir name))"

text \<open>Every schema is registered by its \<open>$id\<close>, or its file name without one, and by its file name.\<close>

definition build_registry :: "schema_env \<Rightarrow> fs \<Rightarrow> path option \<Rightarrow> (string \<times> pyval) list result" where
  "build_registry env fs repo_root =
     bindR (schema_dir env fs repo_root) (\<lambda>dir.
     bindR (mapR (\<lambda>name.
              bindR (read_json fs (dir @ [name])) (\<lambda>contents.
              bindR (val_get contents ''$id'' (PStr name)) (\<lambda>i.
                Inr [(py_str i, contents), (name, contents)])))
            (sort (filter (ends_with SCHEMA_SUFFIX) (se_listdir env fs dir)))) (\<lambda>resources.
       Inr (concat resources)))"

definition artifact_schema_name :: "pydict \<Rightarrow> string result" where
  "artifact_schema_name document =
     (case dget_or document ''artifact_type'' PNone of
        PStr t \<Rightarrow>
          (if t = [] then Inl (ValueError ''artifact is missing a string 'artifact_type' field'')
           else Inr (t @ SCHEMA_SUFFIX))
      | _ \<Rightarrow> Inl (ValueError ''artifact is missing a string 'artifact_type' field''))"

section \<open>Validation\<close>

definition validate_document :: "schema_env \<Rightarrow> fs \<Rightarrow> pydict \<Rightarrow> string \<Rightarrow> path option \<Rightarrow> string list result" where
  "validate_document env fs document schema_name repo_root =
     bindR (load_schema env fs schema_name repo_root) (\<lambda>schema.
     bindR (build_registry env fs repo_root) (\<lambda>registry.
     bindR (se_ref_errors env schema registry (PDict document)) (\<lambda>errors.
       Inr (map error_text (sort_key se_path errors)))))"

definition validate_artifact :: "schema_env \<Rightarrow> fs \<Rightarrow> pydict \<Rightarrow> path option \<Rightarrow> string list result" where
  "validate_artifact env fs document repo_root =
     bindR (artifact_schema_name document) (\<lambda>name. validate_document env fs document name repo_root)"

definition validate_file :: "schema_env \<Rightarrow> fs \<Rightarrow> string \<Rightarrow> path \<Rightarrow> path option \<Rightarrow> string list result" where
  "validate_file env fs shown p repo_root =
     bindR (read_json fs p) (\<lambda>instance.
       case instance of
         PDict d \<Rightarrow>
           (if dget d ''artifact_type'' = None \<and> dget d ''baseline_id'' \<noteq> None
            then validate_document env fs d ''baseline.schema.json'' repo_root
            else validate_artifact env fs d repo_root)
       | _ \<Rightarrow> Inr [shown @ '': top-level JSON value must be an object''])"

section \<open>Properties\<close>

lemma find_repo_root_sound:
  assumes "find_repo_root fs start = Inr root"
  shows "\<exists>origin. resolve fs start = Inr origin \<and> prefix root origin
     \<and> is_file fs (root @ SCHEMA_DIR_REL @ [''common.schema.json''])
     \<and> (\<forall>q. prefix q origin \<and> strict_prefix root q \<longrightarrow> \<not> is_file fs (q @ SCHEMA_DIR_REL @ [''common.schema.json'']))"
proof -
  let ?ok = "\<lambda>parent. is_file fs (parent @ SCHEMA_DIR_REL @ [''common.schema.json''])"
  from assms obtain origin where o: "resolve fs start = Inr origin"
      and c: "(case filter ?ok (self_and_parents origin) of [] \<Rightarrow> Inl file_not_found | parent # _ \<Rightarrow> Inr parent) = Inr root"
    unfolding find_repo_root_def bindR_eq_Inr by blast
  from c obtain ps where "filter ?ok (self_and_parents origin) = root # ps"
    by (cases "filter ?ok (self_and_parents origin)") auto
  then obtain us vs where u: "self_and_parents origin = us @ root # vs" "?ok root" "\<forall>u \<in> set us. \<not> ?ok u"
    by (auto simp: filter_eq_Cons_iff)
  from u(1) have pre: "prefixes origin = rev vs @ root # rev us"
    unfolding self_and_parents_def by (metis rev_append rev_rev_ident rev.simps(2) append_assoc append_Cons append_Nil)
  then have "root \<in> set (prefixes origin)" by simp
  then have "prefix root origin" by simp
  moreover have "\<not> ?ok q" if q: "prefix q origin" "strict_prefix root q" for q
  proof -
    have "q \<in> set (prefixes origin)" using q(1) by simp
    then have "q \<in> set vs \<or> q = root \<or> q \<in> set us" using pre by auto
    moreover have "q \<noteq> root" using q(2) by auto
    moreover have "length x < length root" if "x \<in> set vs" for x
    proof -
      have "sorted_wrt (\<lambda>a b. length a < length b) (prefixes origin)"
        by (induction origin) (auto simp: sorted_wrt_map)
      then show ?thesis using pre that by (auto simp: sorted_wrt_append)
    qed
    moreover have "length root < length q" using q(2) by (rule prefix_length_less)
    ultimately have "q \<in> set us" by force
    then show ?thesis using u(3) by blast
  qed
  ultimately show ?thesis using o u(2) by blast
qed

end
