(* ===== verification/Builtin.thy ===== *)
theory Builtin
  imports Artifacts Crypto
begin

text \<open>
  The built-in tools (\<open>tools/builtin.py\<close>): the file-backed store of canonical artifacts with its
  read, write and list tools, and the writer of text files confined to the workspace.

  The lemmas show the round trip through the artifact store and, for the writer, that whatever
  symbolic links the workspace contains, no existing node outside the root is changed and the one
  file that is written lies inside it.
\<close>

section \<open>Schemas\<close>

definition obj_schema :: "string list \<Rightarrow> pydict \<Rightarrow> bool \<Rightarrow> pydict" where
  "obj_schema required properties closed =
     [(''type'', PStr ''object''), (''required'', PList (map PStr required)), (''properties'', PDict properties)]
     @ (if closed then [(''additionalProperties'', PBool False)] else [])"

definition typed :: "string \<Rightarrow> pyval" where
  "typed t = PDict [(''type'', PStr t)]"

definition READ_SCHEMA :: pydict where
  "READ_SCHEMA = obj_schema [''artifact_id''] [(''artifact_id'', typed ''string'')] True"

definition READ_RESULT :: pydict where
  "READ_RESULT = obj_schema [''artifact_id'', ''document'']
     [(''artifact_id'', typed ''string''), (''document'', typed ''object'')] False"

definition WRITE_SCHEMA :: pydict where
  "WRITE_SCHEMA = obj_schema [''document''] [(''document'', typed ''object'')] True"

definition WRITE_RESULT :: pydict where
  "WRITE_RESULT = obj_schema [''artifact_id'', ''digest'']
     [(''artifact_id'', typed ''string''), (''digest'', typed ''string'')] False"

definition LIST_SCHEMA :: pydict where
  "LIST_SCHEMA = [(''type'', PStr ''object''), (''additionalProperties'', PBool False)]"

definition LIST_RESULT :: pydict where
  "LIST_RESULT = obj_schema [''artifact_ids'']
     [(''artifact_ids'', PDict [(''type'', PStr ''array''), (''items'', typed ''string'')])] False"

definition FILE_WRITE_SCHEMA :: pydict where
  "FILE_WRITE_SCHEMA = obj_schema [''path'', ''content'']
     [(''path'', typed ''string''), (''content'', typed ''string'')] True"

definition FILE_WRITE_RESULT :: pydict where
  "FILE_WRITE_RESULT = obj_schema [''path'', ''digest'', ''bytes'']
     [(''path'', typed ''string''), (''digest'', typed ''string''), (''bytes'', typed ''integer'')] False"

section \<open>The artifact store\<close>

definition art_path :: "path \<Rightarrow> string \<Rightarrow> path" where
  "art_path root artifact_id = path_join root (artifact_id @ ''.json'')"

definition art_read :: "path \<Rightarrow> string \<Rightarrow> fs \<Rightarrow> pydict result" where
  "art_read root artifact_id fs =
     (let p = art_path root artifact_id
      in if \<not> is_file fs p then Inl (KeyError artifact_id)
         else bindR (read_json fs p) (\<lambda>loaded. case loaded of PDict d \<Rightarrow> Inr d | _ \<Rightarrow> Inl TypeError))"

definition missing_id :: string where
  "missing_id = ''document is missing a string '' @ [quote1] @ ''id'' @ [quote1]"

definition art_write :: "path \<Rightarrow> pydict \<Rightarrow> string io" where
  "art_write root document =
     (case dget_or document ''id'' PNone of
        PStr artifact_id \<Rightarrow>
          (if artifact_id = [] then raiseW (ValueError missing_id)
           else
             bindW (liftW (dumps opts_canonical (PDict document))) (\<lambda>canonical.
             bindW (updateW (\<lambda>fs. mkdirs fs root)) (\<lambda>_.
             bindW (liftW (encode_utf8 canonical)) (\<lambda>raw.
             bindW (updateW (\<lambda>fs. write_bytes fs (art_path root artifact_id) raw)) (\<lambda>_.
               returnW (sha256_hex raw))))))
      | _ \<Rightarrow> raiseW (ValueError missing_id))"

text \<open>\<open>Path.stem\<close> of a file name that ends in \<open>.json\<close>.\<close>

definition json_stem :: "string \<Rightarrow> string" where
  "json_stem name = (if name = ''.json'' then name else take (length name - 5) name)"

definition art_list_ids :: "(fs \<Rightarrow> path \<Rightarrow> string list) \<Rightarrow> path \<Rightarrow> fs \<Rightarrow> string list" where
  "art_list_ids listdir root fs =
     (if \<not> is_dir fs root then []
      else sort (map json_stem (filter (ends_with ''.json'') (listdir fs root))))"

definition read_handler :: "path \<Rightarrow> handler" where
  "read_handler root args =
     bindW (liftW (dindex args ''artifact_id'')) (\<lambda>v.
     bindW (readW (art_read root (py_str v))) (\<lambda>document.
       returnW [(''artifact_id'', PStr (py_str v)), (''document'', PDict document)]))"

definition write_handler :: "schema_env \<Rightarrow> path \<Rightarrow> handler" where
  "write_handler env root args =
     bindW (liftW (bindR (dindex args ''document'') val_dict)) (\<lambda>document.
     bindW (readW (\<lambda>fs. validate_artifact env fs document None)) (\<lambda>errors.
       if errors \<noteq> [] then raiseW (ValueError (join ''; '' errors))
       else
         bindW (art_write root document) (\<lambda>digest.
         bindW (liftW (dindex document ''id'')) (\<lambda>i.
           returnW [(''artifact_id'', PStr (py_str i)), (''digest'', PStr digest)]))))"

definition list_handler :: "(fs \<Rightarrow> path \<Rightarrow> string list) \<Rightarrow> path \<Rightarrow> handler" where
  "list_handler listdir root args =
     bindW (readW (\<lambda>fs. Inr (art_list_ids listdir root fs))) (\<lambda>ids.
       returnW [(''artifact_ids'', PList (map PStr ids))])"

definition register_artifact_tools :: "schema_env \<Rightarrow> path \<Rightarrow> tool_registry \<Rightarrow> tool_registry result" where
  "register_artifact_tools env root = foldR tool_register
     [\<lparr>ts_name = ''read_artifact'', ts_scope = ''workspace'',
       ts_description = ''Read a canonical workflow artifact by id'',
       ts_args_schema = READ_SCHEMA, ts_result_schema = READ_RESULT, ts_handler = read_handler root\<rparr>,
      \<lparr>ts_name = ''write_artifact'', ts_scope = ''workspace'',
       ts_description = ''Validate and persist a canonical workflow artifact'',
       ts_args_schema = WRITE_SCHEMA, ts_result_schema = WRITE_RESULT, ts_handler = write_handler env root\<rparr>,
      \<lparr>ts_name = ''list_artifacts'', ts_scope = ''workspace'', ts_description = ''List stored artifact ids'',
       ts_args_schema = LIST_SCHEMA, ts_result_schema = LIST_RESULT,
       ts_handler = list_handler (se_listdir env) root\<rparr>]"

section \<open>The workspace writer\<close>

text \<open>The two lexical checks and the check after resolution that the writer, the command runner and
  the pull-request tool share.\<close>

definition inside :: "path \<Rightarrow> path \<Rightarrow> bool" where
  "inside root target \<longleftrightarrow> target = root \<or> strict_prefix root target"

definition no_dotdot :: string where
  "no_dotdot = ''path must not contain '' @ [quote1] @ dotdot @ [quote1]"

definition writer_write :: "path \<Rightarrow> string \<Rightarrow> string \<Rightarrow> pydict io" where
  "writer_write root relative_path content =
     (if relative_path = [] \<or> starts_with ''/'' relative_path \<or> starts_with [backslash] relative_path
      then raiseW (ValueError ''path must be relative to the workspace root'')
      else if List.member (path_parts relative_path) dotdot
      then raiseW (ValueError no_dotdot)
      else
        bindW (readW (\<lambda>fs. resolve fs (path_join root relative_path))) (\<lambda>target.
          if \<not> inside root target then raiseW (ValueError ''path escapes the workspace root'')
          else
            bindW (updateW (\<lambda>fs. mkdirs fs (butlast target))) (\<lambda>_.
            bindW (liftW (encode_utf8 content)) (\<lambda>data.
            bindW (updateW (\<lambda>fs. write_bytes fs target data)) (\<lambda>_.
              returnW [(''path'', PStr (replace_char backslash CHR ''/'' relative_path)),
                       (''digest'', PStr (sha256_hex data)), (''bytes'', PInt (int (length data)))])))))"

definition write_file_handler :: "path \<Rightarrow> handler" where
  "write_file_handler root args =
     bindW (liftW (dindex args ''path'')) (\<lambda>p.
     bindW (liftW (dindex args ''content'')) (\<lambda>c. writer_write root (py_str p) (py_str c)))"

definition register_file_tools :: "fs \<Rightarrow> path \<Rightarrow> tool_registry \<Rightarrow> tool_registry result" where
  "register_file_tools fs root tools =
     bindR (resolve fs root) (\<lambda>resolved.
       tool_register
         \<lparr>ts_name = ''write_file'', ts_scope = ''workspace'',
          ts_description = ''Write a UTF-8 text file confined to the workspace root'',
          ts_args_schema = FILE_WRITE_SCHEMA, ts_result_schema = FILE_WRITE_RESULT,
          ts_handler = write_file_handler resolved\<rparr> tools)"

section \<open>Properties of the artifact store\<close>

lemma art_write_Inr:
  assumes "art_write root document w = (Inr dg, w')"
  obtains artifact_id fs1 fs2 where "dget document ''id'' = Some (PStr artifact_id)" "artifact_id \<noteq> []"
    "ints_ok (PDict document)" "\<not> has_surrogate (json_dumps opts_canonical (PDict document))"
    "dg = sha256_hex (json_dumps opts_canonical (PDict document))"
    "mkdirs (w_fs w) root = Inr fs1"
    "write_bytes fs1 (art_path root artifact_id) (json_dumps opts_canonical (PDict document)) = Inr fs2"
    "w' = w\<lparr>w_fs := fs2\<rparr>"
proof (cases "dget document ''id''")
  case (Some v)
  show ?thesis
  proof (cases v)
    case (PStr i)
    let ?t = "json_dumps opts_canonical (PDict document)"
    have i: "i \<noteq> []" using assms Some PStr by (auto simp: art_write_def dget_or_def raiseW_def)
    from assms have "bindW (liftW (dumps opts_canonical (PDict document))) (\<lambda>canonical.
        bindW (updateW (\<lambda>fs. mkdirs fs root)) (\<lambda>_. bindW (liftW (encode_utf8 canonical)) (\<lambda>raw.
        bindW (updateW (\<lambda>fs. write_bytes fs (art_path root i) raw)) (\<lambda>_. returnW (sha256_hex raw))))) w = (Inr dg, w')"
      using Some PStr i by (simp add: art_write_def dget_or_def)
    then obtain t raw w1 where t: "dumps opts_canonical (PDict document) = Inr t" "encode_utf8 t = Inr raw"
        and u: "updateW (\<lambda>fs. mkdirs fs root) w = (Inr (), w1)"
          "updateW (\<lambda>fs. write_bytes fs (art_path root i) raw) w1 = (Inr (), w')" "dg = sha256_hex raw"
      unfolding bindW_Inr liftW_def returnW_def by auto
    from t have "ints_ok (PDict document)" "t = ?t" "raw = ?t" "\<not> has_surrogate ?t"
      by (auto simp: dumps_Inr encode_utf8_def split: if_splits)
    moreover from u(1,2) obtain fs1 fs2 where "mkdirs (w_fs w) root = Inr fs1" "w1 = w\<lparr>w_fs := fs1\<rparr>"
        "write_bytes fs1 (art_path root i) raw = Inr fs2" "w' = w\<lparr>w_fs := fs2\<rparr>"
      unfolding updateW_def by (auto split: sum.splits)
    ultimately show ?thesis using that [of i fs1 fs2] Some PStr i u(3) by simp
  qed (use Some assms in \<open>simp_all add: art_write_def dget_or_def raiseW_def\<close>)
qed (use assms in \<open>simp add: art_write_def dget_or_def raiseW_def\<close>)

lemma art_write_read:
  assumes "art_write root document w = (Inr dg, w')" "wf_val (PDict document)" "printable opts_canonical (PDict document)"
    and "dget document ''id'' = Some (PStr artifact_id)"
  shows "art_read root artifact_id (w_fs w') = Inr (sort_key fst (sort_pairs document))"
  using assms(1)
proof (rule art_write_Inr)
  fix i fs1 fs2
  assume i: "dget document ''id'' = Some (PStr i)"
    and s: "\<not> has_surrogate (json_dumps opts_canonical (PDict document))"
    and wr: "write_bytes fs1 (art_path root i) (json_dumps opts_canonical (PDict document)) = Inr fs2"
    and w': "w' = w\<lparr>w_fs := fs2\<rparr>"
  have "valid_str (json_dumps opts_canonical (PDict document))"
    using assms(2,3) by (intro valid_dumps(1)) (simp_all add: opts_canonical_def)
  moreover have "canon opts_canonical (PDict document) = PDict (sort_key fst (sort_pairs document))"
    by (simp add: canon_def opts_canonical_def)
  ultimately show ?thesis
    using i s w' assms(4) read_written [OF wr] json_roundtrip [OF assms(3)]
    by (simp add: art_read_def read_json_def Let_def)
qed

lemma write_handler_Inr:
  assumes "write_handler env root args w = (Inr res, w')"
  obtains document i dg where "bindR (dindex args ''document'') val_dict = Inr document"
    "validate_artifact env (w_fs w) document None = Inr []"
    "art_write root document w = (Inr dg, w')" "dget document ''id'' = Some (PStr i)"
    "res = [(''artifact_id'', PStr i), (''digest'', PStr dg)]"
proof -
  from assms obtain document errors where d: "bindR (dindex args ''document'') val_dict = Inr document"
      and v: "validate_artifact env (w_fs w) document None = Inr errors"
      and rest: "(if errors \<noteq> [] then raiseW (ValueError (join ''; '' errors))
       else bindW (art_write root document) (\<lambda>digest. bindW (liftW (dindex document ''id'')) (\<lambda>i.
           returnW [(''artifact_id'', PStr (py_str i)), (''digest'', PStr digest)]))) w = (Inr res, w')"
    unfolding write_handler_def bindW_Inr liftW_def readW_def by auto
  from rest have e: "errors = []" by (auto simp: raiseW_def split: if_splits)
  with rest obtain dg v where wr: "art_write root document w = (Inr dg, w')" "dindex document ''id'' = Inr v"
      "res = [(''artifact_id'', PStr (py_str v)), (''digest'', PStr dg)]"
    by (auto simp: bindW_Inr liftW_def returnW_def)
  from wr(1) obtain i where "dget document ''id'' = Some (PStr i)" by (rule art_write_Inr)
  with wr(2,3) that [OF d _ wr(1), of i] v e show ?thesis by (auto simp: dindex_def)
qed

text \<open>
  C35: what \<open>write_artifact\<close> stores was accepted by the schema validation first, is what
  \<open>read_artifact\<close> returns for its identifier afterwards (with its keys in order), and is
  digested as it was stored. The document is any JSON object without floats.
\<close>

theorem written_artifact_valid_and_readable:
  assumes "write_handler env root [(''document'', PDict document)] w = (Inr res, w')"
    and "wf_val (PDict document)" "printable opts_canonical (PDict document)"
  shows "\<exists>i. dget document ''id'' = Some (PStr i) \<and> validate_artifact env (w_fs w) document None = Inr []
    \<and> read_handler root [(''artifact_id'', PStr i)] w'
        = (Inr [(''artifact_id'', PStr i), (''document'', sort_val (PDict document))], w')
    \<and> res = [(''artifact_id'', PStr i), (''digest'', PStr (sha256_hex (json_dumps opts_canonical (PDict document))))]"
  using assms(1)
proof (rule write_handler_Inr)
  fix doc i dg
  assume d: "bindR (dindex [(''document'', PDict document)] ''document'') val_dict = Inr doc"
    and rest: "validate_artifact env (w_fs w) doc None = Inr []" "art_write root doc w = (Inr dg, w')"
      "dget doc ''id'' = Some (PStr i)" "res = [(''artifact_id'', PStr i), (''digest'', PStr dg)]"
  from d have doc: "doc = document" by (simp add: dindex_def)
  have "dg = sha256_hex (json_dumps opts_canonical (PDict document))"
    using rest(2) unfolding doc by (rule art_write_Inr)
  moreover have "art_read root i (w_fs w') = Inr (sort_key fst (sort_pairs document))"
    using art_write_read [OF rest(2) [unfolded doc] assms(2,3)] rest(3) doc by simp
  then have "read_handler root [(''artifact_id'', PStr i)] w'
      = (Inr [(''artifact_id'', PStr i), (''document'', sort_val (PDict document))], w')"
    by (simp add: read_handler_def dindex_def io_defs)
  ultimately show ?thesis using rest doc by blast
qed

text \<open>
  An artifact that the schema validation rejects never enters the store: the tool raises
  \<open>ValueError\<close> with the violations and changes nothing.
\<close>

theorem invalid_artifact_not_stored:
  assumes "validate_artifact env (w_fs w) document None = Inr errors" "errors \<noteq> []"
  shows "write_handler env root [(''document'', PDict document)] w = (Inl (ValueError (join ''; '' errors)), w)"
  using assms by (simp add: write_handler_def dindex_def io_defs)

section \<open>Properties of the writer\<close>

lemma writer_checks:
  assumes "writer_write root rel content w = (r, w')" "w' \<noteq> w \<or> (\<exists>res. r = Inr res)"
  obtains target fs1 where "resolve (w_fs w) (path_join root rel) = Inr target" "inside root target"
    "mkdirs (w_fs w) (butlast target) = Inr fs1"
    "(\<exists>e. r = Inl e) \<and> w' = w\<lparr>w_fs := fs1\<rparr>
     \<or> (\<exists>fs2. \<not> has_surrogate content \<and> write_bytes fs1 target content = Inr fs2 \<and> w' = w\<lparr>w_fs := fs2\<rparr>
         \<and> r = Inr [(''path'', PStr (replace_char backslash CHR ''/'' rel)),
                (''digest'', PStr (sha256_hex content)), (''bytes'', PInt (int (length content)))])"
proof -
  have g: "\<not> (rel = [] \<or> starts_with ''/'' rel \<or> starts_with [backslash] rel)" "\<not> List.member (path_parts rel) dotdot"
    using assms by (auto simp: writer_write_def raiseW_def split: if_splits)
  obtain target where t: "resolve (w_fs w) (path_join root rel) = Inr target"
    using assms g by (cases "resolve (w_fs w) (path_join root rel)") (auto simp: writer_write_def bindW_def readW_def)
  have i: "inside root target"
    using assms g t by (auto simp: writer_write_def bindW_def readW_def raiseW_def split: if_splits)
  obtain fs1 where m: "mkdirs (w_fs w) (butlast target) = Inr fs1"
    using assms g t i by (cases "mkdirs (w_fs w) (butlast target)") (auto simp: writer_write_def io_defs)
  have "(r, w') = bindW (liftW (encode_utf8 content)) (\<lambda>data. bindW (updateW (\<lambda>fs. write_bytes fs target data)) (\<lambda>_.
      returnW [(''path'', PStr (replace_char backslash CHR ''/'' rel)), (''digest'', PStr (sha256_hex data)),
        (''bytes'', PInt (int (length data)))])) (w\<lparr>w_fs := fs1\<rparr>)"
    using assms(1) g t i m by (simp add: writer_write_def bindW_def readW_def updateW_def)
  then have "(\<exists>e. r = Inl e) \<and> w' = w\<lparr>w_fs := fs1\<rparr>
     \<or> (\<exists>fs2. \<not> has_surrogate content \<and> write_bytes fs1 target content = Inr fs2 \<and> w' = w\<lparr>w_fs := fs2\<rparr>
         \<and> r = Inr [(''path'', PStr (replace_char backslash CHR ''/'' rel)),
                (''digest'', PStr (sha256_hex content)), (''bytes'', PInt (int (length content)))])"
    by (cases "write_bytes fs1 target content") (auto simp: io_defs encode_utf8_def split: if_splits)
  with that [OF t i m] show ?thesis by blast
qed

lemma with_dirs_outside:
  "inside root target \<Longrightarrow> \<not> inside root q \<Longrightarrow> \<not> strict_prefix q root \<Longrightarrow> with_dirs fs (butlast target) q = fs q"
proof -
  assume a: "inside root target" "\<not> inside root q" "\<not> strict_prefix q root"
  have "\<not> prefix q (butlast target)"
  proof
    assume "prefix q (butlast target)"
    then have "prefix q target" by (metis prefixeq_butlast prefix_order.trans)
    moreover have "prefix root target" using a(1) by (auto simp: inside_def)
    ultimately have "prefix q root \<or> prefix root q" by (rule prefix_same_cases)
    with a(2,3) show False by (auto simp: inside_def prefix_order.less_le)
  qed
  then show ?thesis by (simp add: with_dirs_def)
qed

lemma with_dirs_keeps: "fs q \<noteq> None \<Longrightarrow> with_dirs fs p q = fs q"
  by (auto simp: with_dirs_def)

text \<open>
  C34: the workspace writer is confined. Whatever links the workspace holds and whatever path and
  content it is given, no node that exists outside the root is changed, nothing is created
  outside it except missing ancestors of the root, and nothing leaves the process. When it
  succeeds, exactly one file inside the root has been written, it reads back as the content, and
  the result carries its digest and size.
\<close>

theorem writer_is_confined:
  assumes "fs_wf (w_fs w)" "writer_write root rel content w = (r, w')"
  shows "(\<forall>q. \<not> inside root q \<and> (w_fs w q \<noteq> None \<or> \<not> strict_prefix q root) \<longrightarrow> w_fs w' q = w_fs w q)
    \<and> w_calls w' = w_calls w
    \<and> (\<forall>res. r = Inr res \<longrightarrow> (\<exists>target. inside root target \<and> resolve (w_fs w) (path_join root rel) = Inr target
         \<and> w_fs w' = (with_dirs (w_fs w) (butlast target))(target \<mapsto> File content)
         \<and> read_bytes (w_fs w') target = Inr content
         \<and> res = [(''path'', PStr (replace_char backslash CHR ''/'' rel)), (''digest'', PStr (sha256_hex content)),
               (''bytes'', PInt (int (length content)))]))"
proof (cases "w' \<noteq> w \<or> (\<exists>res. r = Inr res)")
  case True
  from assms(2) this show ?thesis
  proof (rule writer_checks)
    fix target fs1
    assume t: "resolve (w_fs w) (path_join root rel) = Inr target" and i: "inside root target"
      and m: "mkdirs (w_fs w) (butlast target) = Inr fs1"
      and c: "(\<exists>e. r = Inl e) \<and> w' = w\<lparr>w_fs := fs1\<rparr>
        \<or> (\<exists>fs2. \<not> has_surrogate content \<and> write_bytes fs1 target content = Inr fs2 \<and> w' = w\<lparr>w_fs := fs2\<rparr>
         \<and> r = Inr [(''path'', PStr (replace_char backslash CHR ''/'' rel)),
                (''digest'', PStr (sha256_hex content)), (''bytes'', PInt (int (length content)))])"
    have lf: "link_free (w_fs w) target" using assms(1) t by (rule resolve_link_free)
    have fs1: "fs1 = with_dirs (w_fs w) (butlast target)"
      using mkdirs_link_free [OF link_free_butlast [OF lf] m] by blast
    note out = with_dirs_outside [OF i] with_dirs_keeps
    from c show ?thesis
    proof (elim disjE exE conjE)
      fix fs2 assume wr: "write_bytes fs1 target content = Inr fs2" and w': "w' = w\<lparr>w_fs := fs2\<rparr>"
        and r: "r = Inr [(''path'', PStr (replace_char backslash CHR ''/'' rel)),
                (''digest'', PStr (sha256_hex content)), (''bytes'', PInt (int (length content)))]"
      have ne: "target \<noteq> []" using wr by (auto simp: write_bytes_def os_path_def node_at_def)
      have "fs2 = (with_dirs (w_fs w) (butlast target))(target \<mapsto> File content)"
        using mkdirs_write [OF lf ne m wr] .
      with w' r t i read_written(2) [OF wr] out show ?thesis by auto
    qed (use fs1 out in auto)
  qed
qed (use assms in auto)

section \<open>Witnesses\<close>

text \<open>A repository at \<open>/r\<close> with one schema, and a validator that accepts everything.\<close>

definition demo_schema_fs :: fs where
  "demo_schema_fs = [[''r''] \<mapsto> Dir, [''r'', ''contracts''] \<mapsto> Dir, [''r'', ''contracts'', ''schemas''] \<mapsto> Dir,
     [''r'', ''contracts'', ''schemas'', ''common.schema.json''] \<mapsto> File ''{}'',
     [''r'', ''contracts'', ''schemas'', ''spec.schema.json''] \<mapsto> File ''{}'']"

definition demo_env :: schema_env where
  "demo_env = \<lparr>se_module_file = [''r'', ''registry.py''], se_listdir = (\<lambda>fs p. [''common.schema.json'', ''spec.schema.json'']),
     se_ref_errors = (\<lambda>schema resources v. Inr (if v = PDict [(''id'', PStr ''SPEC-1''), (''artifact_type'', PStr ''spec'')] then []
        else [\<lparr>se_path = [], se_message = ''bad''\<rparr>]))\<rparr>"

definition demo_doc :: pydict where
  "demo_doc = [(''id'', PStr ''SPEC-1''), (''artifact_type'', PStr ''spec'')]"

definition demo_world :: world where
  "demo_world = \<lparr>w_fs = demo_schema_fs, w_calls = []\<rparr>"

lemma demo_valid: "validate_artifact demo_env (w_fs demo_world) demo_doc None = Inr []"
  by code_simp

lemma demo_invalid:
  "validate_artifact demo_env (w_fs demo_world) [(''id'', PInt 3), (''artifact_type'', PStr ''spec'')] None = Inr [''<root>: bad'']"
  by code_simp

lemma art_write_total:
  assumes "dget document ''id'' = Some (PStr i)" "i \<noteq> []" "ints_ok (PDict document)"
    and "\<not> has_surrogate (json_dumps opts_canonical (PDict document))" "mkdirs (w_fs w) root = Inr fs1"
    and "write_bytes fs1 (art_path root i) (json_dumps opts_canonical (PDict document)) = Inr fs2"
  shows "art_write root document w = (Inr (sha256_hex (json_dumps opts_canonical (PDict document))), w\<lparr>w_fs := fs2\<rparr>)"
  using assms by (simp add: art_write_def dget_or_def io_defs dumps_def encode_utf8_def)

lemma demo_write: "\<exists>res w'. write_handler demo_env [''store''] [(''document'', PDict demo_doc)] demo_world = (Inr res, w')"
proof -
  have "\<not> isl (bindR (mkdirs (w_fs demo_world) [''store''])
      (\<lambda>fs1. write_bytes fs1 (art_path [''store''] ''SPEC-1'') (json_dumps opts_canonical (PDict demo_doc))))"
    by code_simp
  then obtain fs1 fs2 where f: "mkdirs (w_fs demo_world) [''store''] = Inr fs1"
      "write_bytes fs1 (art_path [''store''] ''SPEC-1'') (json_dumps opts_canonical (PDict demo_doc)) = Inr fs2"
    by (cases "mkdirs (w_fs demo_world) [''store'']";
        cases "write_bytes (projr (mkdirs (w_fs demo_world) [''store''])) (art_path [''store''] ''SPEC-1'') (json_dumps opts_canonical (PDict demo_doc))")
      auto
  have d: "dget demo_doc ''id'' = Some (PStr ''SPEC-1'')" by (simp add: demo_doc_def)
  have "ints_ok (PDict demo_doc)" "\<not> has_surrogate (json_dumps opts_canonical (PDict demo_doc))" by code_simp+
  from art_write_total [OF d _ this f] obtain dg w' where
    "art_write [''store''] demo_doc demo_world = (Inr dg, w')" by simp
  then show ?thesis using demo_valid d by (simp add: write_handler_def dindex_def io_defs)
qed

theorem written_artifact_valid_and_readable_witness:
  "\<exists>res w'. write_handler demo_env [''store''] [(''document'', PDict demo_doc)] demo_world = (Inr res, w')
     \<and> wf_val (PDict demo_doc) \<and> printable opts_canonical (PDict demo_doc)
     \<and> validate_artifact demo_env (w_fs demo_world) demo_doc None = Inr []
     \<and> read_handler [''store''] [(''artifact_id'', PStr ''SPEC-1'')] w'
         = (Inr [(''artifact_id'', PStr ''SPEC-1''), (''document'', sort_val (PDict demo_doc))], w')"
proof -
  obtain res w' where w: "write_handler demo_env [''store''] [(''document'', PDict demo_doc)] demo_world = (Inr res, w')"
    using demo_write by blast
  have p: "wf_val (PDict demo_doc)" "printable opts_canonical (PDict demo_doc)" by code_simp+
  have "dget demo_doc ''id'' = Some (PStr ''SPEC-1'')" by (simp add: demo_doc_def)
  with written_artifact_valid_and_readable [OF w p] w p show ?thesis by auto
qed

theorem invalid_artifact_not_stored_witness:
  "write_handler demo_env [''store''] [(''document'', PDict [(''id'', PInt 3), (''artifact_type'', PStr ''spec'')])] demo_world
     = (Inl (ValueError ''<root>: bad''), demo_world)"
  using invalid_artifact_not_stored [OF demo_invalid] by simp

text \<open>A workspace with a link that leads out of it: writing through the link is refused, writing
  beside it succeeds.\<close>

definition link_world :: world where
  "link_world = \<lparr>w_fs = [[''ws''] \<mapsto> Dir, [''etc''] \<mapsto> Dir, [''ws'', ''out''] \<mapsto> Link True [''etc'']], w_calls = []\<rparr>"

theorem writer_is_confined_witness:
  "w_fs (snd (writer_write [''ws''] ''out/passwd'' ''x'' link_world)) [''etc'', ''passwd''] = None
   \<and> read_bytes (w_fs (snd (writer_write [''ws''] ''a/b.txt'' ''x'' link_world))) [''ws'', ''a'', ''b.txt''] = Inr ''x''"
proof -
  have wf: "fs_wf (w_fs link_world)" by (simp add: fs_wf_def link_world_def)
  have "\<not> isl (bindR (mkdirs (w_fs link_world) [''ws'', ''a'']) (\<lambda>fs1. write_bytes fs1 [''ws'', ''a'', ''b.txt''] ''x''))"
    and g: "path_parts ''a/b.txt'' = [''a'', ''b.txt'']" "\<not> has_surrogate ''x''"
      "\<not> starts_with ''/'' ''a/b.txt''" "\<not> starts_with [backslash] ''a/b.txt''"
    and t: "resolve (w_fs link_world) (path_join [''ws''] ''a/b.txt'') = Inr [''ws'', ''a'', ''b.txt'']"
    by code_simp+
  then obtain fs1 fs2 where f: "mkdirs (w_fs link_world) [''ws'', ''a''] = Inr fs1"
      "write_bytes fs1 [''ws'', ''a'', ''b.txt''] ''x'' = Inr fs2"
    by (cases "mkdirs (w_fs link_world) [''ws'', ''a'']";
        cases "write_bytes (projr (mkdirs (w_fs link_world) [''ws'', ''a''])) [''ws'', ''a'', ''b.txt''] ''x''") auto
  have "\<exists>res w'. writer_write [''ws''] ''a/b.txt'' ''x'' link_world = (Inr res, w')"
    using f g t by (simp add: writer_write_def io_defs encode_utf8_def inside_def)
  then obtain res w' where ok: "writer_write [''ws''] ''a/b.txt'' ''x'' link_world = (Inr res, w')" by blast
  have out: "\<not> inside [''ws''] [''etc'', ''passwd'']" "\<not> strict_prefix [''etc'', ''passwd''] [''ws'']"
    by (simp_all add: inside_def)
  obtain r w'' where bad: "writer_write [''ws''] ''out/passwd'' ''x'' link_world = (r, w'')" by fastforce
  show ?thesis
    using writer_is_confined [OF wf ok] writer_is_confined [OF wf bad] ok bad t out
    by (auto simp: link_world_def)
qed

end
