(* ===== verification/Commands.thy ===== *)
theory Commands
  imports Builtin Policy
begin

text \<open>
  The allowlisted command runner (\<open>tools/commands.py\<close>). \<open>subprocess.run\<close> is the argument \<open>run\<close>: given
  everything that left the process before, the argument vector, the working directory and the
  file system, it answers with a completed process or an exception, and may change the file
  system. Every call of it is appended to the world's record of calls.

  The lemmas show that nothing is started but an allowlisted bare program name with a working
  directory inside the root, and that the captured output is cut at the limit.
\<close>

section \<open>The runner\<close>

definition DEFAULT_ALLOWED_PROGRAMS :: "string list" where
  "DEFAULT_ALLOWED_PROGRAMS = [''ruff'', ''mypy'', ''pytest'', ''opa'', ''gofmt'', ''go'']"

definition MAX_OUTPUT_CHARS :: nat where
  "MAX_OUTPUT_CHARS = 20000"

definition RUN_SCHEMA :: pydict where
  "RUN_SCHEMA = obj_schema [''argv'']
     [(''argv'', PDict [(''type'', PStr ''array''), (''items'', typed ''string''), (''minItems'', PInt 1)]),
      (''cwd'', typed ''string'')] True"

definition RUN_RESULT :: pydict where
  "RUN_RESULT = obj_schema [''exit_code'', ''stdout'', ''stderr'', ''truncated'']
     [(''exit_code'', typed ''integer''), (''stdout'', typed ''string''), (''stderr'', typed ''string''),
      (''truncated'', typed ''boolean'')] False"

record completed =
  cp_returncode :: int
  cp_stdout :: "string option"
  cp_stderr :: "string option"

type_synonym run_callable = "ext_call list \<Rightarrow> string list \<Rightarrow> path \<Rightarrow> fs \<Rightarrow> completed result \<times> fs"

record command_runner =
  cr_root :: path
  cr_allow :: "string list"
  cr_run :: run_callable

definition new_command_runner :: "fs \<Rightarrow> path \<Rightarrow> string list \<Rightarrow> run_callable \<Rightarrow> command_runner result" where
  "new_command_runner fs root allowlist run =
     bindR (resolve fs root) (\<lambda>resolved. Inr \<lparr>cr_root = resolved, cr_allow = allowlist, cr_run = run\<rparr>)"

text \<open>The checks on one argument, in order.\<close>

fun check_items :: "pyval list \<Rightarrow> unit result" where
  "check_items [] = Inr ()"
| "check_items (PStr s # items) =
     (if List.member s CHR 0x00 then Inl (ValueError ''argv must not contain NUL'') else check_items items)"
| "check_items (_ # items) = Inl TypeError"

fun validate_argv :: "string list \<Rightarrow> pyval \<Rightarrow> unit result" where
  "validate_argv allow (PList (PStr program # rest)) =
     (if List.member program CHR ''/'' \<or> List.member program backslash
      then Inl (ValueError ''program must be a bare name on the allowlist'')
      else if \<not> List.member allow program then Inl (ValueError (''program not allowed: '' @ program))
      else check_items (PStr program # rest))"
| "validate_argv allow (PList (_ # rest)) = Inl (ValueError ''program must be a bare name on the allowlist'')"
| "validate_argv allow _ = Inl (ValueError ''argv must be a non-empty list of strings'')"

definition resolve_cwd :: "path \<Rightarrow> string \<Rightarrow> fs \<Rightarrow> path result" where
  "resolve_cwd root cwd fs =
     (if cwd = [] \<or> cwd = ''.'' then Inr root
      else if starts_with ''/'' cwd \<or> starts_with [backslash] cwd \<or> List.member (path_parts cwd) dotdot
      then Inl (ValueError ''cwd must be relative to the workspace root'')
      else
        bindR (resolve fs (path_join root cwd)) (\<lambda>target.
          if \<not> inside root target then Inl (ValueError ''cwd escapes the workspace root'')
          else if \<not> is_dir fs target then Inl (ValueError ''cwd is not a directory'')
          else Inr target))"

text \<open>Starting a program: the call is recorded, then the program acts.\<close>

definition run_program :: "command_runner \<Rightarrow> string list \<Rightarrow> path \<Rightarrow> completed io" where
  "run_program cr argv cwd = (\<lambda>w.
     case cr_run cr (w_calls w) argv cwd (w_fs w) of
       (r, fs') \<Rightarrow> (r, w\<lparr>w_fs := fs', w_calls := w_calls w @ [RunProgram argv cwd (os_path (w_fs w) cwd)]\<rparr>))"

definition text_or_empty :: "string option \<Rightarrow> string" where
  "text_or_empty t = (case t of None \<Rightarrow> [] | Some s \<Rightarrow> s)"

definition run_result :: "completed \<Rightarrow> pydict" where
  "run_result c =
     (let stdout = text_or_empty (cp_stdout c); stderr = text_or_empty (cp_stderr c);
          truncated = (MAX_OUTPUT_CHARS < py_len stdout \<or> MAX_OUTPUT_CHARS < py_len stderr)
      in [(''exit_code'', PInt (cp_returncode c)), (''stdout'', PStr (py_take MAX_OUTPUT_CHARS stdout)),
          (''stderr'', PStr (py_take MAX_OUTPUT_CHARS stderr)), (''truncated'', PBool truncated)])"

definition cmd_execute :: "command_runner \<Rightarrow> pyval \<Rightarrow> string \<Rightarrow> pydict io" where
  "cmd_execute cr argv cwd =
     bindW (liftW (validate_argv (cr_allow cr) argv)) (\<lambda>_.
     bindW (liftW (val_iter argv)) (\<lambda>items.
     bindW (readW (resolve_cwd (cr_root cr) cwd)) (\<lambda>dir.
     bindW (run_program cr (map str_of items) dir) (\<lambda>c. returnW (run_result c)))))"

definition run_tests_handler :: "command_runner \<Rightarrow> handler" where
  "run_tests_handler cr args =
     bindW (liftW (bindR (dindex args ''argv'') val_iter)) (\<lambda>items.
       cmd_execute cr (PList (map (\<lambda>v. PStr (py_str v)) items)) (py_str (dget_or args ''cwd'' (PStr []))))"

definition register_test_tools ::
    "fs \<Rightarrow> path \<Rightarrow> string list \<Rightarrow> run_callable \<Rightarrow> tool_registry \<Rightarrow> tool_registry result" where
  "register_test_tools fs root allowlist run tools =
     bindR (new_command_runner fs root allowlist run) (\<lambda>cr.
       tool_register
         \<lparr>ts_name = ''run_tests'', ts_scope = ''workspace'',
          ts_description = ''Run an allowlisted repository check (pytest/ruff/mypy/opa) via explicit argv'',
          ts_args_schema = RUN_SCHEMA, ts_result_schema = RUN_RESULT, ts_handler = run_tests_handler cr\<rparr> tools)"

section \<open>What is checked before a program starts\<close>

definition argv_ok :: "string list \<Rightarrow> string list \<Rightarrow> bool" where
  "argv_ok allow argv \<longleftrightarrow> argv \<noteq> [] \<and> hd argv \<in> set allow \<and> CHR ''/'' \<notin> set (hd argv) \<and> backslash \<notin> set (hd argv)
     \<and> (\<forall>a \<in> set argv. CHR 0x00 \<notin> set a)"

lemma check_items_iff: "check_items items = Inr () \<longleftrightarrow> (\<exists>ss. items = map PStr ss \<and> (\<forall>s \<in> set ss. CHR 0x00 \<notin> set s))"
proof (induction items rule: check_items.induct)
  case (2 s items)
  have "(\<exists>ss. PStr s # items = map PStr ss \<and> (\<forall>x \<in> set ss. CHR 0x00 \<notin> set x))
      \<longleftrightarrow> CHR 0x00 \<notin> set s \<and> (\<exists>ss. items = map PStr ss \<and> (\<forall>x \<in> set ss. CHR 0x00 \<notin> set x))"
    by (auto simp: Cons_eq_map_conv) (metis list.set_intros set_ConsD list.simps(9))
  with 2 show ?case by auto
qed (auto simp: Cons_eq_map_conv)

lemma validate_argv_iff: "validate_argv allow argv = Inr () \<longleftrightarrow> (\<exists>ss. argv = PList (map PStr ss) \<and> argv_ok allow ss)"
proof (cases "(allow, argv)" rule: validate_argv.cases)
  case (1 al program rest)
  have "(\<exists>ss. argv = PList (map PStr ss) \<and> argv_ok allow ss) \<longleftrightarrow>
      CHR ''/'' \<notin> set program \<and> backslash \<notin> set program \<and> program \<in> set allow
        \<and> check_items (PStr program # rest) = Inr ()"
    unfolding check_items_iff using 1 by (auto simp: argv_ok_def Cons_eq_map_conv)
  with 1 show ?thesis by (auto simp del: check_items.simps)
qed (auto simp: argv_ok_def Cons_eq_map_conv)

text \<open>
  Where a program may be started: in the root, or in the directory inside it that the requested
  path resolves to, which the system then enters without following a link.
\<close>

definition confined_cwd :: "path \<Rightarrow> string \<Rightarrow> fs \<Rightarrow> path \<Rightarrow> bool" where
  "confined_cwd root cwd fs dir \<longleftrightarrow>
     (if cwd = [] \<or> cwd = ''.'' then dir = root
      else resolve fs (path_join root cwd) = Inr dir \<and> prefix root dir \<and> os_path fs dir = Inr dir \<and> node_at fs dir = Some Dir)"

lemma resolve_cwd_confined: "resolve_cwd root cwd fs = Inr dir \<Longrightarrow> confined_cwd root cwd fs dir"
  using resolved_dir by (auto simp: resolve_cwd_def confined_cwd_def inside_def bindR_eq_Inr split: if_splits)

lemma cmd_execute_cases:
  "(\<exists>e. cmd_execute cr argv cwd w = (Inl e, w)) \<or>
   (\<exists>ss dir. argv = PList (map PStr ss) \<and> argv_ok (cr_allow cr) ss \<and> resolve_cwd (cr_root cr) cwd (w_fs w) = Inr dir
      \<and> cmd_execute cr argv cwd w = bindW (run_program cr ss dir) (\<lambda>c. returnW (run_result c)) w)"
proof (cases "validate_argv (cr_allow cr) argv")
  case (Inr u)
  then obtain ss where ss: "argv = PList (map PStr ss)" "argv_ok (cr_allow cr) ss" by (auto simp: validate_argv_iff)
  have m: "map (str_of \<circ> PStr) ss = ss" by (simp add: comp_def)
  show ?thesis
  proof (cases "resolve_cwd (cr_root cr) cwd (w_fs w)")
    case (Inl e)
    then show ?thesis using Inr ss m by (simp add: cmd_execute_def bindW_def liftW_def readW_def)
  next
    case (Inr dir)
    then have "cmd_execute cr argv cwd w = bindW (run_program cr ss dir) (\<lambda>c. returnW (run_result c)) w"
      using \<open>validate_argv (cr_allow cr) argv = Inr u\<close> ss m
      by (simp add: cmd_execute_def bindW_def liftW_def readW_def)
    with Inr ss show ?thesis by blast
  qed
qed (simp add: cmd_execute_def bindW_liftW raiseW_def)

section \<open>Cutting text\<close>

lemma span_prefix:
  assumes "u = [] \<or> \<not> p (hd u)"
  shows "takeWhile p (takeWhile p s @ u) = takeWhile p s" "dropWhile p (takeWhile p s @ u) = u"
proof -
  have u: "takeWhile p u = [] \<and> dropWhile p u = u" using assms by (cases u) simp_all
  show "takeWhile p (takeWhile p s @ u) = takeWhile p s" by (induction s) (simp_all add: u)
  show "dropWhile p (takeWhile p s @ u) = u" by (induction s) (simp_all add: u)
qed

lemma py_chars_concat_take: "py_chars (concat (take n (py_chars s))) = take n (py_chars s)"
proof (induction s arbitrary: n rule: py_chars.induct)
  case (2 c s)
  show ?case
  proof (cases n)
    case (Suc m)
    let ?g = "takeWhile is_cont s" and ?r = "dropWhile is_cont s"
    have t: "concat (take m (py_chars ?r)) = [] \<or> \<not> is_cont (hd (concat (take m (py_chars ?r))))"
    proof (cases ?r)
      case (Cons d r)
      then have "\<not> is_cont d" by (metis hd_dropWhile list.distinct(1) list.sel(1))
      then show ?thesis using Cons by (cases m) simp_all
    qed (simp del: dropWhile_eq_Nil_conv)
    have "takeWhile is_cont (?g @ concat (take m (py_chars ?r))) = ?g"
      "dropWhile is_cont (?g @ concat (take m (py_chars ?r))) = concat (take m (py_chars ?r))"
      using span_prefix [where p = is_cont, OF t] by simp_all
    then show ?thesis using 2 [of m] Suc by simp
  qed simp
qed simp

lemma py_len_take: "py_len (py_take n s) = min n (py_len s)"
  by (simp add: py_len_def py_take_def py_chars_concat_take)

lemma py_take_prefix: "prefix (py_take n s) s"
proof -
  have "concat (take n (py_chars s)) @ concat (drop n (py_chars s)) = s"
    by (metis append_take_drop_id concat_append concat_py_chars)
  then show ?thesis unfolding py_take_def prefix_def by metis
qed

lemma py_take_cut: "py_take n s \<noteq> s \<longleftrightarrow> n < py_len s"
proof (cases "n < py_len s")
  case True
  then have "py_len (py_take n s) < py_len s" by (simp add: py_len_take)
  with True show ?thesis by force
qed (simp add: py_take_all)

section \<open>Properties\<close>

text \<open>
  C33: the command runner starts nothing but an allowlisted program. Either it raises and nothing
  has happened, or exactly one program was started: its name is on the allowlist and holds no
  path separator, no argument holds a NUL, and its working directory is the root or what the
  requested path resolves to after all links: a directory inside the root that the system enters
  at that very place, without following a link out of it. The outcome is the program's.
\<close>

theorem command_runner_confined:
  "(\<exists>e. cmd_execute cr argv cwd w = (Inl e, w)) \<or>
   (\<exists>ss dir r fs'. argv = PList (map PStr ss) \<and> argv_ok (cr_allow cr) ss \<and> confined_cwd (cr_root cr) cwd (w_fs w) dir
      \<and> cr_run cr (w_calls w) ss dir (w_fs w) = (r, fs')
      \<and> cmd_execute cr argv cwd w = (map_sum id run_result r,
          w\<lparr>w_fs := fs', w_calls := w_calls w @ [RunProgram ss dir (os_path (w_fs w) dir)]\<rparr>))"
proof (cases "\<exists>e. cmd_execute cr argv cwd w = (Inl e, w)")
  case False
  with cmd_execute_cases [of cr argv cwd w] obtain ss dir where
    a: "argv = PList (map PStr ss)" "argv_ok (cr_allow cr) ss" "resolve_cwd (cr_root cr) cwd (w_fs w) = Inr dir"
    and x: "cmd_execute cr argv cwd w = bindW (run_program cr ss dir) (\<lambda>c. returnW (run_result c)) w"
    by blast
  obtain r fs' where r: "cr_run cr (w_calls w) ss dir (w_fs w) = (r, fs')" by fastforce
  then have "cmd_execute cr argv cwd w
      = (map_sum id run_result r, w\<lparr>w_fs := fs', w_calls := w_calls w @ [RunProgram ss dir (os_path (w_fs w) dir)]\<rparr>)"
    unfolding x by (cases r) (simp_all add: run_program_def bindW_def returnW_def)
  with a r resolve_cwd_confined [OF a(3)] show ?thesis by blast
qed simp

text \<open>A workspace with a link that stays in it and one that leaves it: a program can be started through
  the first, at the place it leads to, and not through the second.\<close>

definition linked_fs :: fs where
  "linked_fs = [[''ws''] \<mapsto> Dir, [''ws'', ''sub''] \<mapsto> Dir, [''etc''] \<mapsto> Dir, [''ws'', ''in''] \<mapsto> Link False [''sub''],
     [''ws'', ''out''] \<mapsto> Link True [''etc'']]"

lemma linked_cwd:
  "resolve_cwd [''ws''] ''in'' linked_fs = Inr [''ws'', ''sub'']"
  "resolve_cwd [''ws''] ''out'' linked_fs = Inl (ValueError ''cwd escapes the workspace root'')"
  "os_path linked_fs [''ws'', ''out''] = Inr [''etc'']" "is_dir linked_fs [''ws'', ''out'']"
  by code_simp+

text \<open>
  Captured output is bounded: standard output and error are reported as prefixes of at most
  20000 characters, and \<open>truncated\<close> is set exactly when one of them was cut.
\<close>

theorem command_output_bounded:
  "\<exists>out err. run_result c = [(''exit_code'', PInt (cp_returncode c)), (''stdout'', PStr out), (''stderr'', PStr err),
       (''truncated'', PBool (out \<noteq> text_or_empty (cp_stdout c) \<or> err \<noteq> text_or_empty (cp_stderr c)))]
     \<and> py_len out \<le> 20000 \<and> prefix out (text_or_empty (cp_stdout c))
     \<and> py_len err \<le> 20000 \<and> prefix err (text_or_empty (cp_stderr c))"
  by (intro exI [of _ "py_take MAX_OUTPUT_CHARS (text_or_empty (cp_stdout c))"]
      exI [of _ "py_take MAX_OUTPUT_CHARS (text_or_empty (cp_stderr c))"])
    (simp add: run_result_def Let_def py_take_cut py_take_prefix py_len_take MAX_OUTPUT_CHARS_def)

end
