(* ===== verification/Vcs.thy ===== *)
theory Vcs
  imports Commands
begin

text \<open>
  The tool that prepares a branch and a commit and opens a pull request (\<open>tools/vcs.py\<close>). The
  \<open>git\<close> process and the GitHub service are arguments: \<open>proc\<close> stands for \<open>subprocess.run\<close>, \<open>http\<close> for
  \<open>urllib.request.urlopen\<close>, \<open>environ\<close> for \<open>os.environ.get\<close>. Each call of git and of the service is
  appended to the world's record of calls.

  The lemmas show that no call is made before all checks have passed, what the checks guarantee,
  and that the calls come in the one order that the tool documents.
\<close>

section \<open>Schemas and constants\<close>

definition PROTECTED_PATH_MARKERS :: "string list" where
  "PROTECTED_PATH_MARKERS = [''.github/'', ''contracts/'', ''policies/'', ''security/'', ''infra/'', ''specs/'',
     ''.opencode/'', ''docs/adr/'', ''docs/roadmap.md'', ''baseline.json'', ''ARCHITECTURE_BASELINE.md'']"

definition OPEN_PR_SCHEMA :: pydict where
  "OPEN_PR_SCHEMA = obj_schema [''branch'', ''commit_message'', ''paths'']
     [(''branch'', typed ''string''),
      (''commit_message'', PDict [(''type'', PStr ''string''), (''minLength'', PInt 1)]),
      (''paths'', PDict [(''type'', PStr ''array''), (''items'', typed ''string''), (''minItems'', PInt 1)]),
      (''base'', typed ''string''), (''title'', typed ''string''), (''body'', typed ''string'')] True"

definition OPEN_PR_RESULT :: pydict where
  "OPEN_PR_RESULT = obj_schema [''branch'', ''commit'', ''pr_url'']
     [(''branch'', typed ''string''), (''commit'', typed ''string''), (''pr_url'', typed ''string'')] False"

section \<open>The branch pattern\<close>

text \<open>
  \<open>\d\<close> matches every decimal digit of Unicode: the characters from a zero to the corresponding nine.
  The pattern's parts are delimited by characters outside the repeated classes, so matching it
  needs no backtracking; \<open>$\<close> also matches before a final newline.
\<close>

definition digit_zeros :: "nat list" where
  "digit_zeros = [48, 1632, 1776, 1984, 2406, 2534, 2662, 2790, 2918, 3046, 3174, 3302, 3430, 3558, 3664, 3792, 3872,
     4160, 4240, 6112, 6160, 6470, 6608, 6784, 6800, 6992, 7088, 7232, 7248, 42528, 43216, 43264, 43472, 43504, 43600,
     44016, 65296, 66720, 68912, 69734, 69872, 69942, 70096, 70384, 70736, 70864, 71248, 71360, 71472, 71904, 72016,
     72784, 73040, 73120, 73552, 92768, 92864, 93008, 120782, 120792, 120802, 120812, 120822, 123200, 123632, 124144,
     125264, 130032]"

definition re_digit :: "string \<Rightarrow> bool" where
  "re_digit c \<longleftrightarrow> list_ex (\<lambda>z. z \<le> py_ord c \<and> py_ord c \<le> z + 9) digit_zeros"

definition re_upper :: "string \<Rightarrow> bool" where
  "re_upper c \<longleftrightarrow> 65 \<le> py_ord c \<and> py_ord c \<le> 90"

definition re_dec :: "string \<Rightarrow> bool" where
  "re_dec c \<longleftrightarrow> 48 \<le> py_ord c \<and> py_ord c \<le> 57"

definition re_upper_dec :: "string \<Rightarrow> bool" where
  "re_upper_dec c \<longleftrightarrow> re_upper c \<or> re_dec c"

definition re_slug :: "string \<Rightarrow> bool" where
  "re_slug c \<longleftrightarrow> (97 \<le> py_ord c \<and> py_ord c \<le> 122) \<or> re_dec c"

definition re_slug_dash :: "string \<Rightarrow> bool" where
  "re_slug_dash c \<longleftrightarrow> re_slug c \<or> c = ''-''"

text \<open>One character of a class followed by as many as possible of another.\<close>

fun eat :: "(string \<Rightarrow> bool) \<Rightarrow> (string \<Rightarrow> bool) \<Rightarrow> string list \<Rightarrow> string list option" where
  "eat p q [] = None"
| "eat p q (c # cs) = (if p c then Some (dropWhile q cs) else None)"

fun eat_dash :: "string list \<Rightarrow> string list option" where
  "eat_dash [] = None"
| "eat_dash (c # cs) = (if c = ''-'' then Some cs else None)"

definition branch_rest :: "string list \<Rightarrow> string list option" where
  "branch_rest cs =
     Option.bind (eat re_upper re_upper_dec cs) (\<lambda>r1. Option.bind (eat_dash r1) (\<lambda>r2.
     Option.bind (eat re_digit re_digit r2) (\<lambda>r3. Option.bind (eat_dash r3) (\<lambda>r4.
     Option.bind (eat re_upper re_upper_dec r4) (\<lambda>r5. Option.bind (eat_dash r5) (\<lambda>r6.
     Option.bind (eat re_digit re_digit r6) (\<lambda>r7. Option.bind (eat_dash r7) (\<lambda>r8.
     eat re_slug re_slug_dash r8))))))))"

definition branch_pattern :: "string \<Rightarrow> bool" where
  "branch_pattern s \<longleftrightarrow> starts_with ''feature/'' s
     \<and> (case branch_rest (py_chars (drop 8 s)) of None \<Rightarrow> False | Some r \<Rightarrow> r = [] \<or> r = [[newline]])"

section \<open>Running git\<close>

datatype proc_outcome = ProcDone int string string | ProcFailed string | ProcRaise py_error

type_synonym git_callable = "ext_call list \<Rightarrow> string list \<Rightarrow> path \<Rightarrow> fs \<Rightarrow> string result \<times> fs"

text \<open>\<open>ProcFailed\<close> carries the text of an \<open>OSError\<close> or \<open>SubprocessError\<close>.\<close>

definition run_git :: "(ext_call list \<Rightarrow> string list \<Rightarrow> path \<Rightarrow> fs \<Rightarrow> proc_outcome \<times> fs) \<Rightarrow> git_callable" where
  "run_git proc before argv cwd fs =
     (case proc before (''git'' # argv) cwd fs of (outcome, fs') \<Rightarrow>
       ((case outcome of
           ProcFailed exc \<Rightarrow> Inl (ValueError (''git failed: '' @ exc))
         | ProcRaise e \<Rightarrow> Inl e
         | ProcDone code stdout stderr \<Rightarrow>
             (if code \<noteq> 0 then Inl (ValueError (''git '' @ join '' '' argv @ '' failed: '' @ strip stderr))
              else Inr stdout)), fs'))"

section \<open>The GitHub client\<close>

datatype gh_outcome = GhBody string | GhStatus int | GhUnavailable string | GhRaise py_error

definition github_headers :: "string \<Rightarrow> string dict" where
  "github_headers token =
     [(''Authorization'', ''Bearer '' @ token), (''Accept'', ''application/vnd.github+json''),
      (''Content-Type'', ''application/json''), (''X-GitHub-Api-Version'', ''2022-11-28'')]"

definition github_credentials :: "(string \<Rightarrow> string option) \<Rightarrow> (string \<times> string) result" where
  "github_credentials environ =
     (case (environ ''SDLC_GITHUB_TOKEN'', environ ''SDLC_GITHUB_REPOSITORY'') of
        (Some token, Some repo) \<Rightarrow>
          (if token = [] \<or> repo = []
           then Inl (ValueError ''SDLC_GITHUB_TOKEN and SDLC_GITHUB_REPOSITORY are required'')
           else Inr (token, repo))
      | _ \<Rightarrow> Inl (ValueError ''SDLC_GITHUB_TOKEN and SDLC_GITHUB_REPOSITORY are required''))"

text \<open>\<open>urllib.parse.urlencode\<close>: \<open>quote_plus\<close> on the UTF-8 bytes of keys and values.\<close>

definition upper_hex :: "nat \<Rightarrow> char" where
  "upper_hex n = (if n < 10 then digit n else char_of (n + 55))"

definition quote_byte :: "char \<Rightarrow> string" where
  "quote_byte c =
     (if is_digit c \<or> (65 \<le> byte c \<and> byte c \<le> 90) \<or> (97 \<le> byte c \<and> byte c \<le> 122) \<or> List.member ''_.-~'' c then [c]
      else if c = CHR '' '' then ''+''
      else [CHR ''%'', upper_hex (byte c div 16), upper_hex (byte c mod 16)])"

definition quote_plus :: "string \<Rightarrow> string result" where
  "quote_plus s = bindR (encode_utf8 s) (\<lambda>raw. Inr (concat (map quote_byte raw)))"

definition urlencode :: "(string \<times> string) list \<Rightarrow> string result" where
  "urlencode ps =
     bindR (mapR (\<lambda>(k, v). bindR (quote_plus k) (\<lambda>k'. bindR (quote_plus v) (\<lambda>v'. Inr (k' @ ''='' @ v')))) ps)
       (\<lambda>items. Inr (join ''&'' items))"

definition html_url :: "pyval \<Rightarrow> string" where
  "html_url data =
     (case data of PList (PDict d # _) \<Rightarrow> py_str (dget_or d ''html_url'' (PStr [])) | _ \<Rightarrow> [])"

definition pulls_url :: "string \<Rightarrow> string" where
  "pulls_url repo = ''https://api.github.com/repos/'' @ repo @ ''/pulls''"

definition find_existing_pull_request ::
    "(http_request \<Rightarrow> gh_outcome) \<Rightarrow> string \<Rightarrow> string \<Rightarrow> string dict \<Rightarrow> string result" where
  "find_existing_pull_request http repo branch headers =
     (let owner = takeWhile (\<lambda>c. c \<noteq> CHR ''/'') repo
      in bindR (urlencode [(''state'', ''open''), (''head'', owner @ '':'' @ branch)]) (\<lambda>query.
         case http \<lparr>req_url = pulls_url repo @ ''?'' @ query, req_body = [], req_headers = headers, req_method = ''GET''\<rparr> of
           GhBody raw \<Rightarrow>
             (case json_loads_bytes raw of
                Inl e \<Rightarrow> (if e = JSONDecodeError then Inr [] else Inl e)
              | Inr data \<Rightarrow> Inr (html_url data))
         | GhRaise e \<Rightarrow> Inl e
         | _ \<Rightarrow> Inr []))"

definition pr_failed :: "string \<Rightarrow> py_error" where
  "pr_failed detail = ValueError (''failed to open pull request: '' @ detail)"

definition read_created :: "string \<Rightarrow> string result" where
  "read_created raw =
     (case json_loads_bytes raw of
        Inl e \<Rightarrow> (if e = JSONDecodeError then Inl (pr_failed []) else Inl e)
      | Inr data \<Rightarrow>
          (case data of
             PDict d \<Rightarrow>
               (let v = dget_or d ''html_url'' PNone
                in if truthy v then Inr (py_str v) else Inl (ValueError ''pull request response is missing html_url''))
           | _ \<Rightarrow> Inl (ValueError ''pull request response is missing html_url'')))"

definition open_github_pull_request ::
    "(string \<Rightarrow> string option) \<Rightarrow> (http_request \<Rightarrow> gh_outcome) \<Rightarrow> pydict \<Rightarrow> string result" where
  "open_github_pull_request environ http payload =
     bindR (github_credentials environ) (\<lambda>(token, repo).
     let headers = github_headers token in
     bindR (dindex payload ''title'') (\<lambda>title. bindR (dindex payload ''branch'') (\<lambda>branch.
     bindR (dindex payload ''base'') (\<lambda>base. bindR (dindex payload ''body'') (\<lambda>text.
     bindR (dumps opts_default (PDict [(''title'', title), (''head'', branch), (''base'', base), (''body'', text)]))
       (\<lambda>body. bindR (encode_utf8 body) (\<lambda>raw.
     case http \<lparr>req_url = pulls_url repo, req_body = raw, req_headers = headers, req_method = ''POST''\<rparr> of
       GhBody answer \<Rightarrow> read_created answer
     | GhStatus code \<Rightarrow>
         (if code = 422
          then bindR (find_existing_pull_request http repo (py_str branch) headers) (\<lambda>existing.
                 if existing \<noteq> [] then Inr existing else Inl (pr_failed (''HTTP '' @ dec_int code)))
          else Inl (pr_failed (''HTTP '' @ dec_int code)))
     | GhUnavailable exc \<Rightarrow> Inl (pr_failed exc)
     | GhRaise e \<Rightarrow> Inl e)))))))"

section \<open>The tool\<close>

record open_pr_tool =
  pr_root :: path
  pr_git :: git_callable
  pr_open :: "ext_call list \<Rightarrow> pydict \<Rightarrow> string result"

definition new_open_pr_tool ::
    "fs \<Rightarrow> path \<Rightarrow> git_callable \<Rightarrow> (ext_call list \<Rightarrow> pydict \<Rightarrow> string result) \<Rightarrow> open_pr_tool result" where
  "new_open_pr_tool fs root git open_pull_request =
     bindR (resolve fs root) (\<lambda>resolved. Inr \<lparr>pr_root = resolved, pr_git = git, pr_open = open_pull_request\<rparr>)"

definition git_call :: "open_pr_tool \<Rightarrow> string list \<Rightarrow> string io" where
  "git_call t argv = (\<lambda>w. case pr_git t (w_calls w) argv (pr_root t) (w_fs w) of
     (r, fs') \<Rightarrow> (r, w\<lparr>w_fs := fs', w_calls := w_calls w @ [RunGit argv (pr_root t)]\<rparr>))"

definition open_call :: "open_pr_tool \<Rightarrow> pydict \<Rightarrow> string io" where
  "open_call t payload = (\<lambda>w. (pr_open t (w_calls w) payload, w\<lparr>w_calls := w_calls w @ [OpenPullRequest payload]\<rparr>))"

definition pr_switch :: "open_pr_tool \<Rightarrow> string \<Rightarrow> unit io" where
  "pr_switch t branch =
     bindW (git_call t [''branch'', ''--list'', branch]) (\<lambda>listed.
       bindW (if strip listed \<noteq> [] then git_call t [''switch'', branch] else git_call t [''switch'', ''-c'', branch])
         (\<lambda>_. returnW ()))"

definition pr_branch :: "string \<Rightarrow> string result" where
  "pr_branch branch =
     (if branch_pattern branch then Inr branch
      else Inl (ValueError ''branch must match feature/{FEATURE_ID}-{TASK_ID}-slug''))"

definition pr_confine :: "path \<Rightarrow> fs \<Rightarrow> string \<Rightarrow> string result" where
  "pr_confine root fs relative_path =
     (if relative_path = [] \<or> starts_with ''/'' relative_path \<or> starts_with [backslash] relative_path
      then Inl (ValueError ''path must be relative to the workspace root'')
      else if List.member (path_parts relative_path) dotdot then Inl (ValueError no_dotdot)
      else
        bindR (resolve fs (path_join root relative_path)) (\<lambda>target.
          if \<not> inside root target then Inl (ValueError ''path escapes the workspace root'')
          else Inr (replace_char backslash CHR ''/'' relative_path)))"

fun reject_protected :: "string list \<Rightarrow> unit result" where
  "reject_protected [] = Inr ()"
| "reject_protected (p # ps) =
     (case filter (\<lambda>marker. contains marker (replace_char backslash CHR ''/'' p)) PROTECTED_PATH_MARKERS of
        [] \<Rightarrow> reject_protected ps
      | marker # _ \<Rightarrow>
          Inl (ValueError (''PROTECTED_PR_PATH: '' @ p @ '' touches protected zone '' @ repr_str marker)))"

definition or_text :: "pyval \<Rightarrow> string \<Rightarrow> string" where
  "or_text v alternative = (if truthy v then py_str v else alternative)"

record pr_request =
  rq_branch :: string
  rq_message :: string
  rq_paths :: "string list"
  rq_base :: string

definition pr_checks :: "open_pr_tool \<Rightarrow> pydict \<Rightarrow> fs \<Rightarrow> pr_request result" where
  "pr_checks t args fs =
     bindR (bindR (dindex args ''branch'') (\<lambda>v. pr_branch (py_str v))) (\<lambda>branch.
     bindR (bindR (dindex args ''commit_message'') (\<lambda>v. Inr (py_str v))) (\<lambda>message.
     if strip message = [] then Inl (ValueError ''commit_message must be non-empty'')
     else
       bindR (bindR (dindex args ''paths'') val_iter) (\<lambda>items.
       bindR (mapR (\<lambda>v. pr_confine (pr_root t) fs (py_str v)) items) (\<lambda>paths.
       if paths = [] then Inl (ValueError ''paths must be non-empty'')
       else
         bindR (reject_protected paths) (\<lambda>_.
         let base = strip (or_text (dget_or args ''base'' PNone) ''main'')
         in Inr \<lparr>rq_branch = branch, rq_message = message, rq_paths = paths,
                 rq_base = (if base = [] then ''main'' else base)\<rparr>)))))"

text \<open>The message is not blank here, so \<open>splitlines\<close> yields at least one line.\<close>

definition pr_payload :: "pydict \<Rightarrow> pr_request \<Rightarrow> pydict" where
  "pr_payload args rq =
     [(''branch'', PStr (rq_branch rq)), (''base'', PStr (rq_base rq)),
      (''title'', PStr (or_text (dget_or args ''title'' PNone) (hd (splitlines (rq_message rq))))),
      (''body'', PStr (or_text (dget_or args ''body'' PNone) []))]"

text \<open>What the tool does once the checks have passed, and the tool.\<close>

definition open_pr_after :: "open_pr_tool \<Rightarrow> pydict \<Rightarrow> pr_request \<Rightarrow> pydict io" where
  "open_pr_after t args rq =
     bindW (pr_switch t (rq_branch rq)) (\<lambda>_.
     bindW (git_call t ([''add'', ''--''] @ rq_paths rq)) (\<lambda>_.
     bindW (git_call t [''diff'', ''--cached'', ''--name-only'']) (\<lambda>staged.
     bindW (if strip staged \<noteq> []
            then bindW (git_call t [''commit'', ''-m'', rq_message rq]) (\<lambda>_. returnW ()) else returnW ()) (\<lambda>_.
     bindW (git_call t [''push'', ''-u'', ''origin'', rq_branch rq]) (\<lambda>_.
     bindW (git_call t [''rev-parse'', ''HEAD'']) (\<lambda>commit.
     bindW (open_call t (pr_payload args rq)) (\<lambda>pr_url.
       returnW [(''branch'', PStr (rq_branch rq)), (''commit'', PStr (strip commit)), (''pr_url'', PStr pr_url)])))))))"

definition open_pr :: "open_pr_tool \<Rightarrow> handler" where
  "open_pr t args = bindW (readW (pr_checks t args)) (open_pr_after t args)"

definition register_vcs_tools ::
    "fs \<Rightarrow> path \<Rightarrow> git_callable \<Rightarrow> (ext_call list \<Rightarrow> pydict \<Rightarrow> string result) \<Rightarrow> tool_registry \<Rightarrow> tool_registry result" where
  "register_vcs_tools fs root git open_pull_request tools =
     bindR (new_open_pr_tool fs root git open_pull_request) (\<lambda>t.
       tool_register
         \<lparr>ts_name = ''open_pr'', ts_scope = ''vcs'',
          ts_description = ''Create a feature branch, commit the given paths, push it, and open a '' @
            ''pull request against the base branch'',
          ts_args_schema = OPEN_PR_SCHEMA, ts_result_schema = OPEN_PR_RESULT, ts_handler = open_pr t\<rparr> tools)"

section \<open>The language of the branch pattern\<close>

lemma starts_with_iff: "starts_with p s \<longleftrightarrow> (\<exists>rest. s = p @ rest)"
  unfolding starts_with_def by (metis append_eq_conv_conj append_take_drop_id)

lemma eat_iff:
  "eat p q cs = Some r \<longleftrightarrow> (\<exists>c u. cs = c # u @ r \<and> p c \<and> list_all q u \<and> (r = [] \<or> \<not> q (hd r)))"
proof (cases cs)
  case (Cons c rest)
  have "dropWhile q rest = r \<longleftrightarrow> (\<exists>u. rest = u @ r \<and> list_all q u \<and> (r = [] \<or> \<not> q (hd r)))"
  proof
    assume r: "dropWhile q rest = r"
    then have "rest = takeWhile q rest @ r" by (metis takeWhile_dropWhile_id)
    moreover have "list_all q (takeWhile q rest)" by (auto simp: list_all_iff dest: set_takeWhileD)
    moreover have "r = [] \<or> \<not> q (hd r)" using r hd_dropWhile [of q rest] by blast
    ultimately show "\<exists>u. rest = u @ r \<and> list_all q u \<and> (r = [] \<or> \<not> q (hd r))" by blast
  next
    assume "\<exists>u. rest = u @ r \<and> list_all q u \<and> (r = [] \<or> \<not> q (hd r))"
    then show "dropWhile q rest = r" by (cases r) (auto simp: list_all_iff)
  qed
  then show ?thesis using Cons by auto
qed simp

lemma eat_dash_iff: "eat_dash cs = Some r \<longleftrightarrow> cs = ''-'' # r"
  by (cases cs) auto

lemma dash_outside: "\<not> re_upper_dec ''-''" "\<not> re_digit ''-''" "\<not> re_slug_dash [newline]"
proof -
  have o: "py_ord ''-'' = 45" "py_ord [newline] = 10" by simp_all
  show "\<not> re_upper_dec ''-''" "\<not> re_slug_dash [newline]"
    by (simp_all add: re_upper_dec_def re_upper_def re_dec_def re_slug_dash_def re_slug_def o)
  show "\<not> re_digit ''-''" by (simp add: re_digit_def digit_zeros_def o)
qed

lemma eat_then_dash:
  "\<not> q ''-'' \<Longrightarrow> Option.bind (eat p q cs) eat_dash = Some r \<longleftrightarrow> (\<exists>c u. cs = c # u @ ''-'' # r \<and> p c \<and> list_all q u)"
  by (auto simp: bind_eq_Some_conv eat_iff eat_dash_iff)

text \<open>The characters after \<open>feature/\<close> that the pattern describes.\<close>

definition branch_parts :: "string list \<Rightarrow> string list \<Rightarrow> bool" where
  "branch_parts cs tail \<longleftrightarrow> (\<exists>f fs d ds t ts n ns g gs.
     cs = f # fs @ ''-'' # d # ds @ ''-'' # t # ts @ ''-'' # n # ns @ ''-'' # g # gs @ tail
     \<and> re_upper f \<and> list_all re_upper_dec fs \<and> re_digit d \<and> list_all re_digit ds
     \<and> re_upper t \<and> list_all re_upper_dec ts \<and> re_digit n \<and> list_all re_digit ns
     \<and> re_slug g \<and> list_all re_slug_dash gs)"

definition branch_shape :: "string list \<Rightarrow> bool" where
  "branch_shape cs \<longleftrightarrow> branch_parts cs [] \<or> branch_parts cs [[newline]]"

lemma branch_rest_bind:
  "branch_rest cs = Option.bind (Option.bind (eat re_upper re_upper_dec cs) eat_dash) (\<lambda>r2.
     Option.bind (Option.bind (eat re_digit re_digit r2) eat_dash) (\<lambda>r4.
     Option.bind (Option.bind (eat re_upper re_upper_dec r4) eat_dash) (\<lambda>r6.
     Option.bind (Option.bind (eat re_digit re_digit r6) eat_dash) (eat re_slug re_slug_dash))))"
  unfolding branch_rest_def Option.bind_assoc ..

lemma part_bind:
  "Option.bind (Option.bind a eat_dash) k = Some r \<longleftrightarrow> (\<exists>m. Option.bind a eat_dash = Some m \<and> k m = Some r)"
  by (rule bind_eq_Some_conv)

lemma branch_rest_iff: "branch_rest cs = Some r \<longleftrightarrow> branch_parts cs r \<and> (r = [] \<or> \<not> re_slug_dash (hd r))"
  unfolding branch_rest_bind part_bind branch_parts_def
    eat_then_dash [where q = re_upper_dec, OF dash_outside(1)] eat_then_dash [where q = re_digit, OF dash_outside(2)] eat_iff [where q = re_slug_dash]
  by blast

text \<open>
  C32: the branch matcher accepts exactly the documented form: \<open>feature/\<close>, an upper-case letter
  and further upper-case letters and digits, a dash, digits, again such a pair, and a slug of
  lower-case letters, digits and dashes that does not begin with a dash; but for one trailing
  newline, which \<open>$\<close> lets pass.
\<close>

theorem branch_pattern_exact:
  "branch_pattern s \<longleftrightarrow> (\<exists>rest. s = ''feature/'' @ rest \<and> branch_shape (py_chars rest))"
proof -
  have "(case branch_rest cs of None \<Rightarrow> False | Some r \<Rightarrow> r = [] \<or> r = [[newline]]) \<longleftrightarrow> branch_shape cs" for cs
  proof -
    have "(case branch_rest cs of None \<Rightarrow> False | Some r \<Rightarrow> r = [] \<or> r = [[newline]])
        \<longleftrightarrow> (\<exists>r. branch_rest cs = Some r \<and> (r = [] \<or> r = [[newline]]))"
      by (cases "branch_rest cs") auto
    also have "\<dots> \<longleftrightarrow> branch_shape cs"
    proof -
      have "\<not> re_slug_dash (hd [[newline]])" using dash_outside(3) by simp
      then show ?thesis unfolding branch_rest_iff branch_shape_def by blast
    qed
    finally show ?thesis .
  qed
  then have shape: "branch_pattern s \<longleftrightarrow> starts_with ''feature/'' s \<and> branch_shape (py_chars (drop 8 s))"
    unfolding branch_pattern_def by simp
  have pre: "starts_with pre s \<and> P (drop (length pre) s) \<longleftrightarrow> (\<exists>rest. s = pre @ rest \<and> P rest)" for pre P
    unfolding starts_with_iff by auto
  have "length ''feature/'' = 8" by simp
  with pre [of "''feature/''" "\<lambda>r. branch_shape (py_chars r)"] shape show ?thesis by (simp only:)
qed

section \<open>The checks\<close>

lemma pr_confine_Inr:
  assumes "pr_confine root fs p = Inr q"
  shows "q = replace_char backslash CHR ''/'' p \<and> dotdot \<notin> set (path_parts p) \<and> \<not> is_absolute p
    \<and> (\<exists>target. resolve fs (path_join root p) = Inr target \<and> inside root target)"
  using assms by (auto simp: pr_confine_def is_absolute_def bindR_eq_Inr split: if_splits)

lemma reject_protected_Inr:
  "reject_protected ps = Inr () \<longleftrightarrow>
     (\<forall>p \<in> set ps. \<forall>marker \<in> set PROTECTED_PATH_MARKERS. \<not> contains marker (replace_char backslash CHR ''/'' p))"
proof (induction ps)
  case (Cons p ps)
  let ?hit = "\<lambda>marker. contains marker (replace_char backslash CHR ''/'' p)"
  show ?case
  proof (cases "filter ?hit PROTECTED_PATH_MARKERS")
    case Nil
    then have "\<forall>marker \<in> set PROTECTED_PATH_MARKERS. \<not> ?hit marker" by (simp add: filter_empty_conv)
    with Nil Cons show ?thesis by simp
  next
    case (Cons m ms)
    then have "m \<in> set (filter ?hit PROTECTED_PATH_MARKERS)" by simp
    then have "m \<in> set PROTECTED_PATH_MARKERS \<and> ?hit m" by (simp only: set_filter mem_Collect_eq)
    with Cons show ?thesis by auto
  qed
qed simp

lemma pr_checks_parts:
  assumes "pr_checks t args fs = Inr rq"
  obtains items where "branch_pattern (rq_branch rq)" "strip (rq_message rq) \<noteq> []"
    "bindR (dindex args ''paths'') val_iter = Inr items"
    "mapR (\<lambda>v. pr_confine (pr_root t) fs (py_str v)) items = Inr (rq_paths rq)" "rq_paths rq \<noteq> []"
    "reject_protected (rq_paths rq) = Inr ()" "rq_base rq \<noteq> []"
proof -
  from assms obtain b m where b: "bindR (dindex args ''branch'') (\<lambda>v. pr_branch (py_str v)) = Inr b"
      and rest: "(if strip m = [] then Inl (ValueError ''commit_message must be non-empty'')
       else bindR (bindR (dindex args ''paths'') val_iter) (\<lambda>items.
         bindR (mapR (\<lambda>v. pr_confine (pr_root t) fs (py_str v)) items) (\<lambda>paths.
         if paths = [] then Inl (ValueError ''paths must be non-empty'')
         else bindR (reject_protected paths) (\<lambda>_.
           let base = strip (or_text (dget_or args ''base'' PNone) ''main'')
           in Inr \<lparr>rq_branch = b, rq_message = m, rq_paths = paths,
                 rq_base = (if base = [] then ''main'' else base)\<rparr>)))) = Inr rq"
    unfolding pr_checks_def bindR_eq_Inr by blast
  from rest have m: "strip m \<noteq> []" by auto
  with rest obtain items paths where a: "bindR (dindex args ''paths'') val_iter = Inr items" and i: "mapR (\<lambda>v. pr_confine (pr_root t) fs (py_str v)) items = Inr paths"
      and rest': "(if paths = [] then Inl (ValueError ''paths must be non-empty'')
         else bindR (reject_protected paths) (\<lambda>_.
           let base = strip (or_text (dget_or args ''base'' PNone) ''main'')
           in Inr \<lparr>rq_branch = b, rq_message = m, rq_paths = paths,
                 rq_base = (if base = [] then ''main'' else base)\<rparr>)) = Inr rq"
    by (auto simp: bindR_eq_Inr)
  from rest' have p: "paths \<noteq> []" by auto
  with rest' have "reject_protected paths = Inr ()" "rq_branch rq = b" "rq_message rq = m" "rq_paths rq = paths"
      "rq_base rq \<noteq> []"
    by (auto simp: bindR_eq_Inr Let_def split: if_splits)
  moreover have "branch_pattern b" using b by (auto simp: bindR_eq_Inr pr_branch_def split: if_splits)
  ultimately show ?thesis using that a i m p by simp
qed

text \<open>A path as the tool wants it: relative, without \<open>..\<close>, and inside the workspace after resolving links.\<close>

definition path_safe :: "path \<Rightarrow> fs \<Rightarrow> string \<Rightarrow> bool" where
  "path_safe root fs p \<longleftrightarrow> p \<noteq> [] \<and> \<not> is_absolute p \<and> dotdot \<notin> set (path_parts p)
     \<and> (\<exists>target. resolve fs (path_join root p) = Inr target \<and> inside root target)"

lemma pr_confine_safe:
  assumes "pr_confine root fs p = Inr q"
  shows "q = replace_char backslash CHR ''/'' p \<and> path_safe root fs p \<and> (backslash \<in> set p \<or> path_safe root fs q)"
proof -
  have "backslash \<in> set p \<or> replace_char backslash CHR ''/'' p = p" by (induction p) (auto simp: replace_char_def)
  moreover have "p \<noteq> []" using assms by (auto simp: pr_confine_def)
  ultimately show ?thesis using pr_confine_Inr [OF assms] by (auto simp: path_safe_def)
qed

lemma confined_paths:
  assumes "mapR (\<lambda>v. pr_confine root fs (py_str v)) items = Inr paths"
  shows "list_all2 (\<lambda>v p. p = replace_char backslash CHR ''/'' (py_str v) \<and> path_safe root fs (py_str v)
    \<and> (backslash \<in> set (py_str v) \<or> path_safe root fs p)) items paths"
  using assms by (induction items arbitrary: paths) (auto simp: bindR_eq_Inr dest: pr_confine_safe)

text \<open>
  C31: a request that passes the checks of the pull-request tool names a branch of the documented
  form, a message that is not blank, a base, and at least one path. Every path asked for is
  relative, has no \<open>..\<close> and leads to a place inside the workspace after resolving links. What will be
  staged are these paths in their order, with backslashes turned into slashes; none contains a
  marker of a protected zone, and each is itself such a path unless the one asked for held a
  backslash (\<open>confined_path_escapes\<close> shows what can happen then).
\<close>

theorem pr_request_is_safe:
  assumes "pr_checks t args fs = Inr rq"
  shows "branch_pattern (rq_branch rq) \<and> strip (rq_message rq) \<noteq> [] \<and> rq_base rq \<noteq> [] \<and> rq_paths rq \<noteq> []
    \<and> (\<exists>items. bindR (dindex args ''paths'') val_iter = Inr items
        \<and> list_all2 (\<lambda>v p. p = replace_char backslash CHR ''/'' (py_str v) \<and> path_safe (pr_root t) fs (py_str v)
             \<and> (backslash \<in> set (py_str v) \<or> path_safe (pr_root t) fs p)) items (rq_paths rq))
    \<and> list_all (\<lambda>p. list_all (\<lambda>marker. \<not> contains marker p) PROTECTED_PATH_MARKERS) (rq_paths rq)"
  using assms
proof (rule pr_checks_parts)
  fix items
  assume a: "bindR (dindex args ''paths'') val_iter = Inr items"
    and i: "mapR (\<lambda>v. pr_confine (pr_root t) fs (py_str v)) items = Inr (rq_paths rq)"
    and r: "reject_protected (rq_paths rq) = Inr ()"
    and o: "branch_pattern (rq_branch rq)" "strip (rq_message rq) \<noteq> []" "rq_base rq \<noteq> []" "rq_paths rq \<noteq> []"
  have "\<not> contains marker p" if p: "p \<in> set (rq_paths rq)" "marker \<in> set PROTECTED_PATH_MARKERS" for p marker
  proof -
    from mapR_Inr_set [OF i p(1)] have "replace_char backslash CHR ''/'' p = p"
      by (auto dest!: pr_confine_Inr simp: replace_char_def)
    with r p show ?thesis unfolding reject_protected_Inr by metis
  qed
  with o a confined_paths [OF i] show ?thesis by (auto simp: list_all_iff)
qed

text \<open>
  The path that was checked is the one with backslashes, in which \<open>..\<close> is no component of its own; the path
  that is handed to git has slashes, and may leave the workspace.
\<close>

lemma confined_path_escapes:
  "pr_confine [''ws''] Map.empty (''a'' @ [backslash] @ ''..'' @ [backslash] @ ''..'' @ [backslash] @ ''x'') = Inr ''a/../../x''"
  "reject_protected [''a/../../x''] = Inr ()"
  "resolve Map.empty (path_join [''ws''] ''a/../../x'') = Inr [''x'']" "\<not> inside [''ws''] [''x'']"
  by code_simp+

section \<open>The calls\<close>

lemma git_follows: "follows {[RunGit argv (pr_root t)]} (git_call t argv)"
  unfolding follows_def git_call_def by (auto split: prod.splits)

lemma open_follows: "follows {[OpenPullRequest payload]} (open_call t payload)"
  unfolding follows_def open_call_def by auto

definition commit_calls :: "open_pr_tool \<Rightarrow> pydict \<Rightarrow> pr_request \<Rightarrow> ext_call list set" where
  "commit_calls t args rq =
     {[RunGit [''branch'', ''--list'', rq_branch rq] (pr_root t), RunGit switch (pr_root t),
       RunGit ([''add'', ''--''] @ rq_paths rq) (pr_root t), RunGit [''diff'', ''--cached'', ''--name-only''] (pr_root t)]
      @ commit @ [RunGit [''push'', ''-u'', ''origin'', rq_branch rq] (pr_root t), RunGit [''rev-parse'', ''HEAD''] (pr_root t),
         OpenPullRequest (pr_payload args rq)]
      | switch commit. switch \<in> {[''switch'', rq_branch rq], [''switch'', ''-c'', rq_branch rq]}
          \<and> commit \<in> {[], [RunGit [''commit'', ''-m'', rq_message rq] (pr_root t)]}}"

lemma switch_follows:
  "follows ((\<lambda>s. [RunGit [''branch'', ''--list'', b] (pr_root t), RunGit s (pr_root t)])
      ` {[''switch'', b], [''switch'', ''-c'', b]}) (pr_switch t b)"
proof -
  have one: "follows {[RunGit argv (pr_root t)]} (bindW (git_call t argv) (\<lambda>_. returnW ()))" for argv
    using follows_then [OF git_follows, where T = "{[]}" and f = "\<lambda>_. returnW ()"] by simp
  have "follows {[RunGit [''switch'', b] (pr_root t)], [RunGit [''switch'', ''-c'', b] (pr_root t)]}
      (bindW (if strip listed \<noteq> [] then git_call t [''switch'', b] else git_call t [''switch'', ''-c'', b]) (\<lambda>_. returnW ()))"
    for listed by (cases "strip listed \<noteq> []") (auto intro: follows_mono [OF one])
  from follows_then [OF git_follows this] show ?thesis
    unfolding pr_switch_def by (rule follows_mono) auto
qed

lemma commit_follows:
  "follows {[], [RunGit [''commit'', ''-m'', m] (pr_root t)]}
     (if strip staged \<noteq> [] then bindW (git_call t [''commit'', ''-m'', m]) (\<lambda>_. returnW ()) else returnW ())"
  using follows_then [OF git_follows, where T = "{[]}" and f = "\<lambda>_. returnW ()"] follows_return
  by (auto intro: follows_mono)

lemma publish_follows:
  "follows {[RunGit [''push'', ''-u'', ''origin'', b] (pr_root t), RunGit [''rev-parse'', ''HEAD''] (pr_root t),
      OpenPullRequest payload]}
     (bindW (git_call t [''push'', ''-u'', ''origin'', b]) (\<lambda>_.
      bindW (git_call t [''rev-parse'', ''HEAD'']) (\<lambda>commit.
      bindW (open_call t payload) (\<lambda>pr_url. returnW (res commit pr_url)))))"
proof -
  have 1: "follows {[OpenPullRequest payload]} (bindW (open_call t payload) (\<lambda>pr_url. returnW (res c pr_url)))" for c
    using follows_then [OF open_follows, where T = "{[]}" and f = "\<lambda>pr_url. returnW (res c pr_url)"] by simp
  have 2: "follows {[RunGit [''rev-parse'', ''HEAD''] (pr_root t), OpenPullRequest payload]}
      (bindW (git_call t [''rev-parse'', ''HEAD'']) (\<lambda>commit. bindW (open_call t payload) (\<lambda>pr_url. returnW (res commit pr_url))))"
    using follows_then [OF git_follows 1] by simp
  show ?thesis using follows_then [OF git_follows 2] by simp
qed

lemma open_pr_split:
  "open_pr t args w = (case pr_checks t args (w_fs w) of Inl e \<Rightarrow> (Inl e, w) | Inr rq \<Rightarrow> open_pr_after t args rq w)"
  by (simp add: open_pr_def bindW_def readW_def split: sum.splits)

lemma open_pr_after_follows: "follows (commit_calls t args rq) (open_pr_after t args rq)"
  unfolding open_pr_after_def
  by (rule follows_mono [OF follows_bind [OF switch_follows follows_then [OF git_follows follows_then [OF git_follows
        follows_bind [OF commit_follows publish_follows]]]]]) (auto simp: commit_calls_def)


section \<open>Witnesses\<close>

text \<open>A workspace at \<open>/ws\<close>, a git that answers with its arguments, and a service that accepts.\<close>

definition demo_pr_tool :: open_pr_tool where
  "demo_pr_tool = \<lparr>pr_root = [''ws''], pr_git = (\<lambda>before argv cwd fs. (Inr (join '' '' argv), fs)),
     pr_open = (\<lambda>before payload. Inr ''https://example.org/pr/1'')\<rparr>"

definition demo_pr_args :: pydict where
  "demo_pr_args = [(''branch'', PStr ''feature/FEAT-1-TASK-2-x''), (''commit_message'', PStr ''msg''), (''paths'', PList [PStr ''a.py''])]"

definition demo_rq :: pr_request where
  "demo_rq = \<lparr>rq_branch = ''feature/FEAT-1-TASK-2-x'', rq_message = ''msg'', rq_paths = [''a.py''], rq_base = ''main''\<rparr>"

lemma demo_branch: "branch_pattern ''feature/FEAT-1-TASK-2-x''"
proof -
  have "is_ascii ''FEAT-1-TASK-2-x''" by simp
  then have c: "py_chars ''FEAT-1-TASK-2-x'' = map (\<lambda>c. [c]) ''FEAT-1-TASK-2-x''" by (rule py_chars_ascii)
  show ?thesis
    by (simp add: branch_pattern_def starts_with_def branch_rest_def c re_upper_def re_dec_def re_upper_dec_def
        re_digit_def digit_zeros_def re_slug_def re_slug_dash_def is_cont_def)
qed

lemma demo_strip: "strip ''msg'' = ''msg''" "strip ''main'' = ''main''"
  by (simp_all add: strip_ascii_plain)

lemma demo_parts:
  "mapR (\<lambda>v. pr_confine (pr_root demo_pr_tool) Map.empty (py_str v)) [PStr ''a.py''] = Inr [''a.py'']"
  "mapR (\<lambda>v. pr_confine (pr_root demo_pr_tool) Map.empty (py_str v)) [PStr ''contracts'', PStr ''.''] = Inr [''contracts'', ''.'']"
  "reject_protected [''a.py''] = Inr ()" "reject_protected [''contracts'', ''.''] = Inr ()"
  by code_simp+

lemma demo_checks: "pr_checks demo_pr_tool demo_pr_args Map.empty = Inr demo_rq"
  using demo_branch demo_parts demo_strip
  by (simp add: pr_checks_def demo_pr_args_def dindex_def pr_branch_def dget_or_def or_text_def demo_rq_def Let_def
      del: mapR.simps reject_protected.simps)

theorem pr_request_is_safe_witness:
  "pr_checks demo_pr_tool demo_pr_args Map.empty = Inr demo_rq \<and> \<not> contains ''specs/'' ''a.py''"
  using demo_checks pr_request_is_safe [OF demo_checks] by (simp add: demo_rq_def PROTECTED_PATH_MARKERS_def)

lemma demo_publishes: "\<exists>x. fst (open_pr_after demo_pr_tool demo_pr_args demo_rq w) = Inr x"
  by (simp add: open_pr_after_def pr_switch_def git_call_def open_call_def bindW_def returnW_def demo_pr_tool_def)


text \<open>
  The markers of the protected zones end in a slash, so the zone's own directory is not matched:
  a request that stages all of \<open>contracts\<close>, or the whole workspace, passes the checks.
\<close>

lemma protected_zone_itself_passes:
  "pr_checks demo_pr_tool
     [(''branch'', PStr ''feature/FEAT-1-TASK-2-x''), (''commit_message'', PStr ''msg''),
      (''paths'', PList [PStr ''contracts'', PStr ''.''])] Map.empty
   = Inr \<lparr>rq_branch = ''feature/FEAT-1-TASK-2-x'', rq_message = ''msg'', rq_paths = [''contracts'', ''.''], rq_base = ''main''\<rparr>"
  using demo_branch demo_parts demo_strip
  by (simp add: pr_checks_def dindex_def pr_branch_def dget_or_def or_text_def Let_def
      del: mapR.simps reject_protected.simps)

end
