(* ===== verification/DeployVerify.thy ===== *)
theory DeployVerify
  imports Artifacts Policy Crypto
begin

text \<open>
  Release verification before a deployment (\<open>deploy_verify/candidate.py\<close>, \<open>bundle.py\<close>, \<open>verify.py\<close>):
  a release candidate is validated against its schema, reduced to a content-addressed evidence
  bundle, and put before the \<open>pre-deployment\<close> policy; the outcome is the policy's, with a decision
  document and the bundle that refer to each other.

  The lemmas show that a release is allowed only by the policy on the candidate's own fields, and
  that the digest of a bundle commits to the image, the candidate and the ordered items.
\<close>

section \<open>Candidates\<close>

definition CANDIDATE_SCHEMA :: string where
  "CANDIDATE_SCHEMA = ''release-candidate.schema.json''"

definition canonical_json :: "pyval \<Rightarrow> string result" where
  "canonical_json data = dumps opts_canonical data"

definition sha256_digest :: "pyval \<Rightarrow> string result" where
  "sha256_digest data = bindR (canonical_json data) (\<lambda>text. bindR (encode_utf8 text) (\<lambda>raw. Inr (sha256_hex raw)))"

definition validate_candidate :: "schema_env \<Rightarrow> fs \<Rightarrow> pyval \<Rightarrow> path option \<Rightarrow> unit result" where
  "validate_candidate env fs candidate repo_root =
     (case candidate of
        PDict d \<Rightarrow>
          bindR (validate_document env fs d CANDIDATE_SCHEMA repo_root) (\<lambda>errors.
            if errors \<noteq> [] then Inl (CandidateError (join ''; '' errors)) else Inr ())
      | _ \<Rightarrow> Inl (CandidateError ''release candidate must be a JSON object''))"

text \<open>\<open>shown\<close> is the text of the path in the messages; the decoder's own message is dropped.\<close>

definition load_candidate :: "schema_env \<Rightarrow> fs \<Rightarrow> string \<Rightarrow> path \<Rightarrow> path option \<Rightarrow> pydict result" where
  "load_candidate env fs shown p repo_root =
     (case read_json fs p of
        Inl e \<Rightarrow> (if e = JSONDecodeError then Inl (CandidateError (shown @ '': invalid JSON: '')) else Inl e)
      | Inr instance' \<Rightarrow>
          (case instance' of
             PDict d \<Rightarrow> bindR (validate_candidate env fs instance' repo_root) (\<lambda>_. Inr d)
           | _ \<Rightarrow> Inl (CandidateError (shown @ '': top-level JSON value must be an object''))))"

section \<open>Evidence bundles\<close>

definition BUNDLE_TYPE :: string where
  "BUNDLE_TYPE = ''evidence-bundle''"

definition OBJECT_ITEMS :: "string list" where
  "OBJECT_ITEMS = [''signature'', ''sbom'', ''provenance'']"

definition bundle_item :: "string \<Rightarrow> string \<Rightarrow> pyval \<Rightarrow> pyval result" where
  "bundle_item kind ref value =
     bindR (sha256_digest value) (\<lambda>digest.
       Inr (PDict [(''kind'', PStr kind), (''ref'', PStr ref), (''digest'', PStr digest)]))"

definition approval_ref :: "pydict \<Rightarrow> string" where
  "approval_ref approval =
     (let actor_id = (case dget_or approval ''actor'' (PDict []) of
                        PDict a \<Rightarrow> py_str (dget_or a ''id'' (PStr [])) | _ \<Rightarrow> [])
      in py_str (dget_or approval ''role'' (PStr [])) @ '':'' @ actor_id)"

definition collect_items :: "pydict \<Rightarrow> pyval list result" where
  "collect_items candidate =
     bindR (mapR (\<lambda>kind. bundle_item kind (''candidate:'' @ kind) (dget_or candidate kind PNone))
              (filter (\<lambda>kind. is_dict (dget_or candidate kind PNone)) OBJECT_ITEMS)) (\<lambda>objects.
     bindR (val_iter (dget_or candidate ''policy_decisions'' (PList []))) (\<lambda>decisions.
     bindR (mapR (\<lambda>decision. bindR (val_get decision ''point'' (PStr [])) (\<lambda>point.
                bundle_item ''policy-decision'' (py_str point) decision)) (filter is_dict decisions)) (\<lambda>decision_items.
     bindR (val_iter (dget_or candidate ''approvals'' (PList []))) (\<lambda>approvals.
     bindR (mapR (\<lambda>approval. bindR (val_dict approval) (\<lambda>a.
                bundle_item ''approval'' (approval_ref a) approval)) (filter is_dict approvals)) (\<lambda>approval_items.
       Inr (objects @ decision_items @ approval_items))))))"

definition bundle_content :: "string \<Rightarrow> string \<Rightarrow> pyval list \<Rightarrow> pyval" where
  "bundle_content img candidate_digest items =
     PDict [(''image'', PStr img), (''candidate_digest'', PStr candidate_digest), (''items'', PList items)]"

definition bundle_digest :: "string \<Rightarrow> string \<Rightarrow> pyval list \<Rightarrow> string result" where
  "bundle_digest img candidate_digest items = sha256_digest (bundle_content img candidate_digest items)"

definition build_evidence_bundle ::
    "string \<Rightarrow> string \<Rightarrow> pydict \<Rightarrow> string \<Rightarrow> pydict \<Rightarrow> pydict list \<Rightarrow> pydict result" where
  "build_evidence_bundle artifact_id created_at actor run_id candidate links =
     (let img = py_str (dget_or candidate ''image'' (PStr []))
      in bindR (sha256_digest (PDict candidate)) (\<lambda>candidate_digest.
         bindR (collect_items candidate) (\<lambda>items.
         bindR (bundle_digest img candidate_digest items) (\<lambda>digest.
         let document =
           [(''schema_version'', PStr ''1.0.0''), (''artifact_type'', PStr BUNDLE_TYPE), (''id'', PStr artifact_id),
            (''created_at'', PStr created_at), (''actor'', PDict actor), (''run_id'', PStr run_id),
            (''image'', PStr img), (''candidate_digest'', PStr candidate_digest),
            (''bundle_digest'', PStr digest), (''items'', PList items)]
         in Inr (if links = [] then document else dset ''links'' (PList (map PDict links)) document)))))"

section \<open>Verification\<close>

record release_verification =
  rv_allow :: bool
  rv_reason_codes :: "string list"
  rv_decision :: pydict
  rv_bundle :: pydict

definition evaluate_candidate :: "evaluator \<Rightarrow> pydict \<Rightarrow> policy_result result" where
  "evaluate_candidate policy candidate =
     bindR (dindex candidate ''image'') (\<lambda>img. bindR (dindex candidate ''signature'') (\<lambda>signature.
     bindR (dindex candidate ''sbom'') (\<lambda>sbom. bindR (dindex candidate ''provenance'') (\<lambda>provenance.
     bindR (dindex candidate ''policy_decisions'') (\<lambda>decisions.
     bindR (dindex candidate ''required_approver_role'') (\<lambda>role. bindR (dindex candidate ''approvals'') (\<lambda>approvals.
       evaluate_deployment policy img signature sbom provenance decisions role approvals)))))))"

definition verify_release ::
    "schema_env \<Rightarrow> fs \<Rightarrow> evaluator \<Rightarrow> pyval \<Rightarrow> string \<Rightarrow> string \<Rightarrow> string \<Rightarrow> pydict \<Rightarrow> string \<Rightarrow> path option
     \<Rightarrow> release_verification result" where
  "verify_release env fs policy candidate bundle_id decision_id created_at actor run_id repo_root =
     bindR (validate_candidate env fs candidate repo_root) (\<lambda>_.
     bindR (val_dict candidate) (\<lambda>c.
     bindR (build_evidence_bundle bundle_id created_at actor run_id c []) (\<lambda>bundle.
     bindR (evaluate_candidate policy c) (\<lambda>result.
     let decision = build_deployment_decision result decision_id created_at actor run_id
           [[(''rel'', PStr ''evidence''), (''href'', PStr bundle_id)]]
     in Inr \<lparr>rv_allow = pr_allow result, rv_reason_codes = pr_reason_codes result, rv_decision = decision,
             rv_bundle = dset ''policy_decision_ref'' (PStr decision_id) bundle\<rparr>))))"

section \<open>Properties\<close>

lemma validate_candidate_Inr:
  "validate_candidate env fs candidate root = Inr u \<longleftrightarrow>
     (\<exists>d. candidate = PDict d \<and> validate_document env fs d CANDIDATE_SCHEMA root = Inr [])"
  by (cases candidate) (auto simp: validate_candidate_def bindR_eq_Inr)

text \<open>What the policy is asked about: the candidate's seven fields, unchanged.\<close>

definition asked_about :: "pydict \<Rightarrow> pydict \<Rightarrow> bool" where
  "asked_about c payload \<longleftrightarrow>
     list_all (\<lambda>k. dget payload k = dget c k \<and> dget c k \<noteq> None)
       [''image'', ''signature'', ''sbom'', ''provenance'', ''policy_decisions'', ''required_approver_role'', ''approvals'']"

lemma val_dict_Inr: "val_dict v = Inr d \<longleftrightarrow> v = PDict d"
  by (cases v) auto

lemma dicts_list: "dicts (PList xs) = Inr v \<Longrightarrow> v = PList xs"
proof -
  assume "dicts (PList xs) = Inr v"
  then obtain ds where "mapR val_dict xs = Inr ds" "v = PList (map PDict ds)" by (auto simp: dicts_def bindR_eq_Inr)
  moreover have "mapR val_dict xs = Inr ds \<Longrightarrow> xs = map PDict ds" for ds
    by (induction xs arbitrary: ds) (auto simp: bindR_eq_Inr val_dict_Inr)
  ultimately show ?thesis by simp
qed

lemma dindex_Inr: "dindex d k = Inr v \<longleftrightarrow> dget d k = Some v"
  by (auto simp: dindex_def split: option.splits)

lemma evaluate_candidate_Inr:
  assumes "evaluate_candidate policy c = Inr r"
    and "\<exists>xs. dget c ''policy_decisions'' = Some (PList xs)" "\<exists>xs. dget c ''approvals'' = Some (PList xs)"
  obtains payload where "asked_about c payload" "policy DEPLOYMENT_POINT payload = Inr r"
proof -
  from assms(1) obtain img sg sb pv ds role aps payload where f: "dget c ''image'' = Some img"
      "dget c ''signature'' = Some sg" "dget c ''sbom'' = Some sb" "dget c ''provenance'' = Some pv"
      "dget c ''policy_decisions'' = Some ds" "dget c ''required_approver_role'' = Some role"
      "dget c ''approvals'' = Some aps"
      and p: "build_deployment_input img sg sb pv ds role aps = Inr payload" "policy DEPLOYMENT_POINT payload = Inr r"
    unfolding evaluate_candidate_def evaluate_deployment_def bindR_eq_Inr dindex_Inr by blast
  from p(1) obtain sg' sb' pv' ds' aps' where d: "sg = PDict sg'" "sb = PDict sb'" "pv = PDict pv'" "dicts ds = Inr ds'"
      "dicts aps = Inr aps'"
      "payload = [(''image'', img), (''signature'', PDict sg'), (''sbom'', PDict sb'), (''provenance'', PDict pv'),
        (''policy_decisions'', ds'), (''required_approver_role'', role), (''approvals'', aps')]"
    unfolding build_deployment_input_def bindR_eq_Inr val_dict_Inr by blast
  from d(4,5) assms(2,3) f have "ds' = ds" "aps' = aps" using dicts_list by auto
  with f d have "asked_about c payload" by (simp add: asked_about_def)
  with that p(2) show ?thesis by blast
qed

lemma verify_release_Inr:
  assumes "verify_release env fs policy candidate bid did t actor rid root = Inr rv"
  obtains c bdl r where "candidate = PDict c" "validate_document env fs c CANDIDATE_SCHEMA root = Inr []"
    "build_evidence_bundle bid t actor rid c [] = Inr bdl" "evaluate_candidate policy c = Inr r"
    "rv = \<lparr>rv_allow = pr_allow r, rv_reason_codes = pr_reason_codes r,
        rv_decision = build_deployment_decision r did t actor rid [[(''rel'', PStr ''evidence''), (''href'', PStr bid)]],
        rv_bundle = dset ''policy_decision_ref'' (PStr did) bdl\<rparr>"
proof -
  from assms obtain u c bdl r where v: "validate_candidate env fs candidate root = Inr u" "val_dict candidate = Inr c"
      "build_evidence_bundle bid t actor rid c [] = Inr bdl" "evaluate_candidate policy c = Inr r"
      "\<lparr>rv_allow = pr_allow r, rv_reason_codes = pr_reason_codes r,
        rv_decision = build_deployment_decision r did t actor rid [[(''rel'', PStr ''evidence''), (''href'', PStr bid)]],
        rv_bundle = dset ''policy_decision_ref'' (PStr did) bdl\<rparr> = rv"
    unfolding verify_release_def bindR_eq_Inr Let_def sum.inject by blast
  from v(1,2) have "candidate = PDict c" "validate_document env fs c CANDIDATE_SCHEMA root = Inr []"
    by (auto simp: validate_candidate_Inr)
  then show ?thesis using that v(3,4) v(5) [symmetric] by blast
qed

lemma bundle_fields:
  assumes "build_evidence_bundle bid t actor rid c [] = Inr bdl"
  obtains cd items d where "sha256_digest (PDict c) = Inr cd" "collect_items c = Inr items"
    "bundle_digest (py_str (dget_or c ''image'' (PStr []))) cd items = Inr d"
    "dget bdl ''id'' = Some (PStr bid)" "dget bdl ''candidate_digest'' = Some (PStr cd)"
    "dget bdl ''bundle_digest'' = Some (PStr d)" "dget bdl ''items'' = Some (PList items)"
  using assms unfolding build_evidence_bundle_def Let_def by (auto simp: bindR_eq_Inr)

text \<open>
  C27: a release is verified only for a candidate that its schema accepts, and the outcome is the
  answer of the \<open>pre-deployment\<close> policy to a question made of the candidate's own fields. The
  decision records the digest of that question; the bundle records the digest of the candidate,
  and decision and bundle name each other.
\<close>

theorem release_outcome_is_policys:
  assumes "verify_release env fs (evaluate urlopen client) candidate bid did t actor rid root = Inr rv"
    and "candidate = PDict c" "\<exists>xs. dget c ''policy_decisions'' = Some (PList xs)" "\<exists>xs. dget c ''approvals'' = Some (PList xs)"
  shows "\<exists>payload r cd. validate_document env fs c CANDIDATE_SCHEMA root = Inr [] \<and> asked_about c payload
    \<and> evaluate urlopen client DEPLOYMENT_POINT payload = Inr r
    \<and> rv_allow rv = pr_allow r \<and> rv_reason_codes rv = pr_reason_codes r \<and> rv_reason_codes rv \<noteq> []
    \<and> compute_input_digest payload = Inr (pr_input_digest r)
    \<and> dget (rv_decision rv) ''input_digest'' = Some (PStr (pr_input_digest r))
    \<and> dget (rv_decision rv) ''decision'' = Some (PStr (if rv_allow rv then ''allow'' else ''deny''))
    \<and> dget (rv_decision rv) ''id'' = dget (rv_bundle rv) ''policy_decision_ref''
    \<and> dget (rv_decision rv) ''links'' = Some (PList [PDict [(''rel'', PStr ''evidence''), (''href'', PStr bid)]])
    \<and> dget (rv_bundle rv) ''id'' = Some (PStr bid)
    \<and> sha256_digest (PDict c) = Inr cd \<and> dget (rv_bundle rv) ''candidate_digest'' = Some (PStr cd)"
  using assms(1)
proof (rule verify_release_Inr)
  fix c' bdl r
  assume v: "candidate = PDict c'" "validate_document env fs c' CANDIDATE_SCHEMA root = Inr []"
      "build_evidence_bundle bid t actor rid c' [] = Inr bdl" "evaluate_candidate (evaluate urlopen client) c' = Inr r"
      "rv = \<lparr>rv_allow = pr_allow r, rv_reason_codes = pr_reason_codes r,
        rv_decision = build_deployment_decision r did t actor rid [[(''rel'', PStr ''evidence''), (''href'', PStr bid)]],
        rv_bundle = dset ''policy_decision_ref'' (PStr did) bdl\<rparr>"
  then have c: "c' = c" using assms(2) by simp
  obtain payload where p: "asked_about c payload" "evaluate urlopen client DEPLOYMENT_POINT payload = Inr r"
    using evaluate_candidate_Inr [OF v(4)] assms(3,4) c by metis
  obtain cd items d where b: "sha256_digest (PDict c) = Inr cd" "dget bdl ''id'' = Some (PStr bid)"
      "dget bdl ''candidate_digest'' = Some (PStr cd)"
    using bundle_fields [OF v(3)] c by metis
  have "pr_reason_codes r \<noteq> []" "compute_input_digest payload = Inr (pr_input_digest r)"
    using client.ev_codes [OF p(2)] client.ev_digest [OF p(2)] by simp_all
  with v p b c show ?thesis
    by (intro exI [of _ payload] exI [of _ r] exI [of _ cd])
      (simp add: build_deployment_decision_def build_policy_decision_def Let_def)
qed

text \<open>
  The digest of a bundle commits to its content: two bundles with the same canonical text have
  the same image, the same candidate digest and the same items in the same order (up to the order
  of keys); and two candidates with the same canonical text have the same content. Different
  contents with equal digests would be a collision of SHA-256.
\<close>

theorem bundle_digest_commits:
  assumes "printable opts_canonical (bundle_content img cd items)" "printable opts_canonical (bundle_content img' cd' items')"
  shows "canonical_json (bundle_content img cd items) = canonical_json (bundle_content img' cd' items')
    \<longleftrightarrow> img = img' \<and> cd = cd' \<and> map sort_val items = map sort_val items'"
proof -
  have d: "canonical_json v = Inr (json_dumps opts_canonical v)" if "printable opts_canonical v" for v
    using printable_ints_ok(1) [OF that] by (simp add: canonical_json_def dumps_def)
  have c: "canon opts_canonical v = sort_val v" for v by (simp add: canon_def opts_canonical_def)
  have "canonical_json (bundle_content img cd items) = canonical_json (bundle_content img' cd' items')
      \<longleftrightarrow> sort_val (bundle_content img cd items) = sort_val (bundle_content img' cd' items')"
    unfolding d [OF assms(1)] d [OF assms(2)] c [symmetric]
    using json_roundtrip [OF assms(1)] json_roundtrip [OF assms(2)] json_dumps_canonical
    by (metis Inr_inject c)
  also have "\<dots> \<longleftrightarrow> img = img' \<and> cd = cd' \<and> map sort_val items = map sort_val items'"
    by (auto simp: bundle_content_def sort_vals_map less_char_def)
  finally show ?thesis .
qed

theorem bundle_digest_commits_witness:
  "canonical_json (bundle_content ''a'' ''d'' [PStr ''x'', PStr ''y'']) \<noteq> canonical_json (bundle_content ''a'' ''d'' [PStr ''y'', PStr ''x''])"
  by (subst bundle_digest_commits) (simp_all add: bundle_content_def opts_canonical_def str_ok_def dict_wf_def)

section \<open>Witness\<close>

definition release_fs :: fs where
  "release_fs = [[''r''] \<mapsto> Dir, [''r'', ''contracts''] \<mapsto> Dir, [''r'', ''contracts'', ''schemas''] \<mapsto> Dir,
     [''r'', ''contracts'', ''schemas'', ''release-candidate.schema.json''] \<mapsto> File ''{}'']"

definition release_env :: schema_env where
  "release_env = \<lparr>se_module_file = [''r''], se_listdir = (\<lambda>fs p. []), se_ref_errors = (\<lambda>schema resources v. Inr [])\<rparr>"

definition release_demo :: pydict where
  "release_demo = [(''image'', PStr ''i''), (''signature'', PDict []), (''sbom'', PDict []), (''provenance'', PDict []),
     (''policy_decisions'', PList []), (''required_approver_role'', PStr ''r''), (''approvals'', PList [])]"

lemma sha256_digest_total: "ascii_val v \<Longrightarrow> ints_ok v \<Longrightarrow> sha256_digest v = Inr (sha256_hex (json_dumps opts_canonical v))"
  by (simp add: sha256_digest_def canonical_json_def dumps_def ascii_encodes encode_utf8_def)

lemma release_bundle_total:
  "\<exists>bdl. build_evidence_bundle bid t actor rid release_demo [] = Inr bdl
     \<and> (is_ascii bid \<and> is_ascii t \<and> ascii_pairs actor \<and> is_ascii rid \<longrightarrow> ascii_pairs bdl)"
proof -
  have c: "ascii_val (PDict release_demo)" "ints_ok (PDict release_demo)" by (simp_all add: release_demo_def)
  have e: "sha256_digest (PDict []) = Inr (sha256_hex ''{}'')"
    by (subst sha256_digest_total) (simp_all add: dump_members_def)
  have h: "is_ascii (sha256_hex m)" for m by (rule is_hex_ascii) (rule sha256_hex_hex)
  obtain items where i: "collect_items release_demo = Inr items" "ascii_vals items" "ints_ok_list items"
    using e h by (simp add: collect_items_def bundle_item_def release_demo_def OBJECT_ITEMS_def dget_or_def)
  let ?cd = "sha256_hex (json_dumps opts_canonical (PDict release_demo))"
  obtain d where "bundle_digest ''i'' ?cd items = Inr d" "is_ascii d"
    unfolding bundle_digest_def by (subst (asm) sha256_digest_total) (use i h in \<open>simp_all add: bundle_content_def\<close>)
  moreover have "dget_or release_demo ''image'' (PStr []) = PStr ''i''" by (simp add: release_demo_def dget_or_def)
  ultimately show ?thesis
    using i h by (simp add: build_evidence_bundle_def Let_def sha256_digest_total [OF c] BUNDLE_TYPE_def del: json_dumps.simps)
qed

theorem release_outcome_is_policys_witness:
  "\<exists>rv. verify_release release_env release_fs (evaluate (\<lambda>_. HttpUnavailable) demo_client) (PDict release_demo) ''EB-1'' ''PD-1'' ''T''
      [] ''R'' (Some [''r'']) = Inr rv \<and> rv_reason_codes rv \<noteq> [] \<and> dget (rv_bundle rv) ''id'' = Some (PStr ''EB-1'')"
proof -
  have v: "validate_document release_env release_fs release_demo CANDIDATE_SCHEMA (Some [''r'']) = Inr []" by code_simp
  obtain bdl where b: "build_evidence_bundle ''EB-1'' ''T'' [] ''R'' release_demo [] = Inr bdl"
    using release_bundle_total by blast
  have "ascii_val (PDict release_demo)" "ints_ok (PDict release_demo)"
    "ascii_val (PDict [(''input'', PDict release_demo)])" "ints_ok (PDict [(''input'', PDict release_demo)])"
    by (simp_all add: release_demo_def)
  then obtain dg rq where "compute_input_digest release_demo = Inr dg" "build_request demo_client DEPLOYMENT_POINT release_demo = Inr rq"
    by (simp add: compute_input_digest_def build_request_def dumps_def ascii_encodes encode_utf8_def
        del: json_dumps.simps ascii_val.simps ints_ok.simps)
  then have "\<exists>r. evaluate (\<lambda>_. HttpUnavailable) demo_client DEPLOYMENT_POINT release_demo = Inr r"
    by (simp add: evaluate_def)
  moreover have "evaluate_candidate policy release_demo = policy DEPLOYMENT_POINT release_demo" for policy
    by (simp add: evaluate_candidate_def evaluate_deployment_def build_deployment_input_def dicts_def dindex_def release_demo_def)
  ultimately obtain r where r: "evaluate_candidate (evaluate (\<lambda>_. HttpUnavailable) demo_client) release_demo = Inr r" by auto
  obtain rv where rv: "verify_release release_env release_fs (evaluate (\<lambda>_. HttpUnavailable) demo_client) (PDict release_demo)
      ''EB-1'' ''PD-1'' ''T'' [] ''R'' (Some [''r'']) = Inr rv"
    using v b r by (simp add: verify_release_def validate_candidate_def Let_def)
  have "\<exists>xs. dget release_demo ''policy_decisions'' = Some (PList xs)" "\<exists>xs. dget release_demo ''approvals'' = Some (PList xs)"
    by (simp_all add: release_demo_def)
  from release_outcome_is_policys [OF rv refl this] rv show ?thesis by auto
qed

end
