(* ===== verification/Skills.thy ===== *)
theory Skills
  imports Tools Evidence Json
begin

text \<open>
  Role skills (\<open>skills/base.py\<close>, \<open>skills/registry.py\<close>, \<open>skills/roles.py\<close>, \<open>skills/task_writer.py\<close>) and the
  interface to the language model with its stub (\<open>llm/base.py\<close>, \<open>llm/stub.py\<close>). A skill names the
  context it needs, the prompt, and how an artifact is assembled from the model's untrusted answer
  and the fields that the platform controls.

  The lemmas show that sensitive inputs never enter a context, what the extraction of JSON from
  the model's text accepts, and that no answer of the model can set a field that the platform
  controls.
\<close>

section \<open>The language model\<close>

record llm_request =
  lr_role :: string
  lr_system_prompt :: string
  lr_context :: pydict

record llm_response =
  ls_text :: string
  ls_model :: string

definition DEFAULT_MODEL :: string where
  "DEFAULT_MODEL = ''stub''"

record stub_llm =
  sl_responses :: "string dict"
  sl_model :: string

definition stub_complete :: "stub_llm \<Rightarrow> llm_request \<Rightarrow> llm_response result" where
  "stub_complete stub request =
     (case dget (sl_responses stub) (lr_role request) of
        None \<Rightarrow> Inl (LLMError (''no stub response for role '' @ repr_str (lr_role request)))
      | Some text \<Rightarrow> Inr \<lparr>ls_text = text, ls_model = sl_model stub\<rparr>)"

section \<open>Skills\<close>

record context_input =
  ci_name :: string
  ci_document :: pydict
  ci_source :: string

text \<open>The envelope that the runner passes to \<open>assemble\<close>: a dictionary with these five keys.\<close>

record envelope =
  en_artifact_id :: string
  en_created_at :: string
  en_actor :: pydict
  en_run_id :: string
  en_bindings :: pydict

type_synonym assemble_fn = "pydict \<Rightarrow> envelope \<Rightarrow> pydict result"

record skill =
  sk_name :: string
  sk_role :: string
  sk_tool_name :: string
  sk_output_schema :: string
  sk_system_prompt :: string
  sk_context_keys :: "string list"
  sk_assemble :: assemble_fn

definition link_href_of :: "pydict \<Rightarrow> string" where
  "link_href_of link = py_str (dget_or link ''href'' (PStr []))"

fun append_links :: "pydict list \<Rightarrow> string list \<Rightarrow> pydict list \<Rightarrow> pydict list result" where
  "append_links [] seen existing = Inr existing"
| "append_links (link # links) seen existing =
     (let href = link_href_of link
      in if List.member seen href then append_links links seen existing
         else
           bindR (dindex link ''rel'') (\<lambda>rel.
             append_links links (href # seen) (existing @ [[(''rel'', PStr (py_str rel)), (''href'', PStr href)]])))"

definition add_links :: "pydict \<Rightarrow> pydict list \<Rightarrow> pydict result" where
  "add_links document links =
     bindR (val_iter (dget_or document ''links'' (PList []))) (\<lambda>items.
     bindR (mapR val_dict items) (\<lambda>existing.
     bindR (append_links links (map link_href_of existing) existing) (\<lambda>all.
       Inr (dset ''links'' (PList (map PDict all)) document))))"

fun context_onto :: "context_input list \<Rightarrow> pydict \<Rightarrow> pydict result" where
  "context_onto [] context = Inr context"
| "context_onto (item # items) context =
     (if classify_source (ci_source item) = SENSITIVE
      then Inl (SensitiveContentError
             (''input '' @ repr_str (ci_name item) @ '' is sensitive and must not enter the model context''))
      else context_onto items (dset (ci_name item) (PDict (ci_document item)) context))"

definition build_context :: "context_input list \<Rightarrow> pydict result" where
  "build_context inputs = context_onto inputs []"

section \<open>Reading the model's answer\<close>

definition fence :: string where
  "fence = replicate 3 CHR 0x60"

definition unfence :: "string \<Rightarrow> string" where
  "unfence stripped =
     (if starts_with fence stripped
      then (let lines = tl (splitlines stripped);
                kept = (if lines \<noteq> [] \<and> starts_with fence (strip (last lines)) then butlast lines else lines)
            in strip (join [newline] kept))
      else stripped)"

text \<open>The part from the first opening to the last closing brace, if they come in this order.\<close>

definition brace_part :: "string \<Rightarrow> string list" where
  "brace_part s =
     (let t = dropWhile (\<lambda>c. c \<noteq> CHR 0x7B) s
      in if List.member t CHR 0x7D then [rev (dropWhile (\<lambda>c. c \<noteq> CHR 0x7D) (rev t))] else [])"

fun first_object :: "string list \<Rightarrow> pydict result" where
  "first_object [] = Inl (SkillError ''LLM output is not a JSON object'')"
| "first_object (candidate # candidates) =
     (case json_loads candidate of
        Inl e \<Rightarrow> (if e = JSONDecodeError then first_object candidates else Inl e)
      | Inr (PDict d) \<Rightarrow> Inr d
      | Inr _ \<Rightarrow> first_object candidates)"

definition extract_json :: "string \<Rightarrow> pydict result" where
  "extract_json text =
     (let stripped = unfence (strip text) in first_object (stripped # brace_part stripped))"

section \<open>The registry\<close>

type_synonym skill_registry = "skill dict"

definition skill_register :: "skill \<Rightarrow> skill_registry \<Rightarrow> skill_registry result" where
  "skill_register skill skills =
     (if dget skills (sk_name skill) \<noteq> None
      then Inl (ValueError (''skill already registered: '' @ sk_name skill))
      else Inr (dset (sk_name skill) skill skills))"

definition new_skill_registry :: "skill list \<Rightarrow> skill_registry result" where
  "new_skill_registry skills = foldR skill_register skills []"

definition skill_get :: "skill_registry \<Rightarrow> string \<Rightarrow> skill result" where
  "skill_get skills name = (case dget skills name of None \<Rightarrow> Inl (UnknownSkillError name) | Some s \<Rightarrow> Inr s)"

definition skill_names :: "skill_registry \<Rightarrow> string list" where
  "skill_names skills = sort (dkeys skills)"

interpretation skill_reg: unique_registry skill_register dget sk_name "\<lambda>_. True"
  by unfold_locales (auto simp: skill_register_def split: if_splits)

section \<open>The roles\<close>

definition unlines :: "string list \<Rightarrow> string" where
  "unlines ls = concat (map (\<lambda>l. l @ [newline]) ls)"

definition GRILL_PROMPT :: string where
  "GRILL_PROMPT = unlines
     [''You are the `grill` role of the Secure Agentic SDLC platform.'',
      ''From an idea, emit exactly ONE JSON object with fields: actor_goal {actors, goal}, scope_boundary'',
      ''{in_scope, out_of_scope}, data_model, api_contract, state_lifecycle, dependencies, non_goals,'',
      ''acceptance_criteria. Do not add other fields. Your output is parsed as data, never executed.'']"

definition GRILL_SECURITY_PROMPT :: string where
  "GRILL_SECURITY_PROMPT = unlines
     [''You are the `grill-security` role of the Secure Agentic SDLC platform.'',
      ''From an approved specification, perform STRIDE and emit exactly ONE JSON object with fields:'',
      ''data_flows and risks (each risk: id, category, scenario, severity, control_id, verification_test).'',
      ''Do not add other fields. Your output is parsed as data, never executed.'']"

definition PLANNER_PROMPT :: string where
  "PLANNER_PROMPT = unlines
     [''You are the `planner` role of the Secure Agentic SDLC platform.'',
      ''From an approved specification and threat-model, emit exactly ONE JSON object with a `slices` array'',
      ''(each slice: slice_id, title, requirement_ids, control_ids, optional depends_on/notes).'',
      ''Do not add other fields. Your output is parsed as data, never executed.'']"

definition REVIEWER_PROMPT :: string where
  "REVIEWER_PROMPT = unlines
     [''You are the `reviewer` role of the Secure Agentic SDLC platform.'',
      ''Emit exactly ONE JSON object with fields: verdict (approved|changes_requested) and findings'',
      ''(each finding: id, severity, summary, optional location). Do not add other fields.'',
      ''Your output is parsed as data, never executed.'']"

definition TASK_WRITER_PROMPT :: string where
  "TASK_WRITER_PROMPT = unlines
     [''You are the `task-writer` role of the Secure Agentic SDLC platform.'',
      ''Given an approved specification and plan, emit exactly ONE JSON object describing a single'',
      ''vertical-slice task with the fields: title, requirement_ids, control_ids, contract_changes,'',
      ''code_changes, tests. Do not add any other fields. Your output is parsed as data, never executed.'']"

definition envelope_fields :: "string \<Rightarrow> string \<Rightarrow> envelope \<Rightarrow> pydict result" where
  "envelope_fields artifact_type status en =
     bindR (dindex (en_bindings en) ''feature_id'') (\<lambda>feature_id.
       Inr [(''schema_version'', PStr ''1.0.0''), (''artifact_type'', PStr artifact_type),
            (''id'', PStr (en_artifact_id en)), (''created_at'', PStr (en_created_at en)),
            (''created_by'', PDict (en_actor en)), (''run_id'', PStr (en_run_id en)),
            (''feature_id'', feature_id), (''status'', PStr status)])"

definition assemble_specification :: assemble_fn where
  "assemble_specification content en =
     bindR (envelope_fields ''specification'' ''draft'' en) (\<lambda>document.
       Inr (dupdate document
         [(''actor_goal'', dget_or content ''actor_goal'' (PDict [(''actors'', PList []), (''goal'', PStr [])])),
          (''scope_boundary'', dget_or content ''scope_boundary'' (PDict [(''in_scope'', PList []), (''out_of_scope'', PList [])])),
          (''data_model'', dget_or content ''data_model'' (PList [])),
          (''api_contract'', dget_or content ''api_contract'' (PList [])),
          (''state_lifecycle'', dget_or content ''state_lifecycle'' (PList [])),
          (''dependencies'', dget_or content ''dependencies'' (PList [])),
          (''non_goals'', dget_or content ''non_goals'' (PList [])),
          (''acceptance_criteria'', dget_or content ''acceptance_criteria'' (PList []))]))"

definition assemble_threat_model :: assemble_fn where
  "assemble_threat_model content en =
     bindR (envelope_fields ''threat-model'' ''draft'' en) (\<lambda>document.
       Inr (dupdate document
         [(''method'', PStr ''STRIDE''), (''data_flows'', dget_or content ''data_flows'' (PList [])),
          (''risks'', dget_or content ''risks'' (PList []))]))"

definition assemble_plan :: assemble_fn where
  "assemble_plan content en =
     bindR (envelope_fields ''plan'' ''draft'' en) (\<lambda>document.
       Inr (dset ''slices'' (dget_or content ''slices'' (PList [])) document))"

definition assemble_review :: assemble_fn where
  "assemble_review content en =
     bindR (dindex (en_bindings en) ''task_id'') (\<lambda>task_id.
     bindR (dindex (en_bindings en) ''subject_digest'') (\<lambda>subject_digest.
       Inr [(''schema_version'', PStr ''1.0.0''), (''artifact_type'', PStr ''review''),
            (''id'', PStr (en_artifact_id en)), (''created_at'', PStr (en_created_at en)),
            (''created_by'', PDict (en_actor en)), (''run_id'', PStr (en_run_id en)), (''task_id'', task_id),
            (''subject_digest'', subject_digest),
            (''verdict'', dget_or content ''verdict'' (PStr ''changes_requested'')),
            (''findings'', dget_or content ''findings'' (PList []))]))"

definition assemble_task :: assemble_fn where
  "assemble_task content en =
     bindR (dindex (en_bindings en) ''feature_id'') (\<lambda>feature_id.
     bindR (dindex (en_bindings en) ''plan_id'') (\<lambda>plan_id.
       Inr [(''schema_version'', PStr ''1.0.0''), (''artifact_type'', PStr ''task''),
            (''id'', PStr (en_artifact_id en)), (''created_at'', PStr (en_created_at en)),
            (''created_by'', PDict (en_actor en)), (''run_id'', PStr (en_run_id en)), (''feature_id'', feature_id),
            (''plan_id'', plan_id), (''status'', PStr ''todo''),
            (''title'', dget_or content ''title'' (PStr [])),
            (''requirement_ids'', dget_or content ''requirement_ids'' (PList [])),
            (''control_ids'', dget_or content ''control_ids'' (PList [])),
            (''contract_changes'', dget_or content ''contract_changes'' (PList [])),
            (''code_changes'', dget_or content ''code_changes'' (PList [])),
            (''tests'', dget_or content ''tests'' (PList []))]))"

definition GRILL :: skill where
  "GRILL = \<lparr>sk_name = ''grill'', sk_role = ''grill'', sk_tool_name = ''skill.grill'', sk_output_schema = ''specification.schema.json'',
     sk_system_prompt = GRILL_PROMPT, sk_context_keys = [''idea''], sk_assemble = assemble_specification\<rparr>"

definition GRILL_SECURITY :: skill where
  "GRILL_SECURITY = \<lparr>sk_name = ''grill-security'', sk_role = ''grill-security'', sk_tool_name = ''skill.grill-security'', sk_output_schema = ''threat-model.schema.json'',
     sk_system_prompt = GRILL_SECURITY_PROMPT, sk_context_keys = [''specification''], sk_assemble = assemble_threat_model\<rparr>"

definition PLANNER :: skill where
  "PLANNER = \<lparr>sk_name = ''planner'', sk_role = ''planner'', sk_tool_name = ''skill.planner'', sk_output_schema = ''plan.schema.json'',
     sk_system_prompt = PLANNER_PROMPT, sk_context_keys = [''specification'', ''threat-model''], sk_assemble = assemble_plan\<rparr>"

definition REVIEWER :: skill where
  "REVIEWER = \<lparr>sk_name = ''reviewer'', sk_role = ''reviewer'', sk_tool_name = ''skill.reviewer'', sk_output_schema = ''review.schema.json'',
     sk_system_prompt = REVIEWER_PROMPT, sk_context_keys = [''task''], sk_assemble = assemble_review\<rparr>"

definition TASK_WRITER :: skill where
  "TASK_WRITER = \<lparr>sk_name = ''task-writer'', sk_role = ''task-writer'', sk_tool_name = ''skill.task-writer'', sk_output_schema = ''task.schema.json'',
     sk_system_prompt = TASK_WRITER_PROMPT, sk_context_keys = [''specification'', ''plan''], sk_assemble = assemble_task\<rparr>"

definition DEFAULT_SKILLS :: "skill list" where
  "DEFAULT_SKILLS = [GRILL, GRILL_SECURITY, PLANNER, TASK_WRITER, REVIEWER]"

definition build_default_registry :: "skill_registry result" where
  "build_default_registry = new_skill_registry DEFAULT_SKILLS"

section \<open>Contexts\<close>

lemma context_onto_Inr:
  "(\<exists>ctx. context_onto inputs acc = Inr ctx) \<longleftrightarrow> (\<forall>i \<in> set inputs. classify_source (ci_source i) \<noteq> SENSITIVE)"
  by (induction inputs arbitrary: acc) auto

lemma context_onto_get:
  "context_onto inputs acc = Inr ctx \<Longrightarrow>
   dget ctx k = (case find (\<lambda>i. ci_name i = k) (rev inputs) of
     Some i \<Rightarrow> Some (PDict (ci_document i)) | None \<Rightarrow> dget acc k)"
proof (induction inputs arbitrary: acc)
  case (Cons i inputs)
  have f: "find P (xs @ [x]) = (case find P xs of Some y \<Rightarrow> Some y | None \<Rightarrow> if P x then Some x else None)" for P xs and x :: context_input
    by (induction xs) auto
  from Cons show ?case by (auto simp: f split: if_splits option.splits)
qed simp

text \<open>
  C14: a context is built exactly when none of the inputs comes from a sensitive source; it then
  holds the documents of the inputs and nothing else, the last one of those with the same name.
\<close>

theorem context_excludes_sensitive:
  "((\<exists>ctx. build_context inputs = Inr ctx) \<longleftrightarrow>
      list_all (\<lambda>i. classify_source (ci_source i) \<noteq> SENSITIVE) inputs)
   \<and> (build_context inputs = Inr ctx \<longrightarrow>
        dget ctx k = map_option (\<lambda>i. PDict (ci_document i)) (find (\<lambda>i. ci_name i = k) (rev inputs)))"
  using context_onto_Inr [of inputs "[]"] context_onto_get [of inputs "[]" ctx k]
  by (auto simp: build_context_def list_all_iff split: option.splits)

theorem context_excludes_sensitive_witness:
  "build_context [\<lparr>ci_name = ''a'', ci_document = [], ci_source = ''secret''\<rparr>] \<noteq> Inr []
   \<and> build_context [\<lparr>ci_name = ''a'', ci_document = [], ci_source = ''policy''\<rparr>] = Inr [(''a'', PDict [])]
   \<and> dget [(''a'', PDict [])] ''b'' = (None :: pyval option)"
proof -
  have r: "build_context [\<lparr>ci_name = ''a'', ci_document = [], ci_source = ''policy''\<rparr>] = Inr [(''a'', PDict [])]"
    by (simp add: build_context_def classify_source_def trusted_sources_def)
  have "\<not> (\<exists>ctx. build_context [\<lparr>ci_name = ''a'', ci_document = [], ci_source = ''secret''\<rparr>] = Inr ctx)"
    by (subst context_excludes_sensitive [THEN conjunct1])
      (simp add: classify_source_def trusted_sources_def sensitive_sources_def)
  with r context_excludes_sensitive [of "[\<lparr>ci_name = ''a'', ci_document = [], ci_source = ''policy''\<rparr>]" "[(''a'', PDict [])]" "''b''"]
  show ?thesis by auto
qed

section \<open>Assembled artifacts\<close>

definition platform_fields :: "string list" where
  "platform_fields = [''schema_version'', ''artifact_type'', ''id'', ''created_at'', ''created_by'', ''run_id'',
     ''feature_id'', ''plan_id'', ''task_id'', ''subject_digest'', ''status'', ''method'', ''approval'', ''approved'', ''links'']"

lemmas assemble_defs = assemble_specification_def assemble_threat_model_def assemble_plan_def assemble_review_def
  assemble_task_def envelope_fields_def

lemmas skill_defs = GRILL_def GRILL_SECURITY_def PLANNER_def TASK_WRITER_def REVIEWER_def

text \<open>The common form of the assembled documents: fields that the envelope determines, followed by
  fields that are copied from the answer or set to a default.\<close>

definition assembles :: "skill \<Rightarrow> (envelope \<Rightarrow> pydict result) \<Rightarrow> pydict \<Rightarrow> bool" where
  "assembles skill front copied \<longleftrightarrow>
     (\<forall>content en. sk_assemble skill content en
        = bindR (front en) (\<lambda>plat. Inr (plat @ map (\<lambda>(k, v). (k, dget_or content k v)) copied)))"

definition identified :: "skill \<Rightarrow> envelope \<Rightarrow> pydict \<Rightarrow> bool" where
  "identified skill en doc \<longleftrightarrow>
     dget doc ''id'' = Some (PStr (en_artifact_id en)) \<and> dget doc ''created_at'' = Some (PStr (en_created_at en))
   \<and> dget doc ''created_by'' = Some (PDict (en_actor en)) \<and> dget doc ''run_id'' = Some (PStr (en_run_id en))
   \<and> (\<exists>t. dget doc ''artifact_type'' = Some (PStr t) \<and> sk_output_schema skill = t @ ''.schema.json'')"

definition good_form :: "skill \<Rightarrow> (envelope \<Rightarrow> pydict result) \<Rightarrow> pydict \<Rightarrow> bool" where
  "good_form skill front copied \<longleftrightarrow> assembles skill front copied
     \<and> list_all (\<lambda>(k, v). \<not> List.member platform_fields k) copied
     \<and> (\<forall>en plat. front en = Inr plat \<longrightarrow> identified skill en plat)"

lemma envelope_identified:
  "envelope_fields t st en = Inr plat \<Longrightarrow> sk_output_schema skill = t @ ''.schema.json'' \<Longrightarrow> identified skill en (plat @ extra)"
  by (auto simp: envelope_fields_def bindR_eq_Inr identified_def)

lemma envelope_update:
  "distinct (map fst ps) \<Longrightarrow> list_all (\<lambda>k. k \<notin> set [''schema_version'', ''artifact_type'', ''id'', ''created_at'', ''created_by'',
     ''run_id'', ''feature_id'', ''status'']) (map fst ps) \<Longrightarrow>
   bindR (envelope_fields t st en) (\<lambda>plat. Inr (dupdate plat ps)) = bindR (envelope_fields t st en) (\<lambda>plat. Inr (plat @ ps))"
proof (cases "envelope_fields t st en")
  case (Inr plat)
  assume p: "distinct (map fst ps)" "list_all (\<lambda>k. k \<notin> set [''schema_version'', ''artifact_type'', ''id'', ''created_at'',
     ''created_by'', ''run_id'', ''feature_id'', ''status'']) (map fst ps)"
  have "dkeys plat = [''schema_version'', ''artifact_type'', ''id'', ''created_at'', ''created_by'', ''run_id'', ''feature_id'', ''status'']"
    using Inr by (auto simp: envelope_fields_def bindR_eq_Inr)
  then have "distinct (dkeys plat @ dkeys ps)" using p by (auto simp: list_all_iff)
  then show ?thesis using Inr by (simp add: dupdate_fresh)
qed simp

lemma GRILL_form: "\<exists>front copied. good_form GRILL front copied"
  by (rule exI [of _ "envelope_fields ''specification'' ''draft''"],
      rule exI [of _ "[(''actor_goal'', PDict [(''actors'', PList []), (''goal'', PStr [])]),
        (''scope_boundary'', PDict [(''in_scope'', PList []), (''out_of_scope'', PList [])]), (''data_model'', PList []),
        (''api_contract'', PList []), (''state_lifecycle'', PList []), (''dependencies'', PList []), (''non_goals'', PList []),
        (''acceptance_criteria'', PList [])]"])
    (use envelope_identified [where extra = "[]"] in
      \<open>simp add: good_form_def assembles_def platform_fields_def GRILL_def assemble_specification_def envelope_update\<close>)

lemma GRILL_SECURITY_form: "\<exists>front copied. good_form GRILL_SECURITY front copied"
  by (rule exI [of _ "\<lambda>en. bindR (envelope_fields ''threat-model'' ''draft'' en) (\<lambda>plat. Inr (plat @ [(''method'', PStr ''STRIDE'')]))"],
      rule exI [of _ "[(''data_flows'', PList []), (''risks'', PList [])]"])
    (use envelope_identified in
      \<open>auto simp: good_form_def assembles_def platform_fields_def GRILL_SECURITY_def assemble_threat_model_def envelope_update
        bindR_assoc bindR_eq_Inr\<close>)

lemma PLANNER_form: "\<exists>front copied. good_form PLANNER front copied"
proof -
  have "bindR (envelope_fields t st en) (\<lambda>d. Inr (dset ''slices'' v d)) = bindR (envelope_fields t st en) (\<lambda>d. Inr (d @ [(''slices'', v)]))" for t st en v
    using envelope_update [of "[(''slices'', v)]" t st en] by (simp add: dupdate_def)
  then show ?thesis
    by (intro exI [of _ "envelope_fields ''plan'' ''draft''"] exI [of _ "[(''slices'', PList [])]"])
      (use envelope_identified [where extra = "[]"] in
        \<open>simp add: good_form_def assembles_def platform_fields_def PLANNER_def assemble_plan_def\<close>)
qed

lemma TASK_WRITER_form: "\<exists>front copied. good_form TASK_WRITER front copied"
  by (rule exI [of _ "\<lambda>en. bindR (dindex (en_bindings en) ''feature_id'') (\<lambda>feature_id.
     bindR (dindex (en_bindings en) ''plan_id'') (\<lambda>plan_id.
       Inr [(''schema_version'', PStr ''1.0.0''), (''artifact_type'', PStr ''task''),
            (''id'', PStr (en_artifact_id en)), (''created_at'', PStr (en_created_at en)),
            (''created_by'', PDict (en_actor en)), (''run_id'', PStr (en_run_id en)), (''feature_id'', feature_id),
            (''plan_id'', plan_id), (''status'', PStr ''todo'')]))"],
      rule exI [of _ "[(''title'', PStr []), (''requirement_ids'', PList []), (''control_ids'', PList []),
        (''contract_changes'', PList []), (''code_changes'', PList []), (''tests'', PList [])]"])
    (auto simp: good_form_def assembles_def platform_fields_def TASK_WRITER_def assemble_task_def identified_def
        bindR_assoc bindR_eq_Inr)

lemma REVIEWER_form: "\<exists>front copied. good_form REVIEWER front copied"
  by (rule exI [of _ "\<lambda>en. bindR (dindex (en_bindings en) ''task_id'') (\<lambda>task_id.
     bindR (dindex (en_bindings en) ''subject_digest'') (\<lambda>subject_digest.
       Inr [(''schema_version'', PStr ''1.0.0''), (''artifact_type'', PStr ''review''),
            (''id'', PStr (en_artifact_id en)), (''created_at'', PStr (en_created_at en)),
            (''created_by'', PDict (en_actor en)), (''run_id'', PStr (en_run_id en)), (''task_id'', task_id),
            (''subject_digest'', subject_digest)]))"],
      rule exI [of _ "[(''verdict'', PStr ''changes_requested''), (''findings'', PList [])]"])
    (auto simp: good_form_def assembles_def platform_fields_def REVIEWER_def assemble_review_def identified_def
        bindR_assoc bindR_eq_Inr)

lemma default_form: "skill \<in> set DEFAULT_SKILLS \<Longrightarrow> \<exists>front copied. good_form skill front copied"
  using GRILL_form GRILL_SECURITY_form PLANNER_form TASK_WRITER_form REVIEWER_form by (auto simp: DEFAULT_SKILLS_def)

text \<open>
  C13: the model cannot set a field that the platform controls. For each of the five roles and any
  two answers of the model, the assembled documents have the same keys in the same order and
  agree on every field of the platform (identity, author, run, feature, plan, task, digest,
  status); identifier, time, author and run are those of the envelope, and the type is the one of
  the role's schema. Whether assembling succeeds does not depend on the answer either.
\<close>

theorem platform_fields_not_from_model:
  assumes "skill \<in> set DEFAULT_SKILLS" "sk_assemble skill content en = Inr doc"
  shows "(\<exists>doc'. sk_assemble skill content' en = Inr doc' \<and> dkeys doc' = dkeys doc
       \<and> (\<forall>k \<in> set platform_fields. dget doc' k = dget doc k))
    \<and> dget doc ''id'' = Some (PStr (en_artifact_id en)) \<and> dget doc ''created_at'' = Some (PStr (en_created_at en))
    \<and> dget doc ''created_by'' = Some (PDict (en_actor en)) \<and> dget doc ''run_id'' = Some (PStr (en_run_id en))
    \<and> (\<exists>t. dget doc ''artifact_type'' = Some (PStr t) \<and> sk_output_schema skill = t @ ''.schema.json'')"
proof -
  from default_form [OF assms(1)] obtain front copied where g: "assembles skill front copied"
      "\<forall>(k, v) \<in> set copied. k \<notin> set platform_fields" "\<And>en plat. front en = Inr plat \<Longrightarrow> identified skill en plat"
    by (auto simp: good_form_def list_all_iff)
  let ?copy = "\<lambda>c. map (\<lambda>(k, v). (k, dget_or c k v)) copied"
  from g(1) assms(2) obtain plat where plat: "front en = Inr plat" "doc = plat @ ?copy content"
    by (auto simp: assembles_def bindR_eq_Inr)
  have none: "dget (?copy c) k = None" if "k \<in> set platform_fields" for c k
    using g(2) that by (fastforce simp: map_of_eq_None_iff)
  have keys: "dkeys (?copy c) = dkeys copied" for c by (simp add: case_prod_unfold comp_def)
  have doc': "sk_assemble skill content' en = Inr (plat @ ?copy content')"
    using g(1) plat(1) by (simp add: assembles_def)
  have agree: "dget (plat @ ?copy content') k = dget doc k" if "k \<in> set platform_fields" for k
    by (simp only: plat(2) map_of_append map_add_def none [OF that])
  have "dkeys (plat @ ?copy content') = dkeys doc" unfolding plat(2) map_append keys ..
  moreover have "identified skill en doc" using g(3) [OF plat(1)] by (auto simp: identified_def plat(2))
  ultimately show ?thesis unfolding identified_def using doc' agree by blast
qed

theorem platform_fields_not_from_model_witness:
  "\<exists>doc. sk_assemble PLANNER [(''status'', PStr ''approved''), (''slices'', PList [])]
      \<lparr>en_artifact_id = ''PLAN-1'', en_created_at = ''T'', en_actor = [], en_run_id = ''R'', en_bindings = [(''feature_id'', PStr ''F'')]\<rparr> = Inr doc
     \<and> dget doc ''status'' = Some (PStr ''draft'') \<and> dget doc ''id'' = Some (PStr ''PLAN-1'')"
proof -
  let ?en = "\<lparr>en_artifact_id = ''PLAN-1'', en_created_at = ''T'', en_actor = [], en_run_id = ''R'', en_bindings = [(''feature_id'', PStr ''F'')]\<rparr>"
  let ?bad = "[(''status'', PStr ''approved''), (''slices'', PList [])]"
  obtain doc where d: "sk_assemble PLANNER [] ?en = Inr doc" "dget doc ''status'' = Some (PStr ''draft'')"
    by (simp add: PLANNER_def assemble_plan_def envelope_fields_def dindex_def)
  have "PLANNER \<in> set DEFAULT_SKILLS" by (simp add: DEFAULT_SKILLS_def)
  from platform_fields_not_from_model [OF this d(1), of ?bad] obtain doc' where
    doc': "sk_assemble PLANNER ?bad ?en = Inr doc'" "\<forall>k \<in> set platform_fields. dget doc' k = dget doc k"
      "dget doc ''id'' = Some (PStr ''PLAN-1'')"
    by auto
  have "''status'' \<in> set platform_fields" "''id'' \<in> set platform_fields" by (simp_all add: platform_fields_def)
  with doc' d(2) show ?thesis by (intro exI [of _ doc']) simp
qed

section \<open>Answers\<close>

lemma first_object_Inr:
  "first_object cs = Inr d \<Longrightarrow> \<exists>c \<in> set cs. json_loads c = Inr (PDict d)"
  by (induction cs rule: first_object.induct) (auto split: sum.splits pyval.splits if_splits)

lemma first_object_Inl:
  "first_object cs = Inl e \<Longrightarrow> e = SkillError ''LLM output is not a JSON object'' \<or> e = ValueError []"
  by (induction cs rule: first_object.induct) (auto split: sum.splits pyval.splits if_splits dest: json_loads_errors)

lemma extract_json_Inl:
  "extract_json text = Inl e \<Longrightarrow> e = SkillError ''LLM output is not a JSON object'' \<or> e = ValueError []"
  unfolding extract_json_def Let_def by (rule first_object_Inl)

lemma strip_plain:
  assumes "py_chars s = c # cs" "\<not> is_space c" "\<not> is_space (last (py_chars s))"
  shows "strip s = s"
proof -
  have "dropWhile is_space (py_chars s) = py_chars s" using assms(1,2) by simp
  moreover have "dropWhile is_space (rev (py_chars s)) = rev (py_chars s)"
  proof (cases "py_chars s" rule: rev_cases)
    case (snoc ys y)
    then show ?thesis using assms(3) by simp
  qed (use assms in simp)
  ultimately show ?thesis by (simp add: strip_def)
qed

lemma dumps_dict_shape:
  "\<exists>mid. json_dumps opts (PDict d) = CHR 0x7B # mid @ [CHR 0x7D] \<and> (mid = [] \<or> hd mid = quote2)"
proof -
  let ?ms = "if sort_keys opts then sort_key fst (dump_pairs opts d) else dump_pairs opts d"
  have "join sep (map (\<lambda>(k, t). esc_str opts k @ key_sep opts @ t) ms) = []
      \<or> hd (join sep (map (\<lambda>(k, t). esc_str opts k @ key_sep opts @ t) ms)) = quote2" for sep ms
    by (cases ms) (auto simp: join_Cons esc_str_def)
  then show ?thesis by (auto simp: dump_members_def)
qed

lemma strip_dumps_dict: "strip (json_dumps opts (PDict d)) = json_dumps opts (PDict d)"
proof -
  obtain mid where m: "json_dumps opts (PDict d) = CHR 0x7B # mid @ [CHR 0x7D]" "mid = [] \<or> hd mid = quote2"
    using dumps_dict_shape by blast
  have nc: "\<not> is_cont CHR 0x7B" "\<not> is_cont CHR 0x7D" "\<not> is_cont quote2" by (simp_all add: is_cont_def)
  let ?s = "CHR 0x7B # mid @ [CHR 0x7D]"
  have "takeWhile is_cont (mid @ [CHR 0x7D]) = []" using m(2) nc by (cases mid) auto
  then have first: "py_chars ?s = [CHR 0x7B] # py_chars (dropWhile is_cont (mid @ [CHR 0x7D]))" by simp
  have "py_chars (([CHR 0x7B] @ mid) @ [CHR 0x7D]) = py_chars ([CHR 0x7B] @ mid) @ py_chars [CHR 0x7D]"
    by (rule py_chars_append) (simp add: nc)
  then have "last (py_chars ?s) = [CHR 0x7D]" by simp
  moreover have "\<not> is_space [CHR 0x7B]" "\<not> is_space [CHR 0x7D]" by (simp_all add: is_space_def space_points_def)
  ultimately show ?thesis unfolding m(1) using strip_plain [OF first] by simp
qed

lemma extract_dumped:
  assumes "printable opts (PDict d)"
  shows "\<exists>d'. canon opts (PDict d) = PDict d' \<and> extract_json (json_dumps opts (PDict d)) = Inr d'"
proof -
  obtain mid where m: "json_dumps opts (PDict d) = CHR 0x7B # mid @ [CHR 0x7D]"
    using dumps_dict_shape by blast
  have "unfence (strip (json_dumps opts (PDict d))) = json_dumps opts (PDict d)"
  proof -
    have "\<not> starts_with fence (CHR 0x7B # t)" for t by (simp add: fence_def starts_with_def numeral_3_eq_3)
    then have "\<not> starts_with fence (json_dumps opts (PDict d))" unfolding m .
    then show ?thesis unfolding strip_dumps_dict unfence_def by (simp only: if_False)
  qed
  moreover obtain d' where "canon opts (PDict d) = PDict d'" by (cases "sort_keys opts") (simp_all add: canon_def)
  ultimately show ?thesis using json_roundtrip [OF assms] by (simp add: extract_json_def del: json_dumps.simps)
qed

text \<open>
  An answer that is the JSON text of an object is understood: the extraction returns the
  object, under every option the text may have been printed with.
\<close>

theorem json_answer_understood:
  assumes "printable opts (PDict d)"
  shows "\<exists>d'. canon opts (PDict d) = PDict d' \<and> extract_json (json_dumps opts (PDict d)) = Inr d'"
  using assms by (rule extract_dumped)

theorem json_answer_understood_witness:
  "extract_json (json_dumps opts_default (PDict [(''verdict'', PStr ''approved'')])) = Inr [(''verdict'', PStr ''approved'')]"
proof -
  have "printable opts_default (PDict [(''verdict'', PStr ''approved'')])"
    by (simp add: opts_default_def str_ok_def dict_wf_def valid_str_ascii no_surrogate_ascii)
  from json_answer_understood [OF this] show ?thesis by (simp add: canon_def opts_default_def del: json_dumps.simps)
qed

end
