(* ===== verification/SkillRunner.thy ===== *)
theory SkillRunner
  imports Skills Artifacts Executor
begin

text \<open>
  The skill runner (\<open>skills/runner.py\<close>): a role skill runs under the same gates as a tool. The run must
  be registered, the policy must allow the call, the capability must cover it, the skill must be
  known, no input may be sensitive and no input may be missing; only then is the model asked. Its
  answer is recorded as evidence, read as data, assembled into an artifact and validated.

  The language model is the argument \<open>kr_llm\<close>, which may answer differently each time: it is given
  everything that left the process before. Asking it is recorded as a call.
\<close>

section \<open>The runner\<close>

definition REASON_COMPLETED :: string where "REASON_COMPLETED = ''COMPLETED''"
definition REASON_UNKNOWN_SKILL :: string where "REASON_UNKNOWN_SKILL = ''UNKNOWN_SKILL''"
definition REASON_MISSING_CONTEXT :: string where "REASON_MISSING_CONTEXT = ''MISSING_CONTEXT''"
definition REASON_INVALID_LLM_OUTPUT :: string where "REASON_INVALID_LLM_OUTPUT = ''INVALID_LLM_OUTPUT''"
definition REASON_SCHEMA_INVALID :: string where "REASON_SCHEMA_INVALID = ''SCHEMA_INVALID''"

record skill_run_result =
  sr_allowed :: bool
  sr_reason :: string
  sr_decision :: pydict
  sr_evidence :: pydict
  sr_artifact :: "pydict option"

record skill_runner =
  kr_policy :: evaluator
  kr_capabilities :: run_registry
  kr_skills :: skill_registry
  kr_llm :: "ext_call list \<Rightarrow> llm_request \<Rightarrow> llm_response result"
  kr_store :: path
  kr_repo_root :: "path option"
  kr_env :: schema_env
  kr_zlib_size :: "string \<Rightarrow> nat"

text \<open>The arguments of one run.\<close>

record skill_call =
  sc_run_id :: string
  sc_token :: string
  sc_skill_name :: string
  sc_inputs :: "context_input list"
  sc_bindings :: pydict
  sc_artifact_id :: string
  sc_created_at :: string
  sc_decision_id :: string
  sc_evidence_id :: string
  sc_scope :: string

definition skill_record :: "skill_runner \<Rightarrow> skill_call \<Rightarrow> string \<Rightarrow> string \<Rightarrow> pydict \<Rightarrow> pydict \<Rightarrow> pydict io" where
  "skill_record kr call text action actor decision =
     bindW (liftW (dindex decision ''id'')) (\<lambda>decision_ref.
     bindW (process_tool_output (kr_zlib_size kr) (kr_store kr) text action actor (sc_run_id call)
              (sc_evidence_id call) (sc_created_at call) UNTRUSTED ''none'' DEFAULT_MAX_BYTES None
              (Some (py_str decision_ref)) []) (\<lambda>outcome.
       returnW (to_record outcome)))"

definition skill_deny :: "skill_runner \<Rightarrow> skill_call \<Rightarrow> string \<Rightarrow> pydict \<Rightarrow> pydict \<Rightarrow> skill_run_result io" where
  "skill_deny kr call why actor decision =
     bindW (skill_record kr call why ''skill.denied'' actor decision) (\<lambda>evidence.
       returnW \<lparr>sr_allowed = False, sr_reason = why, sr_decision = decision, sr_evidence = evidence, sr_artifact = None\<rparr>)"

definition ask_model :: "skill_runner \<Rightarrow> llm_request \<Rightarrow> llm_response io" where
  "ask_model kr request = (\<lambda>w.
     (kr_llm kr (w_calls w) request,
      w\<lparr>w_calls := w_calls w @ [AskModel (lr_role request) (lr_system_prompt request) (lr_context request)]\<rparr>))"

definition skill_envelope :: "skill_call \<Rightarrow> pydict \<Rightarrow> envelope" where
  "skill_envelope call actor =
     \<lparr>en_artifact_id = sc_artifact_id call, en_created_at = sc_created_at call, en_actor = actor,
      en_run_id = sc_run_id call, en_bindings = sc_bindings call\<rparr>"

text \<open>What becomes of an answer: a reason and, if it is accepted, the artifact.\<close>

definition judge_answer ::
    "skill_runner \<Rightarrow> skill_call \<Rightarrow> skill \<Rightarrow> pydict \<Rightarrow> string \<Rightarrow> fs \<Rightarrow> (string \<times> pydict option) result" where
  "judge_answer kr call skill actor text fs =
     (case extract_json text of
        Inl e \<Rightarrow> (case e of SkillError _ \<Rightarrow> Inr (REASON_INVALID_LLM_OUTPUT, None) | _ \<Rightarrow> Inl e)
      | Inr content \<Rightarrow>
          bindR (sk_assemble skill content (skill_envelope call actor)) (\<lambda>artifact.
          bindR (case kr_repo_root kr of Some r \<Rightarrow> Inr r | None \<Rightarrow> find_repo_root fs (se_module_file (kr_env kr))) (\<lambda>root.
          bindR (validate_document (kr_env kr) fs artifact (sk_output_schema skill) (Some root)) (\<lambda>errors.
            Inr (if errors \<noteq> [] then (REASON_SCHEMA_INVALID, None) else (REASON_COMPLETED, Some artifact))))))"

definition complete_skill ::
    "skill_runner \<Rightarrow> skill_call \<Rightarrow> skill \<Rightarrow> pydict \<Rightarrow> pydict \<Rightarrow> pydict \<Rightarrow> skill_run_result io" where
  "complete_skill kr call skill actor decision context' =
     bindW (ask_model kr \<lparr>lr_role = sk_role skill, lr_system_prompt = sk_system_prompt skill, lr_context = context'\<rparr>)
       (\<lambda>response.
     bindW (skill_record kr call (ls_text response) (sk_tool_name skill @ ''.output'') actor decision) (\<lambda>evidence.
     bindW (readW (judge_answer kr call skill actor (ls_text response))) (\<lambda>verdict.
       returnW \<lparr>sr_allowed = (snd verdict \<noteq> None), sr_reason = fst verdict, sr_decision = decision,
                sr_evidence = evidence, sr_artifact = snd verdict\<rparr>)))"

definition skill_payload :: "skill_call \<Rightarrow> pydict \<Rightarrow> pydict" where
  "skill_payload call actor =
     [(''tool'', PStr (''skill.'' @ sc_skill_name call)), (''path'', PStr []), (''scope'', PStr (sc_scope call)),
      (''actor'', PDict actor)]"

definition skill_decision :: "skill_call \<Rightarrow> pydict \<Rightarrow> policy_result \<Rightarrow> pydict" where
  "skill_decision call actor pr =
     build_policy_decision pr (sc_decision_id call) (sc_created_at call) actor (sc_run_id call) POLICY_POINT []"

definition skill_run :: "skill_runner \<Rightarrow> int \<Rightarrow> skill_call \<Rightarrow> skill_run_result io" where
  "skill_run kr clock call =
     (case reg_get (kr_capabilities kr) (sc_run_id call) of
        None \<Rightarrow> raiseW (RunUnknownError (sc_run_id call))
      | Some run \<Rightarrow>
          let actor = r_actor run; tool = ''skill.'' @ sc_skill_name call
          in bindW (liftW (kr_policy kr POLICY_POINT (skill_payload call actor))) (\<lambda>policy_result.
             let decision = skill_decision call actor policy_result
             in if \<not> pr_allow policy_result then
                  bindW (liftW (case pr_reason_codes policy_result of [] \<Rightarrow> Inl IndexError | c # _ \<Rightarrow> Inr c))
                    (\<lambda>code. skill_deny kr call code actor decision)
                else
                  bindW (liftW (reg_check (kr_capabilities kr) (sc_token call) tool (sc_scope call) None clock)) (\<lambda>check.
                     if \<not> chk_valid check then skill_deny kr call (chk_reason check) actor decision
                     else
                       (case skill_get (kr_skills kr) (sc_skill_name call) of
                          Inl e \<Rightarrow> skill_deny kr call REASON_UNKNOWN_SKILL actor decision
                        | Inr skill \<Rightarrow>
                            bindW (liftW (build_context (sc_inputs call))) (\<lambda>context'.
                              if list_ex (\<lambda>key. dget context' key = None) (sk_context_keys skill)
                              then skill_deny kr call REASON_MISSING_CONTEXT actor decision
                              else complete_skill kr call skill actor decision context')))))"

section \<open>The gates\<close>

definition skill_gates ::
    "skill_runner \<Rightarrow> int \<Rightarrow> skill_call \<Rightarrow> run \<Rightarrow> policy_result \<Rightarrow> skill \<Rightarrow> pydict \<Rightarrow> bool" where
  "skill_gates kr clock call run pr skill ctx \<longleftrightarrow>
     reg_get (kr_capabilities kr) (sc_run_id call) = Some run
   \<and> kr_policy kr POLICY_POINT (skill_payload call (r_actor run)) = Inr pr \<and> pr_allow pr
   \<and> (\<exists>check. reg_check (kr_capabilities kr) (sc_token call) (''skill.'' @ sc_skill_name call) (sc_scope call) None clock
          = Inr check \<and> chk_valid check)
   \<and> skill_get (kr_skills kr) (sc_skill_name call) = Inr skill
   \<and> build_context (sc_inputs call) = Inr ctx
   \<and> list_all (\<lambda>key. dget ctx key \<noteq> None) (sk_context_keys skill)"

lemma skill_run_cases:
  obtains (raised) e where "skill_run kr clock call w = (Inl e, w)"
  | (refused) why and run :: run and pr where "skill_run kr clock call w = skill_deny kr call why (r_actor run) (skill_decision call (r_actor run) pr) w"
  | (ran) run pr skill ctx where "skill_gates kr clock call run pr skill ctx"
      "skill_run kr clock call w = complete_skill kr call skill (r_actor run) (skill_decision call (r_actor run) pr) ctx w"
proof (cases "reg_get (kr_capabilities kr) (sc_run_id call)")
  case None
  then show ?thesis using raised by (simp add: skill_run_def raiseW_def)
next
  case run: (Some run)
  show ?thesis
  proof (cases "kr_policy kr POLICY_POINT (skill_payload call (r_actor run))")
    case (Inl e)
    then show ?thesis using raised run by (simp add: skill_run_def Let_def bindW_liftW raiseW_def)
  next
    case pr: (Inr pr)
    have "(\<exists>e. skill_run kr clock call w = (Inl e, w))
        \<or> (\<exists>why. skill_run kr clock call w = skill_deny kr call why (r_actor run) (skill_decision call (r_actor run) pr) w)
        \<or> (\<exists>skill ctx. skill_gates kr clock call run pr skill ctx
             \<and> skill_run kr clock call w = complete_skill kr call skill (r_actor run) (skill_decision call (r_actor run) pr) ctx w)"
      using run pr
      by (auto simp: skill_run_def Let_def bindW_liftW raiseW_def skill_gates_def list_ex_iff list_all_iff
          split: list.splits sum.splits if_splits)
    then show ?thesis using raised refused ran by blast
  qed
qed

lemma skill_record_world: "skill_record kr call text action actor decision w = (r, w') \<Longrightarrow> evidence_only (kr_store kr) w w'"
  unfolding skill_record_def bindW_liftW
  by (auto simp: bindW_def raiseW_def returnW_def evidence_only_def
      split: sum.splits prod.splits dest!: process_tool_output_world [unfolded evidence_only_def])

lemma skill_deny_world: "skill_deny kr call why actor decision w = (r, w') \<Longrightarrow> evidence_only (kr_store kr) w w'"
  by (auto simp: skill_deny_def bindW_def returnW_def split: prod.splits sum.splits dest: skill_record_world)

lemma skill_deny_Inr: "skill_deny kr call why actor decision w = (Inr res, w') \<Longrightarrow> \<not> sr_allowed res \<and> sr_artifact res = None"
  by (auto simp: skill_deny_def bindW_Inr returnW_def)

lemma skill_record_Inr:
  assumes "skill_record kr call text action actor (skill_decision call actor pr) w = (Inr evd, w')"
  shows "dget evd ''artifact_digest'' = Some (PStr (sha256_hex text))
    \<and> store_get (kr_store kr) (sha256_hex text) (w_fs w') = Inr text
    \<and> dget evd ''policy_decision_ref'' = Some (PStr (sc_decision_id call))"
proof -
  have "dindex (skill_decision call actor pr) ''id'' = Inr (PStr (sc_decision_id call))"
    by (simp add: skill_decision_def dindex_def build_policy_decision_def Let_def)
  with assms obtain out where p: "process_tool_output (kr_zlib_size kr) (kr_store kr) text action actor (sc_run_id call)
      (sc_evidence_id call) (sc_created_at call) UNTRUSTED ''none'' DEFAULT_MAX_BYTES None
      (Some (sc_decision_id call)) [] w = (Inr out, w')" and evd: "evd = to_record out"
    unfolding skill_record_def bindW_liftW by (auto simp: bindW_Inr returnW_def)
  from p show ?thesis
    by (rule process_tool_output_Inr) (simp add: evd record_fields file_store.put_get)
qed

lemma complete_skill_calls:
  assumes "complete_skill kr call skill actor decision ctx w = (r, w')"
  shows "w_calls w' = w_calls w @ [AskModel (sk_role skill) (sk_system_prompt skill) ctx]"
  using assms evidence_only_calls [OF skill_record_world]
  by (fastforce simp: complete_skill_def ask_model_def bindW_def readW_def returnW_def split: prod.splits sum.splits)

section \<open>Properties\<close>

text \<open>
  C12: the model is asked at most once per run of a skill, and only after every gate has passed:
  the run is registered, the policy allowed the call, the capability covers the skill and the
  scope, the skill is known, none of the inputs is from a sensitive source, and none that the
  skill needs is missing. What the model is given is the skill's own role and prompt with the
  context made of these inputs.
\<close>

theorem model_asked_only_through_gates:
  assumes "skill_run kr clock call w = (r, w')" "w_calls w' \<noteq> w_calls w"
  shows "\<exists>run pr skill ctx. skill_gates kr clock call run pr skill ctx
     \<and> list_all (\<lambda>i. classify_source (ci_source i) \<noteq> SENSITIVE) (sc_inputs call)
     \<and> w_calls w' = w_calls w @ [AskModel (sk_role skill) (sk_system_prompt skill) ctx]"
proof (cases rule: skill_run_cases [of kr clock call w])
  case (raised e)
  then show ?thesis using assms by simp
next
  case (refused why run pr)
  then show ?thesis using assms evidence_only_calls [OF skill_deny_world] by metis
next
  case (ran run pr skill ctx)
  have "\<forall>i \<in> set (sc_inputs call). classify_source (ci_source i) \<noteq> SENSITIVE"
    using ran(1) context_onto_Inr [of "sc_inputs call" "[]"] by (auto simp: skill_gates_def build_context_def)
  then have "list_all (\<lambda>i. classify_source (ci_source i) \<noteq> SENSITIVE) (sc_inputs call)" by (simp add: list_all_iff)
  moreover have "w_calls w' = w_calls w @ [AskModel (sk_role skill) (sk_system_prompt skill) ctx]"
    using complete_skill_calls [OF ran(2) [symmetric, unfolded assms(1)]] .
  ultimately show ?thesis using ran(1) by blast
qed

lemma skill_produced:
  assumes "skill_run kr clock call w = (Inr res, w')" "sr_allowed res"
  shows "\<exists>run pr skill ctx text model content artifact root.
     skill_gates kr clock call run pr skill ctx
   \<and> kr_llm kr (w_calls w) \<lparr>lr_role = sk_role skill, lr_system_prompt = sk_system_prompt skill, lr_context = ctx\<rparr>
       = Inr \<lparr>ls_text = text, ls_model = model\<rparr>
   \<and> dget (sr_evidence res) ''artifact_digest'' = Some (PStr (sha256_hex text))
   \<and> store_get (kr_store kr) (sha256_hex text) (w_fs w') = Inr text
   \<and> extract_json text = Inr content
   \<and> sk_assemble skill content (skill_envelope call (r_actor run)) = Inr artifact
   \<and> validate_document (kr_env kr) (w_fs w') artifact (sk_output_schema skill) (Some root) = Inr []
   \<and> sr_artifact res = Some artifact \<and> sr_reason res = REASON_COMPLETED"
proof (cases rule: skill_run_cases [of kr clock call w])
  case (raised e)
  then show ?thesis using assms by simp
next
  case (refused why run pr)
  then show ?thesis using assms skill_deny_Inr by metis
next
  case (ran run pr skill ctx)
  let ?rq = "\<lparr>lr_role = sk_role skill, lr_system_prompt = sk_system_prompt skill, lr_context = ctx\<rparr>"
  from assms(1) ran(2) obtain response w1 evd v where
      a: "ask_model kr ?rq w = (Inr response, w1)"
      and e: "skill_record kr call (ls_text response) (sk_tool_name skill @ ''.output'') (r_actor run)
        (skill_decision call (r_actor run) pr) w1 = (Inr evd, w')"
      and v: "judge_answer kr call skill (r_actor run) (ls_text response) (w_fs w') = Inr v"
      and res: "res = \<lparr>sr_allowed = (snd v \<noteq> None), sr_reason = fst v, sr_decision = skill_decision call (r_actor run) pr,
         sr_evidence = evd, sr_artifact = snd v\<rparr>"
    unfolding complete_skill_def by (auto simp: bindW_Inr readW_def returnW_def)
  from res assms(2) have "snd v \<noteq> None" by simp
  with v obtain content artifact root where "extract_json (ls_text response) = Inr content"
      "sk_assemble skill content (skill_envelope call (r_actor run)) = Inr artifact"
      "validate_document (kr_env kr) (w_fs w') artifact (sk_output_schema skill) (Some root) = Inr []"
      "v = (REASON_COMPLETED, Some artifact)"
    unfolding judge_answer_def
    by (auto simp: bindR_eq_Inr split: sum.splits py_error.splits option.splits if_splits)
  moreover have "kr_llm kr (w_calls w) ?rq = Inr \<lparr>ls_text = ls_text response, ls_model = ls_model response\<rparr>"
    using a by (auto simp: ask_model_def)
  moreover have "sr_evidence res = evd" "sr_artifact res = snd v" "sr_reason res = fst v" using res by simp_all
  ultimately show ?thesis using ran(1) skill_record_Inr [OF e] by (metis fst_conv snd_conv)
qed

text \<open>
  An artifact comes out of a skill only through its gates and its contract: the model was
  asked, its answer is stored as evidence byte for byte under the digest in the evidence record,
  the artifact was assembled from a JSON object in that answer and the platform's envelope, and
  the skill's schema accepts it.
\<close>

theorem skill_artifact_provenance:
  assumes "skill_run kr clock call w = (Inr res, w')" "sr_allowed res"
  shows "\<exists>run pr skill ctx text model content artifact root.
     skill_gates kr clock call run pr skill ctx
   \<and> kr_llm kr (w_calls w) \<lparr>lr_role = sk_role skill, lr_system_prompt = sk_system_prompt skill, lr_context = ctx\<rparr>
       = Inr \<lparr>ls_text = text, ls_model = model\<rparr>
   \<and> dget (sr_evidence res) ''artifact_digest'' = Some (PStr (sha256_hex text))
   \<and> store_get (kr_store kr) (sha256_hex text) (w_fs w') = Inr text
   \<and> extract_json text = Inr content
   \<and> sk_assemble skill content (skill_envelope call (r_actor run)) = Inr artifact
   \<and> validate_document (kr_env kr) (w_fs w') artifact (sk_output_schema skill) (Some root) = Inr []
   \<and> sr_artifact res = Some artifact \<and> sr_reason res = REASON_COMPLETED"
  using assms by (rule skill_produced)

section \<open>A concrete run\<close>

text \<open>The runs of the executor's example, a model that answers with an empty object, the reviewer
  skill, and a schema for reviews.\<close>

definition review_fs :: fs where
  "review_fs = [[''r''] \<mapsto> Dir, [''r'', ''contracts''] \<mapsto> Dir, [''r'', ''contracts'', ''schemas''] \<mapsto> Dir,
     [''r'', ''contracts'', ''schemas'', ''review.schema.json''] \<mapsto> File ''{}'']"

definition review_runner :: skill_runner where
  "review_runner = \<lparr>kr_policy = (\<lambda>_ _. Inr demo_result), kr_capabilities = demo_runs, kr_skills = [(''reviewer'', REVIEWER)],
     kr_llm = (\<lambda>before request. stub_complete \<lparr>sl_responses = [(''reviewer'', ''{}'')], sl_model = DEFAULT_MODEL\<rparr> request),
     kr_store = [''ev''], kr_repo_root = Some [''r''],
     kr_env = \<lparr>se_module_file = [''r''], se_listdir = (\<lambda>fs p. []), se_ref_errors = (\<lambda>schema resources v. Inr [])\<rparr>,
     kr_zlib_size = length\<rparr>"

definition review_call :: "string \<Rightarrow> skill_call" where
  "review_call token = \<lparr>sc_run_id = ''RUN-1'', sc_token = token, sc_skill_name = ''reviewer'',
     sc_inputs = [\<lparr>ci_name = ''task'', ci_document = [], ci_source = ''approved_artifact''\<rparr>],
     sc_bindings = [(''task_id'', PStr ''TASK-1''), (''subject_digest'', PStr ''d'')], sc_artifact_id = ''REV-1'',
     sc_created_at = ''T'', sc_decision_id = ''D'', sc_evidence_id = ''E'', sc_scope = ''skills''\<rparr>"

lemma skill_token:
  "\<exists>t res. reg_check demo_runs t ''skill.reviewer'' ''skills'' None 20 = Inr res \<and> chk_valid res"
proof -
  let ?c = "\<lparr>cap_run_id = ''RUN-1'', cap_tool = ''skill.reviewer'', cap_scope = ''skills'', cap_expires_at = 310\<rparr>"
  have ok: "cap_ok ?c"
    by (simp add: cap_ok_def token_text_def valid_str_ascii no_surrogate_ascii int_ok_def max_int_digits_def dec_nat.simps)
  obtain t where "issue_token ''k'' ?c = Inr t" using issue_token_total [OF ok] by blast
  then have "decode_token ''k'' t = Inr (Decoded ?c)" by (rule decode_issued [OF ok])
  then have "reg_check demo_runs t ''skill.reviewer'' ''skills'' None 20 = Inr (check_claims demo_runs ?c ''skill.reviewer'' ''skills'' 20)"
    by (simp add: reg_check_def demo_runs_eq)
  then show ?thesis by (intro exI conjI) (assumption, simp_all add: check_claims_def reg_get_def demo_runs_eq)
qed

lemma review_context:
  "build_context (sc_inputs (review_call t)) = Inr [(''task'', PDict [])]"
  by (simp add: build_context_def review_call_def classify_source_def trusted_sources_def)

lemma review_runs:
  assumes "reg_check demo_runs t ''skill.reviewer'' ''skills'' None 20 = Inr res" "chk_valid res"
  shows "skill_run review_runner 20 (review_call t) w
    = complete_skill review_runner (review_call t) REVIEWER [] (skill_decision (review_call t) [] demo_result) [(''task'', PDict [])] w"
  using assms
  by (simp add: skill_run_def review_runner_def review_call_def reg_get_def demo_runs_eq demo_result_def Let_def bindW_liftW
      skill_get_def review_context [unfolded review_call_def, simplified] REVIEWER_def)

lemma review_store:
  fixes cs
  obtains w' where "store_put [''ev''] ''{}'' \<lparr>w_fs = review_fs, w_calls = cs\<rparr> = (Inr (sha256_hex ''{}''), w')"
    "read_bytes (w_fs w') [''r'', ''contracts'', ''schemas'', ''review.schema.json''] = Inr ''{}''"
proof -
  let ?dg = "sha256_hex ''{}''" and ?w = "\<lparr>w_fs = review_fs, w_calls = cs\<rparr>"
  have dg: "?dg \<noteq> dotdot" "\<not> List.member ?dg CHR 0x00" using hex_no_special [OF sha256_hex_hex [of "''{}''"]] by auto
  have none: "review_fs (''ev'' # p) = None" for p by (simp add: review_fs_def)
  have lf: "link_free review_fs [''ev'', ?dg]" "link_free review_fs [''ev'']"
    using dg none by (auto simp: link_free_def prefix_Cons review_fs_def)
  have u: "usable_dir review_fs [''ev'']"
    using lf none by (auto simp: usable_dir_def prefix_Cons)
  obtain w' where w': "store_put [''ev''] ''{}'' ?w = (Inr ?dg, w')"
    using store_put_total [of ?w "[''ev'']" "''{}''"] u lf none by auto
  then obtain fs1 fs2 where m: "mkdirs review_fs [''ev''] = Inr fs1"
      and wr: "write_bytes fs1 (path_join [''ev''] ?dg) ''{}'' = Inr fs2" and fs2: "w' = ?w\<lparr>w_fs := fs2\<rparr>"
    by (auto simp: store_put_Inr)
  from m mkdirs_total [OF u] have fs1: "fs1 = with_dirs review_fs [''ev'']" by simp
  have rd: "os_path fs1 [''r'', ''contracts'', ''schemas'', ''review.schema.json'']
      = Inr [''r'', ''contracts'', ''schemas'', ''review.schema.json'']"
    "node_at fs1 [''r'', ''contracts'', ''schemas'', ''review.schema.json''] = Some (File ''{}'')"
    by (simp_all add: fs1 os_path_def with_dirs_def review_fs_def prefix_Cons node_at_def)
  have "os_path fs1 [''ev'', ?dg] = Inr [''ev'', ?dg]"
    using os_path_straight link_free_with_dirs [OF lf(1), of "[''ev'']"] mkdirs_link_free [OF lf(2) m, of ?dg]
    by (simp add: fs1)
  then have "read_bytes fs2 [''r'', ''contracts'', ''schemas'', ''review.schema.json''] = Inr ''{}''"
    using rd by (intro read_other [OF wr]) (simp_all add: read_bytes_def path_join_digest)
  with that w' fs2 show ?thesis by simp
qed

lemma review_judged:
  assumes "read_bytes fs [''r'', ''contracts'', ''schemas'', ''review.schema.json''] = Inr ''{}''"
  shows "\<exists>artifact. judge_answer review_runner (review_call t) REVIEWER [] ''{}'' fs = Inr (REASON_COMPLETED, Some artifact)"
proof -
  have e: "''{}'' = json_dumps opts_default (PDict [])" by (simp add: dump_members_def)
  have "printable opts_default (PDict [])" by (simp add: dict_wf_def)
  from extract_dumped [OF this] have x: "extract_json ''{}'' = Inr []"
    unfolding e [symmetric] by (simp add: canon_def opts_default_def)
  have j: "json_loads ''{}'' = Inr (PDict [])"
    using json_roundtrip [of opts_default "PDict []"] unfolding e [symmetric] by (simp add: canon_def opts_default_def dict_wf_def)
  have p: "path_join [''r'', ''contracts'', ''schemas''] ''review.schema.json'' = [''r'', ''contracts'', ''schemas'', ''review.schema.json'']"
    by (simp add: path_join_def is_absolute_def starts_with_def path_parts_def)
  have "read_json fs [''r'', ''contracts'', ''schemas'', ''review.schema.json''] = Inr (PDict [])"
    using assms j by (simp add: read_json_def valid_str_ascii no_surrogate_ascii)
  then have "validate_document (kr_env review_runner) fs artifact ''review.schema.json'' (Some [''r'']) = Inr []" for artifact
    by (simp add: validate_document_def load_schema_def schema_dir_def SCHEMA_DIR_REL_def p build_registry_def review_runner_def)
  then show ?thesis
    by (simp add: judge_answer_def x REVIEWER_def assemble_review_def review_call_def skill_envelope_def dindex_def)
      (simp add: review_runner_def)
qed

lemma empty_object_ascii: "is_ascii ''{}''"
  by simp

lemma review_completes:
  assumes "reg_check demo_runs t ''skill.reviewer'' ''skills'' None 20 = Inr chk" "chk_valid chk"
  shows "\<exists>res w'. skill_run review_runner 20 (review_call t) \<lparr>w_fs = review_fs, w_calls = []\<rparr> = (Inr res, w') \<and> sr_allowed res
    \<and> w_calls w' = [AskModel ''reviewer'' REVIEWER_PROMPT [(''task'', PDict [])]]"
proof -
  let ?ask = "AskModel ''reviewer'' REVIEWER_PROMPT [(''task'', PDict [])]"
  let ?w1 = "\<lparr>w_fs = review_fs, w_calls = [?ask]\<rparr>"
  obtain w' where p: "store_put [''ev''] ''{}'' ?w1 = (Inr (sha256_hex ''{}''), w')"
      "read_bytes (w_fs w') [''r'', ''contracts'', ''schemas'', ''review.schema.json''] = Inr ''{}''"
    using review_store .
  have asks: "ask_model review_runner \<lparr>lr_role = sk_role REVIEWER, lr_system_prompt = sk_system_prompt REVIEWER,
      lr_context = [(''task'', PDict [])]\<rparr> \<lparr>w_fs = review_fs, w_calls = []\<rparr>
      = (Inr \<lparr>ls_text = ''{}'', ls_model = DEFAULT_MODEL\<rparr>, ?w1)"
    by (simp add: ask_model_def review_runner_def stub_complete_def REVIEWER_def)
  let ?a = "sk_tool_name REVIEWER @ ''.output''"
  obtain out where o: "process_tool_output length [''ev''] ''{}'' ?a [] ''RUN-1'' ''E'' ''T'' UNTRUSTED ''none'' DEFAULT_MAX_BYTES None
      (Some ''D'') [] ?w1 = (Inr out, w')"
    using process_tool_output_total [OF _ _ p(1)] by (metis trust_tier.distinct(5) no_surrogate_ascii empty_object_ascii)
  have d: "dindex (skill_decision (review_call t) [] demo_result) ''id'' = Inr (PStr ''D'')"
    by (simp add: skill_decision_def build_policy_decision_def Let_def dindex_def review_call_def)
  have f: "kr_zlib_size review_runner = length" "kr_store review_runner = [''ev'']" "sc_run_id (review_call t) = ''RUN-1''"
    "sc_evidence_id (review_call t) = ''E''" "sc_created_at (review_call t) = ''T''"
    by (simp_all add: review_runner_def review_call_def)
  have r: "skill_record review_runner (review_call t) ''{}'' ?a [] (skill_decision (review_call t) [] demo_result) ?w1
      = (Inr (to_record out), w')"
    by (simp add: skill_record_def d f liftW_def bindW_def returnW_def o)
  obtain artifact where j: "judge_answer review_runner (review_call t) REVIEWER [] ''{}'' (w_fs w') = Inr (REASON_COMPLETED, Some artifact)"
    using review_judged [OF p(2)] by blast
  have "w_calls w' = [?ask]" using file_store.put_calls [OF p(1)] by simp
  then show ?thesis
    unfolding review_runs [OF assms] complete_skill_def
    using asks r j by (simp add: bindW_def readW_def returnW_def)
qed

theorem model_asked_only_through_gates_witness:
  "\<exists>t run pr skill ctx. skill_gates review_runner 20 (review_call t) run pr skill ctx"
proof -
  obtain t chk where t: "reg_check demo_runs t ''skill.reviewer'' ''skills'' None 20 = Inr chk" "chk_valid chk"
    using skill_token by blast
  obtain res w' where r: "skill_run review_runner 20 (review_call t) \<lparr>w_fs = review_fs, w_calls = []\<rparr> = (Inr res, w')"
      "w_calls w' = [AskModel ''reviewer'' REVIEWER_PROMPT [(''task'', PDict [])]]"
    using review_completes [OF t] by blast
  from model_asked_only_through_gates [OF r(1)] r(2) show ?thesis by force
qed

theorem skill_artifact_provenance_witness:
  "\<exists>t res w' artifact. skill_run review_runner 20 (review_call t) \<lparr>w_fs = review_fs, w_calls = []\<rparr> = (Inr res, w')
     \<and> sr_artifact res = Some artifact \<and> sr_reason res = REASON_COMPLETED"
proof -
  obtain t chk where t: "reg_check demo_runs t ''skill.reviewer'' ''skills'' None 20 = Inr chk" "chk_valid chk"
    using skill_token by blast
  obtain res w' where r: "skill_run review_runner 20 (review_call t) \<lparr>w_fs = review_fs, w_calls = []\<rparr> = (Inr res, w')" "sr_allowed res"
    using review_completes [OF t] by blast
  from skill_artifact_provenance [OF r] r(1) show ?thesis by blast
qed

end
