(* ===== verification/Mcp.thy ===== *)
theory Mcp
  imports Executor
begin

text \<open>
  The MCP bridge (\<open>mcp/protocol.py\<close>, \<open>mcp/server.py\<close>, \<open>mcp/bootstrap.py\<close>) and the loop that
  serves it over standard input and output (\<open>serve_stdio\<close> in \<open>cli.py\<close>): the one door through which an
  external agent reaches the executor. Requests are JSON-RPC messages; a request to call a tool is
  executed only with the three capability fields, which the bridge injects for callers that do
  not carry them.

  The server's counters are passed along explicitly. Each request comes with the readings of the
  clock that the code takes while it is served.
\<close>

section \<open>The protocol\<close>

definition JSONRPC_VERSION :: string where "JSONRPC_VERSION = ''2.0''"
definition PARSE_ERROR :: int where "PARSE_ERROR = -32700"
definition INVALID_REQUEST :: int where "INVALID_REQUEST = -32600"
definition METHOD_NOT_FOUND :: int where "METHOD_NOT_FOUND = -32601"
definition INVALID_PARAMS :: int where "INVALID_PARAMS = -32602"
definition INTERNAL_ERROR :: int where "INTERNAL_ERROR = -32603"

definition rpc_request :: "pyval \<Rightarrow> string \<Rightarrow> pydict option \<Rightarrow> pydict" where
  "rpc_request request_id method params =
     (let message = [(''jsonrpc'', PStr JSONRPC_VERSION), (''id'', request_id), (''method'', PStr method)]
      in case params of None \<Rightarrow> message | Some p \<Rightarrow> dset ''params'' (PDict p) message)"

definition rpc_result :: "pyval \<Rightarrow> pydict \<Rightarrow> pydict" where
  "rpc_result request_id payload =
     [(''jsonrpc'', PStr JSONRPC_VERSION), (''id'', request_id), (''result'', PDict payload)]"

definition rpc_error :: "pyval \<Rightarrow> int \<Rightarrow> string \<Rightarrow> pydict" where
  "rpc_error request_id code message =
     [(''jsonrpc'', PStr JSONRPC_VERSION), (''id'', request_id),
      (''error'', PDict [(''code'', PInt code), (''message'', PStr message)])]"

definition parse_line :: "string \<Rightarrow> pydict option result" where
  "parse_line line =
     (case json_loads line of
        Inl e \<Rightarrow> (if e = JSONDecodeError then Inr None else Inl e)
      | Inr message \<Rightarrow> Inr (case message of PDict d \<Rightarrow> Some d | _ \<Rightarrow> None))"

section \<open>The server\<close>

definition PROTOCOL_VERSION :: string where "PROTOCOL_VERSION = ''2024-11-05''"
definition SERVER_NAME :: string where "SERVER_NAME = ''secure-agentic-sdlc''"
definition SERVER_VERSION :: string where "SERVER_VERSION = ''0.1.0''"

definition AUTH_FIELDS :: "string list" where
  "AUTH_FIELDS = [''run_id'', ''token'', ''scope'']"

record mcp_server =
  ms_executor :: executor
  ms_tools :: tool_registry
  ms_decision_seq :: nat
  ms_evidence_seq :: nat

definition new_mcp_server :: "executor \<Rightarrow> tool_registry \<Rightarrow> mcp_server" where
  "new_mcp_server ex tools = \<lparr>ms_executor = ex, ms_tools = tools, ms_decision_seq = 0, ms_evidence_seq = 0\<rparr>"

text \<open>The clock while one request is served: when a token is issued, when it is checked, and the
  formatted time of \<open>_now\<close>.\<close>

record tick =
  tk_issue :: int
  tk_check :: int
  tk_now :: string

definition mcp_initialize :: pydict where
  "mcp_initialize =
     [(''protocolVersion'', PStr PROTOCOL_VERSION),
      (''serverInfo'', PDict [(''name'', PStr SERVER_NAME), (''version'', PStr SERVER_VERSION)]),
      (''capabilities'', PDict [(''tools'', PDict [])])]"

definition mcp_list_tools :: "tool_registry \<Rightarrow> pydict result" where
  "mcp_list_tools tools =
     bindR (mapR (\<lambda>name. bindR (tool_get tools name) (\<lambda>spec.
              Inr (PDict [(''name'', PStr (ts_name spec)), (''description'', PStr (ts_description spec)),
                          (''inputSchema'', PDict (ts_args_schema spec))]))) (tool_names tools))
       (\<lambda>entries. Inr [(''tools'', PList entries)])"

definition next_decision_id :: "mcp_server \<Rightarrow> string" where
  "next_decision_id srv = ''PD-'' @ zero_pad 4 (ms_decision_seq srv + 1)"

definition next_evidence_id :: "mcp_server \<Rightarrow> string" where
  "next_evidence_id srv = ''EV-'' @ zero_pad 4 (ms_evidence_seq srv + 1)"

text \<open>The three capability fields, or the first one that is missing.\<close>

fun auth_fields :: "pydict \<Rightarrow> string list \<Rightarrow> string + string list" where
  "auth_fields params [] = Inr []"
| "auth_fields params (field # rest) =
     (case dget_or params field PNone of
        PStr value \<Rightarrow>
          (if value = [] then Inl (''missing capability field '' @ repr_str field)
           else map_sum id (\<lambda>vs. value # vs) (auth_fields params rest))
      | _ \<Rightarrow> Inl (''missing capability field '' @ repr_str field))"

text \<open>The checks of \<open>_call\<close>: the call that is executed, or the message of the refusal.\<close>

definition call_of :: "tick \<Rightarrow> mcp_server \<Rightarrow> pydict \<Rightarrow> string + tool_call" where
  "call_of tk srv params =
     (case dget_or params ''name'' PNone of
        PStr name \<Rightarrow>
          (if name = [] then Inl ''missing tool name''
           else
             (case dget_or params ''arguments'' (PDict []) of
                PDict arguments \<Rightarrow>
                  (case auth_fields params AUTH_FIELDS of
                     Inr [run_id, token, scope] \<Rightarrow>
                       Inr \<lparr>tc_run_id = run_id, tc_token = token, tc_tool = name, tc_args = arguments, tc_scope = scope,
                            tc_created_at = tk_now tk, tc_decision_id = next_decision_id srv,
                            tc_evidence_id = next_evidence_id srv, tc_resource = []\<rparr>
                   | Inr _ \<Rightarrow> Inl []
                   | Inl message \<Rightarrow> Inl message)
              | _ \<Rightarrow> Inl ''arguments must be an object''))
      | _ \<Rightarrow> Inl ''missing tool name'')"

definition call_response :: "pyval \<Rightarrow> execution_result \<Rightarrow> pydict result" where
  "call_response request_id res =
     (if \<not> xr_allowed res then
        Inr (rpc_result request_id
          [(''content'', PList [PDict [(''type'', PStr ''text''), (''text'', PStr (xr_reason res))]]),
           (''isError'', PBool True), (''structuredContent'', PDict [(''reason'', PStr (xr_reason res))])])
      else
        let payload = (case xr_output res of None \<Rightarrow> [] | Some d \<Rightarrow> d)
        in bindR (dumps opts_unicode (PDict payload)) (\<lambda>text.
             Inr (rpc_result request_id
               [(''content'', PList [PDict [(''type'', PStr ''text''), (''text'', PStr text)]]),
                (''isError'', PBool False), (''structuredContent'', PDict payload)])))"

definition advance :: "mcp_server \<Rightarrow> mcp_server" where
  "advance srv = srv\<lparr>ms_decision_seq := ms_decision_seq srv + 1, ms_evidence_seq := ms_evidence_seq srv + 1\<rparr>"

definition mcp_call ::
    "tick \<Rightarrow> pyval \<Rightarrow> pydict \<Rightarrow> mcp_server \<Rightarrow> world \<Rightarrow> pydict result \<times> mcp_server \<times> world" where
  "mcp_call tk request_id params srv w =
     (case call_of tk srv params of
        Inl message \<Rightarrow> (Inr (rpc_error request_id INVALID_PARAMS message), srv, w)
      | Inr call \<Rightarrow>
          (case execute (ms_executor srv) (tk_check tk) call w of
             (Inl e, w') \<Rightarrow> (Inl e, advance srv, w')
           | (Inr res, w') \<Rightarrow> (call_response request_id res, advance srv, w')))"

definition mcp_handle :: "tick \<Rightarrow> pydict \<Rightarrow> mcp_server \<Rightarrow> world \<Rightarrow> pydict result \<times> mcp_server \<times> world" where
  "mcp_handle tk message srv w =
     (let request_id = dget_or message ''id'' PNone
      in if dget_or message ''jsonrpc'' PNone \<noteq> PStr JSONRPC_VERSION
         then (Inr (rpc_error request_id INVALID_REQUEST ''jsonrpc must be 2.0''), srv, w)
         else
           (case dget_or message ''method'' PNone of
              PStr method \<Rightarrow>
                (let params = (case dget_or message ''params'' PNone of PDict p \<Rightarrow> p | _ \<Rightarrow> [])
                 in if method = ''initialize'' then (Inr (rpc_result request_id mcp_initialize), srv, w)
                    else if method = ''notifications/initialized'' \<or> method = ''ping''
                    then (Inr (rpc_result request_id []), srv, w)
                    else if method = ''tools/list''
                    then (bindR (mcp_list_tools (ms_tools srv)) (\<lambda>tools. Inr (rpc_result request_id tools)), srv, w)
                    else if method = ''tools/call'' then mcp_call tk request_id params srv w
                    else (Inr (rpc_error request_id METHOD_NOT_FOUND (''unknown method '' @ repr_str method)), srv, w))
            | _ \<Rightarrow> (Inr (rpc_error request_id INVALID_REQUEST ''missing method''), srv, w)))"

definition handle_line :: "tick \<Rightarrow> string \<Rightarrow> mcp_server \<Rightarrow> world \<Rightarrow> string result \<times> mcp_server \<times> world" where
  "handle_line tk line srv w =
     (case parse_line line of
        Inl e \<Rightarrow> (Inl e, srv, w)
      | Inr None \<Rightarrow> (dumps opts_default (PDict (rpc_error PNone PARSE_ERROR ''invalid JSON'')), srv, w)
      | Inr (Some message) \<Rightarrow>
          (case mcp_handle tk message srv w of
             (Inl e, srv', w') \<Rightarrow> (Inl e, srv', w')
           | (Inr response, srv', w') \<Rightarrow> (dumps opts_unicode (PDict response), srv', w')))"

section \<open>Capability bootstrap\<close>

definition CAPABILITY_FIELDS :: "string list" where
  "CAPABILITY_FIELDS = [''run_id'', ''token'', ''scope'']"

definition has_text :: "pydict \<Rightarrow> string \<Rightarrow> bool" where
  "has_text params field \<longleftrightarrow> (case dget_or params field PNone of PStr s \<Rightarrow> s \<noteq> [] | _ \<Rightarrow> False)"

definition inject_params :: "run_registry \<Rightarrow> tool_spec \<Rightarrow> string \<Rightarrow> string \<Rightarrow> int \<Rightarrow> pydict \<Rightarrow> pydict result" where
  "inject_params capabilities spec name run_id clock params =
     bindR (reg_issue capabilities run_id name (ts_scope spec) DEFAULT_TTL_SECONDS None clock) (\<lambda>token.
       Inr (dsetdefault ''token'' (PStr token)
             (dsetdefault ''scope'' (PStr (ts_scope spec)) (dsetdefault ''run_id'' (PStr run_id) params))))"

definition inject_capability :: "string \<Rightarrow> run_registry \<Rightarrow> tool_registry \<Rightarrow> string \<Rightarrow> int \<Rightarrow> string result" where
  "inject_capability line capabilities tools run_id clock =
     (case json_loads line of
        Inl e \<Rightarrow> (if e = JSONDecodeError then Inr line else Inl e)
      | Inr (PDict message) \<Rightarrow>
          (if dget_or message ''method'' PNone \<noteq> PStr ''tools/call'' then Inr line
           else
             (case dget_or message ''params'' PNone of
                PDict params \<Rightarrow>
                  (if list_all (has_text params) CAPABILITY_FIELDS then Inr line
                   else
                     (case dget_or params ''name'' PNone of
                        PStr name \<Rightarrow>
                          (case tool_get tools name of
                             Inl e \<Rightarrow> Inr line
                           | Inr spec \<Rightarrow>
                               bindR (inject_params capabilities spec name run_id clock params) (\<lambda>params'.
                                 dumps opts_default (PDict (dset ''params'' (PDict params') message))))
                      | _ \<Rightarrow> Inr line))
              | _ \<Rightarrow> Inr line))
      | Inr _ \<Rightarrow> Inr line)"

section \<open>The loop\<close>

definition internal_error_line :: string where
  "internal_error_line = json_dumps opts_default (PDict (rpc_error PNone INTERNAL_ERROR ''internal error''))"

definition serve_line ::
    "run_registry \<Rightarrow> tool_registry \<Rightarrow> string \<Rightarrow> tick \<Rightarrow> string \<Rightarrow> mcp_server \<Rightarrow> world \<Rightarrow> string \<times> mcp_server \<times> world" where
  "serve_line capabilities tools run_id tk stripped srv w =
     (case inject_capability stripped capabilities tools run_id (tk_issue tk) of
        Inl e \<Rightarrow> (internal_error_line, srv, w)
      | Inr bridged \<Rightarrow>
          (case handle_line tk bridged srv w of
             (Inl e, srv', w') \<Rightarrow> (internal_error_line, srv', w')
           | (Inr response, srv', w') \<Rightarrow> (response, srv', w')))"

fun serve_stdio ::
    "run_registry \<Rightarrow> tool_registry \<Rightarrow> string \<Rightarrow> (tick \<times> string) list \<Rightarrow> mcp_server \<Rightarrow> world
     \<Rightarrow> string list \<times> mcp_server \<times> world" where
  "serve_stdio capabilities tools run_id [] srv w = ([], srv, w)"
| "serve_stdio capabilities tools run_id ((tk, line) # lines) srv w =
     (if strip line = [] then serve_stdio capabilities tools run_id lines srv w
      else
        (case serve_line capabilities tools run_id tk (strip line) srv w of
           (response, srv1, w1) \<Rightarrow>
             (case serve_stdio capabilities tools run_id lines srv1 w1 of
                (responses, srv2, w2) \<Rightarrow> ((response @ [newline]) # responses, srv2, w2))))"

section \<open>One line per response\<close>

text \<open>JSON text holds no line break: inside strings it is escaped, and nothing else contains one.\<close>

definition line_free :: "string \<Rightarrow> bool" where
  "line_free s \<longleftrightarrow> newline \<notin> set s"

lemma line_free_simps [simp]:
  "line_free []" "line_free (c # s) \<longleftrightarrow> c \<noteq> newline \<and> line_free s" "line_free (s @ t) \<longleftrightarrow> line_free s \<and> line_free t"
  "line_free (replicate n c) \<longleftrightarrow> n = 0 \<or> c \<noteq> newline"
  by (auto simp: line_free_def)

lemma line_free_printed: "printed_ascii s \<Longrightarrow> line_free s"
  by (auto simp: printed_ascii_def line_free_def list_all_iff)

lemmas line_free_parts [simp] = line_free_printed [OF dec_int_printed] line_free_printed [OF dec_nat_printed]
  line_free_printed [OF sep_printed(1)] line_free_printed [OF sep_printed(2)] line_free_printed [OF u_escape_printed]

lemma line_free_concat: "\<forall>s \<in> set ss. line_free s \<Longrightarrow> line_free (concat ss)"
  by (induction ss) auto

lemma line_free_join: "line_free sep \<Longrightarrow> \<forall>s \<in> set ss. line_free s \<Longrightarrow> line_free (join sep ss)"
  by (induction sep ss rule: join.induct) auto

lemma line_free_esc_byte [simp]: "line_free (esc_byte c)"
  by (simp add: esc_byte_def)

lemma line_free_esc_str [simp]: "line_free (esc_str opts s)"
  by (auto simp: esc_str_def esc_char_ascii_def Let_def intro!: line_free_concat)

lemma line_free_subs:
  assumes "line_free s"
  shows "s \<noteq> [] \<Longrightarrow> hd s \<noteq> newline" "line_free (tl s)" "line_free (take n s)" "line_free (drop n s)"
  using assms by (cases s; auto simp: line_free_def dest: in_set_takeD in_set_dropD)+

lemma line_free_float [simp]: "line_free (dump_float f)"
proof (cases f)
  case (Decimal m e)
  show ?thesis by (simp add: Decimal show_decimal_def Let_def zero_pad_def line_free_subs)
qed auto

lemma line_free_dumps:
  "line_free (json_dumps opts v)"
  "\<forall>s \<in> set (dump_items opts xs). line_free s"
  "\<forall>m \<in> set (dump_pairs opts d). line_free (snd m)"
  by (induction opts v and opts xs and opts d rule: json_dumps_dump_items_dump_pairs.induct)
    (fastforce simp: dump_members_def intro!: line_free_join)+

lemma dumps_line_free: "dumps opts v = Inr t \<Longrightarrow> line_free t"
  unfolding dumps_Inr using line_free_dumps(1) by blast

section \<open>Properties\<close>

lemma internal_error_line_free: "line_free internal_error_line"
  unfolding internal_error_line_def by (rule line_free_dumps)

lemma handle_line_free: "handle_line tk line srv w = (Inr response, srv', w') \<Longrightarrow> line_free response"
  by (auto simp: handle_line_def dumps_line_free split: sum.splits option.splits prod.splits)

lemma serve_line_free: "line_free (fst (serve_line capabilities tools run_id tk line srv w))"
  by (auto simp: serve_line_def internal_error_line_free handle_line_free split: sum.splits prod.splits)

text \<open>
  C10: the bridge answers every request and never stops at one: whatever the lines hold and whatever
  fails while they are served, the loop writes exactly one response per input line that is not
  blank, and each response is one line, terminated by the only line break it contains.
\<close>

theorem bridge_answers_every_line:
  "length (fst (serve_stdio capabilities tools run_id lines srv w)) = length (filter (\<lambda>(tk, line). strip line \<noteq> []) lines)
   \<and> (\<forall>r \<in> set (fst (serve_stdio capabilities tools run_id lines srv w)).
        \<exists>response. r = response @ [newline] \<and> line_free response)"
proof (induction capabilities tools run_id lines srv w rule: serve_stdio.induct)
  case (2 capabilities tools run_id tk line lines srv w)
  then show ?case
    using serve_line_free [of capabilities tools run_id tk "strip line" srv w]
    by (auto split: prod.splits)
qed simp

section \<open>What a message can cause\<close>

text \<open>The parameters of a request that carry a full capability and a tool call.\<close>

definition carries_call :: "pydict \<Rightarrow> tool_call \<Rightarrow> bool" where
  "carries_call params call \<longleftrightarrow>
     dget params ''name'' = Some (PStr (tc_tool call)) \<and> tc_tool call \<noteq> []
   \<and> dget_or params ''arguments'' (PDict []) = PDict (tc_args call)
   \<and> dget params ''run_id'' = Some (PStr (tc_run_id call)) \<and> tc_run_id call \<noteq> []
   \<and> dget params ''token'' = Some (PStr (tc_token call)) \<and> tc_token call \<noteq> []
   \<and> dget params ''scope'' = Some (PStr (tc_scope call)) \<and> tc_scope call \<noteq> []"

lemma dget_or_PStr: "dget_or d k PNone = PStr s \<longleftrightarrow> dget d k = Some (PStr s)"
  by (auto simp: dget_or_def split: option.splits)

lemma auth_fields_Cons:
  "auth_fields params (field # rest) = Inr vs \<longleftrightarrow>
     (\<exists>v vs'. dget params field = Some (PStr v) \<and> v \<noteq> [] \<and> auth_fields params rest = Inr vs' \<and> vs = v # vs')"
  by (cases "auth_fields params rest") (auto simp: dget_or_def split: option.splits pyval.splits)

lemma auth_fields_Inr:
  "auth_fields params AUTH_FIELDS = Inr vs \<longleftrightarrow>
     (\<exists>r t s. vs = [r, t, s] \<and> dget params ''run_id'' = Some (PStr r) \<and> r \<noteq> []
        \<and> dget params ''token'' = Some (PStr t) \<and> t \<noteq> [] \<and> dget params ''scope'' = Some (PStr s) \<and> s \<noteq> [])"
  unfolding AUTH_FIELDS_def auth_fields_Cons by auto

lemma call_of_Inr:
  "call_of tk srv params = Inr call \<longleftrightarrow> carries_call params call
     \<and> call = \<lparr>tc_run_id = tc_run_id call, tc_token = tc_token call, tc_tool = tc_tool call, tc_args = tc_args call,
          tc_scope = tc_scope call, tc_created_at = tk_now tk, tc_decision_id = next_decision_id srv,
          tc_evidence_id = next_evidence_id srv, tc_resource = []\<rparr>"
  (is "?l \<longleftrightarrow> ?r")
proof
  assume ?l
  then obtain name args r t s where "dget_or params ''name'' PNone = PStr name" "name \<noteq> []"
    "dget_or params ''arguments'' (PDict []) = PDict args" "auth_fields params AUTH_FIELDS = Inr [r, t, s]"
    "call = \<lparr>tc_run_id = r, tc_token = t, tc_tool = name, tc_args = args, tc_scope = s,
       tc_created_at = tk_now tk, tc_decision_id = next_decision_id srv, tc_evidence_id = next_evidence_id srv, tc_resource = []\<rparr>"
    unfolding call_of_def by (auto split: pyval.splits if_splits sum.splits list.splits)
  then show ?r by (auto simp: carries_call_def auth_fields_Inr dget_or_PStr)
next
  assume r: ?r
  then have "auth_fields params AUTH_FIELDS = Inr [tc_run_id call, tc_token call, tc_scope call]"
    by (simp add: auth_fields_Inr carries_call_def)
  then show ?l using r unfolding call_of_def carries_call_def by (simp add: dget_or_PStr)
qed

lemma mcp_call_cases:
  obtains (refused) message where "call_of tk srv params = Inl message"
      "mcp_call tk request_id params srv w = (Inr (rpc_error request_id INVALID_PARAMS message), srv, w)"
  | (executed) call where "call_of tk srv params = Inr call"
      "fst (snd (mcp_call tk request_id params srv w)) = advance srv"
      "snd (snd (mcp_call tk request_id params srv w)) = snd (execute (ms_executor srv) (tk_check tk) call w)"
  by (cases "call_of tk srv params"; cases "execute (ms_executor srv) (tk_check tk) (projr (call_of tk srv params)) w")
    (auto simp: mcp_call_def split: sum.splits)

lemma mcp_handle_cases:
  assumes "mcp_handle tk message srv w = (r, srv', w')"
  obtains (other) "srv' = srv" "w' = w"
  | (call) params where "dget message ''jsonrpc'' = Some (PStr JSONRPC_VERSION)"
      "dget message ''method'' = Some (PStr ''tools/call'')"
      "params = (case dget_or message ''params'' PNone of PDict p \<Rightarrow> p | _ \<Rightarrow> [])"
      "mcp_call tk (dget_or message ''id'' PNone) params srv w = (r, srv', w')"
  using assms unfolding mcp_handle_def Let_def
  by (auto simp: dget_or_PStr split: if_splits pyval.splits)

lemma call_ids:
  "call_of tk srv params = Inr call \<Longrightarrow> tc_decision_id call = next_decision_id srv \<and> tc_evidence_id call = next_evidence_id srv"
  unfolding call_of_Inr by (metis tool_call.select_convs)

text \<open>
  C8: a message changes the state of the server or of the world only if it is a JSON-RPC 2.0 request
  to call a tool whose parameters name the tool and carry a run, a token and a scope; then the
  server's counters advance by one, and apart from the record in the evidence store the world
  changes only if exactly this call passed all the gates of the executor.
\<close>

theorem message_effects_gated:
  assumes "mcp_handle tk message srv w = (r, srv', w')"
  shows "(srv' = srv \<and> w' = w) \<or>
    (\<exists>params call. dget message ''jsonrpc'' = Some (PStr ''2.0'') \<and> dget message ''method'' = Some (PStr ''tools/call'')
       \<and> dget message ''params'' = Some (PDict params) \<and> carries_call params call
       \<and> tc_decision_id call = next_decision_id srv \<and> tc_evidence_id call = next_evidence_id srv
       \<and> srv' = advance srv
       \<and> (evidence_only (ex_store (ms_executor srv)) w w'
          \<or> (\<exists>run pr spec. gates_passed (ms_executor srv) (tk_check tk) call run pr spec)))"
  using assms
proof (cases rule: mcp_handle_cases)
  case (call params)
  show ?thesis
  proof (cases rule: mcp_call_cases [of tk srv params "dget_or message ''id'' PNone" w])
    case (refused m)
    then show ?thesis using call by simp
  next
    case (executed c)
    then have c: "carries_call params c" "tc_decision_id c = next_decision_id srv" "tc_evidence_id c = next_evidence_id srv"
      using call_ids unfolding call_of_Inr by blast+
    have w': "w' = snd (execute (ms_executor srv) (tk_check tk) c w)" "srv' = advance srv" using executed call by auto
    have "params \<noteq> []" using c by (auto simp: carries_call_def)
    then have p: "dget message ''params'' = Some (PDict params)"
      using call(3) by (auto simp: dget_or_def split: option.splits pyval.splits)
    have "evidence_only (ex_store (ms_executor srv)) w w'
        \<or> (\<exists>run pr spec. gates_passed (ms_executor srv) (tk_check tk) c run pr spec)"
      by (cases rule: execute_cases [of "ms_executor srv" "tk_check tk" c w])
        (use w' deny_world in \<open>auto simp: evidence_only_def [of _ w w] prod_eq_iff\<close>)
    then show ?thesis using call(1,2) p c w'(2) unfolding JSONRPC_VERSION_def by blast
  qed
qed simp

definition demo_server :: mcp_server where
  "demo_server = new_mcp_server demo_executor [(''probe'', probe_tool)]"

definition demo_params :: pydict where
  "demo_params = [(''name'', PStr ''probe''), (''run_id'', PStr ''RUN-1''), (''token'', PStr ''forged''), (''scope'', PStr ''workspace'')]"

definition demo_message :: pydict where
  "demo_message = rpc_request (PInt 1) ''tools/call'' (Some demo_params)"

definition demo_tick :: tick where
  "demo_tick = \<lparr>tk_issue = 10, tk_check = 20, tk_now = ''T''\<rparr>"

lemma demo_call_of: "\<exists>call. call_of demo_tick srv demo_params = Inr call"
  by (simp add: call_of_Inr carries_call_def demo_params_def)
    (rule exI [of _ "\<lparr>tc_run_id = ''RUN-1'', tc_token = ''forged'', tc_tool = ''probe'', tc_args = [], tc_scope = ''workspace'',
      tc_created_at = tk_now demo_tick, tc_decision_id = next_decision_id srv,
      tc_evidence_id = next_evidence_id srv, tc_resource = []\<rparr>"], simp)

lemma demo_handle: "mcp_handle tk demo_message srv w = mcp_call tk (PInt 1) demo_params srv w"
  by (simp add: mcp_handle_def demo_message_def rpc_request_def Let_def JSONRPC_VERSION_def)

theorem message_effects_gated_witness:
  "\<exists>r srv' w' call. mcp_handle demo_tick demo_message demo_server empty_world = (r, srv', w')
     \<and> srv' = advance demo_server \<and> carries_call demo_params call
     \<and> (evidence_only [''ev''] empty_world w'
        \<or> (\<exists>run pr spec. gates_passed demo_executor 20 call run pr spec))"
proof -
  obtain r srv' w' where h: "mcp_handle demo_tick demo_message demo_server empty_world = (r, srv', w')"
    by (metis prod_cases3)
  have srv': "srv' = advance demo_server"
  proof (cases rule: mcp_call_cases [of demo_tick demo_server demo_params "PInt 1" empty_world])
    case (refused m)
    then show ?thesis using demo_call_of [of demo_server] by auto
  next
    case (executed c)
    then show ?thesis using h demo_handle by simp
  qed
  moreover have "advance demo_server \<noteq> demo_server" by (simp add: advance_def demo_server_def new_mcp_server_def)
  moreover have "dget demo_message ''params'' = Some (PDict demo_params)" by (simp add: demo_message_def rpc_request_def)
  moreover have "ms_executor demo_server = demo_executor" "tk_check demo_tick = 20" "ex_store demo_executor = [''ev'']"
    by (simp_all add: demo_server_def new_mcp_server_def demo_tick_def demo_executor_def)
  ultimately show ?thesis using message_effects_gated [OF h] h by auto
qed

theorem bridge_answers_every_line_witness:
  "\<exists>response. fst (serve_stdio demo_runs [] [] [(demo_tick, ''not json''), (demo_tick, '' ''), (demo_tick, [newline])] demo_server empty_world)
     = [response @ [newline]] \<and> line_free response"
proof -
  define lines where "lines = [(demo_tick, ''not json''), (demo_tick, '' ''), (demo_tick, [newline])]"
  define out where "out = fst (serve_stdio demo_runs [] [] lines demo_server empty_world)"
  have "filter (\<lambda>(tk, line). strip line \<noteq> []) lines = [(demo_tick, ''not json'')]"
    using strip_ascii_plain [of "''not json''"] strip_ascii_blank [of "'' ''"] strip_ascii_blank [of "[newline]"]
    by (simp add: lines_def)
  then have o: "length out = Suc 0" "\<forall>r \<in> set out. \<exists>response. r = response @ [newline] \<and> line_free response"
    using bridge_answers_every_line [of demo_runs "[]" "[]" lines demo_server empty_world, folded out_def] by simp_all
  from o(1) obtain r where "out = [r]" by (auto simp: length_Suc_conv)
  with o(2) have "\<exists>response. out = [response @ [newline]] \<and> line_free response" by simp
  then show ?thesis unfolding out_def lines_def .
qed

section \<open>The numbering of calls\<close>

lemma handle_counters:
  assumes "mcp_handle tk message srv w = (r, srv', w')"
  shows "ms_executor srv' = ms_executor srv \<and> ms_tools srv' = ms_tools srv
     \<and> ms_decision_seq srv \<le> ms_decision_seq srv' \<and> ms_evidence_seq srv \<le> ms_evidence_seq srv'"
  using assms
proof (cases rule: mcp_handle_cases)
  case (call params)
  then show ?thesis
    by (cases rule: mcp_call_cases [of tk srv params "dget_or message ''id'' PNone" w]) (auto simp: advance_def)
qed simp

lemma serve_line_counters:
  "serve_line capabilities tools run_id tk line srv w = (response, srv', w') \<Longrightarrow>
   ms_decision_seq srv \<le> ms_decision_seq srv' \<and> ms_evidence_seq srv \<le> ms_evidence_seq srv'"
  by (auto simp: serve_line_def handle_line_def split: sum.splits option.splits prod.splits dest: handle_counters)

lemma serve_stdio_counters:
  "serve_stdio capabilities tools run_id lines srv w = (responses, srv', w') \<Longrightarrow>
   ms_decision_seq srv \<le> ms_decision_seq srv' \<and> ms_evidence_seq srv \<le> ms_evidence_seq srv'"
proof (induction capabilities tools run_id lines srv w arbitrary: responses srv' w' rule: serve_stdio.induct)
  case (2 capabilities tools run_id tk line lines srv w)
  then show ?case by (fastforce split: if_splits prod.splits dest: serve_line_counters)
qed simp

text \<open>
  C11: no two calls of a session share an identifier: the decision and the evidence identifier of a
  call differ from those of every call executed after it, whatever lines are served in between.
\<close>

theorem session_ids_distinct:
  assumes "call_of tk1 srv params1 = Inr call1" "mcp_call tk1 request_id params1 srv w = (r, srv1, w1)"
    and "serve_stdio capabilities tools run_id lines srv1 w1' = (responses, srv2, w2)"
    and "call_of tk2 srv2 params2 = Inr call2"
  shows "tc_decision_id call1 \<noteq> tc_decision_id call2 \<and> tc_evidence_id call1 \<noteq> tc_evidence_id call2"
proof -
  have "srv1 = advance srv"
    using assms(1,2) by (cases rule: mcp_call_cases [of tk1 srv params1 request_id w]) auto
  then have "ms_decision_seq srv < ms_decision_seq srv2" "ms_evidence_seq srv < ms_evidence_seq srv2"
    using serve_stdio_counters [OF assms(3)] by (auto simp: advance_def)
  then show ?thesis
    using call_ids [OF assms(1)] call_ids [OF assms(4)]
    by (simp add: next_decision_id_def next_evidence_id_def zero_pad_inj)
qed

theorem session_ids_distinct_witness:
  "\<exists>call1 call2 r srv1 w1. call_of demo_tick demo_server demo_params = Inr call1
     \<and> mcp_call demo_tick (PInt 1) demo_params demo_server empty_world = (r, srv1, w1)
     \<and> call_of demo_tick srv1 demo_params = Inr call2 \<and> tc_evidence_id call1 \<noteq> tc_evidence_id call2"
proof -
  obtain r srv1 w1 where m: "mcp_call demo_tick (PInt 1) demo_params demo_server empty_world = (r, srv1, w1)"
    by (metis prod_cases3)
  obtain call1 call2 where c: "call_of demo_tick demo_server demo_params = Inr call1"
      "call_of demo_tick srv1 demo_params = Inr call2"
    using demo_call_of by blast
  have "serve_stdio demo_runs [] [] [] srv1 w1 = ([], srv1, w1)" by simp
  from session_ids_distinct [OF c(1) m this c(2)] show ?thesis using m c by blast
qed

section \<open>Injected capabilities\<close>

lemma printable_pairs_dset:
  "printable_pairs opts d \<Longrightarrow> str_ok opts k \<Longrightarrow> printable opts v \<Longrightarrow> printable_pairs opts (dset k v d)"
  by (induction d) (auto split: if_splits)

lemma printable_dset:
  "printable opts (PDict d) \<Longrightarrow> str_ok opts k \<Longrightarrow> printable opts v \<Longrightarrow> printable opts (PDict (dset k v d))"
  by (simp add: printable_pairs_dset)

lemma printable_dsetdefault:
  "printable opts (PDict d) \<Longrightarrow> str_ok opts k \<Longrightarrow> printable opts v \<Longrightarrow> printable opts (PDict (dsetdefault k v d))"
  by (auto simp: dsetdefault_def printable_pairs_dset split: option.splits)

lemma printable_dget: "printable_pairs opts d \<Longrightarrow> dget d k = Some v \<Longrightarrow> printable opts v"
  by (induction d) (auto split: if_splits)

lemma str_ok_ascii: "is_ascii s \<Longrightarrow> str_ok opts s"
  by (simp add: str_ok_def valid_str_ascii no_surrogate_ascii)

text \<open>
  A request to call a registered tool that does not carry all capability fields leaves the
  bootstrap with them: the result is again JSON for the same message except for its parameters,
  which keep every field the caller gave and gain the missing ones, namely the bridge's run, the
  tool's own scope, and a token that the registry accepts for this tool and scope, on behalf of
  this run, until the time to live has passed, and at no later time.
\<close>

theorem injected_call_authorised:
  assumes "json_loads line = Inr (PDict message)" "printable opts_default (PDict message)"
    and "dget message ''method'' = Some (PStr ''tools/call'')" "dget message ''params'' = Some (PDict params)"
    and "\<not> list_all (has_text params) CAPABILITY_FIELDS"
    and "dget params ''name'' = Some (PStr name)" "tool_get tools name = Inr spec"
    and "active capabilities run_id" "cap_ok (granted run_id name (ts_scope spec) clock)"
  shows "\<exists>line' params' token. inject_capability line capabilities tools run_id clock = Inr line'
     \<and> json_loads line' = Inr (PDict (dset ''params'' (PDict params') message))
     \<and> (\<forall>k. dget params' k = (case dget params k of Some v \<Rightarrow> Some v | None \<Rightarrow>
          (if k = ''run_id'' then Some (PStr run_id) else if k = ''scope'' then Some (PStr (ts_scope spec))
           else if k = ''token'' then Some (PStr token) else None)))
     \<and> (\<forall>now. \<exists>check. reg_check capabilities token name (ts_scope spec) None now = Inr check
          \<and> (chk_valid check \<longleftrightarrow> now \<le> clock + DEFAULT_TTL_SECONDS)
          \<and> chk_run_id check = Some run_id)"
proof -
  obtain token where token: "reg_issue capabilities run_id name (ts_scope spec) DEFAULT_TTL_SECONDS None clock = Inr token"
    "is_ascii token" "decode_token (reg_secret capabilities) token = Inr (Decoded (granted run_id name (ts_scope spec) clock))"
    using issue_granted [OF assms(8,9)] .
  define params' where "params' = dsetdefault ''token'' (PStr token)
    (dsetdefault ''scope'' (PStr (ts_scope spec)) (dsetdefault ''run_id'' (PStr run_id) params))"
  let ?m = "PDict (dset ''params'' (PDict params') message)"
  have texts: "printable opts_default (PStr run_id)" "printable opts_default (PStr (ts_scope spec))"
    "printable opts_default (PStr token)"
    using assms(9) token(2) by (simp_all add: cap_ok_def token_text_def granted_def str_ok_def valid_str_ascii no_surrogate_ascii)
  have keys: "str_ok opts_default ''token''" "str_ok opts_default ''scope''" "str_ok opts_default ''run_id''"
    "str_ok opts_default ''params''" by (simp_all add: str_ok_ascii)
  have "printable opts_default (PDict params)" using assms(2,4) printable_dget by fastforce
  then have "printable opts_default (PDict params')"
    unfolding params'_def by (intro printable_dsetdefault texts keys)
  then have p: "printable opts_default ?m" by (rule printable_dset [OF assms(2) keys(4)])
  have "inject_capability line capabilities tools run_id clock = dumps opts_default ?m"
    using assms token(1) by (simp add: inject_capability_def inject_params_def params'_def)
  then have "inject_capability line capabilities tools run_id clock = Inr (json_dumps opts_default ?m)"
    using printable_ints_ok(1) [OF p] by (simp only: dumps_def if_True)
  moreover have "json_loads (json_dumps opts_default ?m) = Inr ?m"
    using json_roundtrip [OF p] by (simp add: canon_def opts_default_def)
  moreover have "dget params' k = (case dget params k of Some v \<Rightarrow> Some v | None \<Rightarrow>
          (if k = ''run_id'' then Some (PStr run_id) else if k = ''scope'' then Some (PStr (ts_scope spec))
           else if k = ''token'' then Some (PStr token) else None))" for k
    by (simp add: params'_def split: option.splits)
  moreover have "\<exists>check. reg_check capabilities token name (ts_scope spec) None now = Inr check
      \<and> (chk_valid check \<longleftrightarrow> now \<le> clock + DEFAULT_TTL_SECONDS) \<and> chk_run_id check = Some run_id" for now
    using assms(8) by (simp add: reg_check_decoded [OF token(3)] valid_check_claims granted_def)
      (auto simp: check_claims_def reg_reject_def split: option.splits)
  ultimately show ?thesis by blast
qed

definition bare_message :: pydict where
  "bare_message = rpc_request (PInt 1) ''tools/call'' (Some [(''name'', PStr ''probe''), (''scope'', PStr ''mine'')])"

theorem injected_call_authorised_witness:
  "\<exists>line' params' token check. inject_capability (json_dumps opts_default (PDict bare_message)) demo_runs [(''probe'', probe_tool)] ''RUN-1'' 10 = Inr line'
     \<and> json_loads line' = Inr (PDict (dset ''params'' (PDict params') bare_message))
     \<and> dget params' ''run_id'' = Some (PStr ''RUN-1'') \<and> dget params' ''scope'' = Some (PStr ''mine'')
     \<and> dget params' ''token'' = Some (PStr token)
     \<and> reg_check demo_runs token ''probe'' ''workspace'' None 310 = Inr check \<and> chk_valid check"
proof -
  let ?p = "[(''name'', PStr ''probe''), (''scope'', PStr ''mine'')]"
  have p: "printable opts_default (PDict bare_message)"
    by (simp add: bare_message_def rpc_request_def dict_wf_def str_ok_ascii int_ok_def max_int_digits_def dec_nat.simps JSONRPC_VERSION_def)
  have l: "json_loads (json_dumps opts_default (PDict bare_message)) = Inr (PDict bare_message)"
    using json_roundtrip [OF p] by (simp add: canon_def opts_default_def)
  have m: "dget bare_message ''method'' = Some (PStr ''tools/call'')" "dget bare_message ''params'' = Some (PDict ?p)"
    by (simp_all add: bare_message_def rpc_request_def)
  have f: "\<not> list_all (has_text ?p) CAPABILITY_FIELDS" "dget ?p ''name'' = Some (PStr ''probe'')"
    by (simp_all add: CAPABILITY_FIELDS_def has_text_def)
  have t: "tool_get [(''probe'', probe_tool)] ''probe'' = Inr probe_tool" "ts_scope probe_tool = ''workspace''"
    by (simp_all add: tool_get_def probe_tool_def make_tool_def Let_def)
  have a: "active demo_runs ''RUN-1''" by (simp add: active_def demo_runs_eq reg_get_def)
  have c: "cap_ok (granted ''RUN-1'' ''probe'' (ts_scope probe_tool) 10)"
    by (simp add: t granted_def cap_ok_def token_text_def valid_str_ascii no_surrogate_ascii int_ok_def max_int_digits_def dec_nat.simps
        DEFAULT_TTL_SECONDS_def)
  obtain line' params' token where r: "inject_capability (json_dumps opts_default (PDict bare_message)) demo_runs [(''probe'', probe_tool)] ''RUN-1'' 10 = Inr line'"
      "json_loads line' = Inr (PDict (dset ''params'' (PDict params') bare_message))"
      "\<And>k. dget params' k = (case dget ?p k of Some v \<Rightarrow> Some v | None \<Rightarrow>
          (if k = ''run_id'' then Some (PStr ''RUN-1'') else if k = ''scope'' then Some (PStr (ts_scope probe_tool))
           else if k = ''token'' then Some (PStr token) else None))"
      "\<And>now. \<exists>check. reg_check demo_runs token ''probe'' (ts_scope probe_tool) None now = Inr check
          \<and> (chk_valid check \<longleftrightarrow> now \<le> 10 + DEFAULT_TTL_SECONDS) \<and> chk_run_id check = Some ''RUN-1''"
    using injected_call_authorised [OF l p m f t(1) a c] by blast
  have d: "dget params' ''run_id'' = Some (PStr ''RUN-1'')" "dget params' ''scope'' = Some (PStr ''mine'')"
    "dget params' ''token'' = Some (PStr token)" by (simp_all add: r(3))
  obtain check where "reg_check demo_runs token ''probe'' ''workspace'' None 310 = Inr check" "chk_valid check"
    using r(4) [of 310] unfolding t by (auto simp: DEFAULT_TTL_SECONDS_def)
  with r(1,2) d show ?thesis by blast
qed

end
