(* ===== verification/McpClient.thy ===== *)
theory McpClient
  imports Mcp
begin

text \<open>
  The in-process client of the bridge (\<open>mcp/client.py\<close>): it numbers its requests, hands them to the
  server without a transport and turns JSON-RPC errors into exceptions. A call through it is the
  execution of that call: the protocol in between adds the refusals of the server and nothing else.
\<close>

section \<open>The client\<close>

record mcp_client =
  mc_server :: mcp_server
  mc_counter :: nat

definition new_mcp_client :: "mcp_server \<Rightarrow> mcp_client" where
  "new_mcp_client srv = \<lparr>mc_server = srv, mc_counter = 0\<rparr>"

definition mcp_error :: "int \<Rightarrow> string \<Rightarrow> py_error" where
  "mcp_error code message = OtherError (''MCPError: ['' @ dec_int code @ ''] '' @ message)"

definition read_response :: "pydict \<Rightarrow> pydict result" where
  "read_response response =
     (case dget response ''error'' of
        Some (PDict err) \<Rightarrow>
          (case (dget err ''code'', dget err ''message'') of
             (Some (PInt code), Some message) \<Rightarrow> Inl (mcp_error code (py_str message))
           | _ \<Rightarrow> Inl TypeError)
      | Some _ \<Rightarrow> Inl TypeError
      | None \<Rightarrow> bindR (dindex response ''result'') val_dict)"

definition next_id :: "mcp_client \<Rightarrow> nat \<times> mcp_client" where
  "next_id c = (mc_counter c + 1, c\<lparr>mc_counter := mc_counter c + 1\<rparr>)"

definition client_request ::
    "tick \<Rightarrow> string \<Rightarrow> pydict option \<Rightarrow> mcp_client \<Rightarrow> world \<Rightarrow> pydict result \<times> mcp_client \<times> world" where
  "client_request tk method params c w =
     (case next_id c of (request_id, c1) \<Rightarrow>
        (case mcp_handle tk (rpc_request (PInt (int request_id)) method params) (mc_server c1) w of
           (r, srv', w') \<Rightarrow> (bindR r read_response, c1\<lparr>mc_server := srv'\<rparr>, w')))"

definition client_initialize :: "tick \<Rightarrow> mcp_client \<Rightarrow> world \<Rightarrow> pydict result \<times> mcp_client \<times> world" where
  "client_initialize tk = client_request tk ''initialize'' None"

definition client_list_tools :: "tick \<Rightarrow> mcp_client \<Rightarrow> world \<Rightarrow> pydict result \<times> mcp_client \<times> world" where
  "client_list_tools tk = client_request tk ''tools/list'' None"

definition client_call_tool ::
    "tick \<Rightarrow> string \<Rightarrow> pydict \<Rightarrow> string \<Rightarrow> string \<Rightarrow> string \<Rightarrow> mcp_client \<Rightarrow> world \<Rightarrow> pydict result \<times> mcp_client \<times> world" where
  "client_call_tool tk name arguments run_id token scope =
     client_request tk ''tools/call''
       (Some [(''name'', PStr name), (''arguments'', PDict arguments), (''run_id'', PStr run_id), (''token'', PStr token),
              (''scope'', PStr scope)])"

section \<open>What its requests do\<close>

lemma request_fields:
  "dget_or (rpc_request i method params) ''id'' PNone = i"
  "dget_or (rpc_request i method params) ''jsonrpc'' PNone = PStr JSONRPC_VERSION"
  "dget_or (rpc_request i method params) ''method'' PNone = PStr method"
  "dget_or (rpc_request i method params) ''params'' PNone = (case params of None \<Rightarrow> PNone | Some p \<Rightarrow> PDict p)"
  by (cases params; simp add: rpc_request_def dget_or_def Let_def)+

lemma read_rpc [simp]:
  "read_response (rpc_result i payload) = Inr payload"
  "read_response (rpc_error i code message) = Inl (mcp_error code message)"
  by (simp_all add: read_response_def rpc_result_def rpc_error_def dindex_def)

text \<open>The entry of a tool in the list the client gets.\<close>

definition tool_entry :: "tool_spec \<Rightarrow> pyval" where
  "tool_entry spec = PDict [(''name'', PStr (ts_name spec)), (''description'', PStr (ts_description spec)),
     (''inputSchema'', PDict (ts_args_schema spec))]"

lemma list_entries:
  "mcp_list_tools tools = Inr [(''tools'', PList (map (\<lambda>name. tool_entry (the (dget tools name))) (tool_names tools)))]"
proof -
  have "set names \<subseteq> set (dkeys tools) \<Longrightarrow>
      mapR (\<lambda>name. bindR (tool_get tools name) (\<lambda>spec. Inr (tool_entry spec))) names
        = Inr (map (\<lambda>name. tool_entry (the (dget tools name))) names)" for names
    by (induction names) (auto simp: tool_get_def map_of_eq_None_iff split: option.splits)
  from this [of "tool_names tools"] show ?thesis by (simp add: mcp_list_tools_def tool_entry_def tool_names_def)
qed

text \<open>Asking for the server's description or its tools never fails and changes nothing but the
  number of the next request; every registered tool is listed, in the order of the names.\<close>

theorem client_questions:
  "client_initialize tk c w = (Inr mcp_initialize, snd (next_id c), w)"
  "client_list_tools tk c w =
     (Inr [(''tools'', PList (map (\<lambda>name. tool_entry (the (dget (ms_tools (mc_server c)) name))) (tool_names (ms_tools (mc_server c)))))],
      snd (next_id c), w)"
  by (simp_all add: client_initialize_def client_list_tools_def client_request_def next_id_def mcp_handle_def request_fields
      list_entries)

text \<open>
  A call through the client is the execution of that call by the runner: with a name and the three
  capability fields present, the client returns what the executor decided, as the text of the
  output or as the reason of the refusal, and an exception of the execution reaches the caller.
\<close>

definition call_made :: "tick \<Rightarrow> mcp_server \<Rightarrow> string \<Rightarrow> pydict \<Rightarrow> string \<Rightarrow> string \<Rightarrow> string \<Rightarrow> tool_call" where
  "call_made tk srv name arguments run_id token scope =
     \<lparr>tc_run_id = run_id, tc_token = token, tc_tool = name, tc_args = arguments, tc_scope = scope, tc_created_at = tk_now tk,
      tc_decision_id = next_decision_id srv, tc_evidence_id = next_evidence_id srv, tc_resource = []\<rparr>"

definition told :: "execution_result \<Rightarrow> pydict result" where
  "told res = bindR (if xr_allowed res then dumps opts_unicode (PDict (case xr_output res of None \<Rightarrow> [] | Some d \<Rightarrow> d)) else Inr (xr_reason res))
     (\<lambda>text. Inr [(''content'', PList [PDict [(''type'', PStr ''text''), (''text'', PStr text)]]), (''isError'', PBool (\<not> xr_allowed res)),
        (''structuredContent'', PDict (if xr_allowed res then (case xr_output res of None \<Rightarrow> [] | Some d \<Rightarrow> d)
           else [(''reason'', PStr (xr_reason res))]))])"

lemma told_response: "bindR (call_response i res) read_response = told res"
  by (cases "dumps opts_unicode (PDict (case xr_output res of None \<Rightarrow> [] | Some d \<Rightarrow> d))")
    (simp_all add: call_response_def told_def Let_def)

theorem client_call_executes:
  assumes "name \<noteq> []" "run_id \<noteq> []" "token \<noteq> []" "scope \<noteq> []"
    and "execute (ms_executor (mc_server c)) (tk_check tk) (call_made tk (mc_server c) name arguments run_id token scope) w = (r, w')"
  shows "client_call_tool tk name arguments run_id token scope c w
    = (bindR r told, \<lparr>mc_server = advance (mc_server c), mc_counter = mc_counter c + 1\<rparr>, w')"
proof -
  let ?p = "[(''name'', PStr name), (''arguments'', PDict arguments), (''run_id'', PStr run_id), (''token'', PStr token),
     (''scope'', PStr scope)]"
  have "call_of tk (mc_server c) ?p = Inr (call_made tk (mc_server c) name arguments run_id token scope)"
    unfolding call_of_Inr using assms(1-4) by (simp add: carries_call_def call_made_def dget_or_def)
  then show ?thesis using assms(5)
    by (cases r) (simp_all add: client_call_tool_def client_request_def next_id_def mcp_handle_def request_fields mcp_call_def
        told_response Let_def)
qed

text \<open>A call without one of them raises, before anything is executed.\<close>

theorem client_call_incomplete:
  assumes "name = [] \<or> run_id = [] \<or> token = [] \<or> scope = []"
  shows "\<exists>message. client_call_tool tk name arguments run_id token scope c w = (Inl (mcp_error INVALID_PARAMS message), snd (next_id c), w)"
proof -
  let ?p = "[(''name'', PStr name), (''arguments'', PDict arguments), (''run_id'', PStr run_id), (''token'', PStr token),
     (''scope'', PStr scope)]"
  have "call_of tk (mc_server c) ?p \<noteq> Inr call" for call
    unfolding call_of_Inr using assms by (auto simp: carries_call_def)
  then obtain message where "call_of tk (mc_server c) ?p = Inl message" by (cases "call_of tk (mc_server c) ?p") auto
  then show ?thesis
    by (intro exI [of _ message])
      (simp add: client_call_tool_def client_request_def next_id_def mcp_handle_def request_fields mcp_call_def)
qed

end
