(* ===== verification/Pipeline.thy ===== *)
theory Pipeline
  imports SkillRunner Builtin DeployVerify Traceability
begin

text \<open>
  The pipeline orchestrator (\<open>pipeline/orchestrator.py\<close>): from an idea to a reviewed task in seven
  stages. Five stages run a role skill through the gated runner; every stage stores its document
  through the gated \<open>write_artifact\<close> tool. The security review is compiled from the threat model by
  the platform.

  The object's constructor arguments are the record \<open>pipeline\<close>; what its methods change is the record
  \<open>pipe_state\<close>, passed along with the world. The clock is a function from the number of readings
  taken so far to the time.
\<close>

section \<open>Data\<close>

definition ARTIFACT_ID_PREFIX :: "string dict" where
  "ARTIFACT_ID_PREFIX =
     [(''idea'', ''IDEA''), (''specification'', ''SPEC''), (''threat-model'', ''TM''), (''plan'', ''PLAN''),
      (''task'', ''TASK''), (''review'', ''REV''), (''security-review'', ''SECREV'')]"

record stage_result =
  st_stage :: string
  st_artifact_type :: string
  st_artifact_id :: string
  st_decision :: pydict
  st_evidence :: pydict

record pipeline_result =
  pl_feature_id :: string
  pl_run_id :: string
  pl_stages :: "stage_result list"
  pl_artifacts :: "pydict dict"
  pl_trace :: traceability

section \<open>The security review\<close>

text \<open>The disposition of one risk, from its severity, its verification test and its waiver.\<close>

definition risk_disposition :: "string \<Rightarrow> pyval \<Rightarrow> pyval \<Rightarrow> string" where
  "risk_disposition severity verification waiver =
     (if severity = ''critical'' \<or> severity = ''high''
      then (if truthy verification then ''mitigated'' else ''open_blocking'')
      else if severity = ''medium'' then (if truthy waiver then ''waived_medium'' else ''open_blocking'')
      else ''accepted_low'')"

definition risk_entry :: "pyval \<Rightarrow> (string \<times> pydict) result" where
  "risk_entry risk =
     bindR (val_get risk ''severity'' (PStr [])) (\<lambda>sev.
     bindR (val_get risk ''verification_test'' PNone) (\<lambda>verification.
     bindR (val_get risk ''waiver_id'' PNone) (\<lambda>waiver.
     bindR (val_get risk ''id'' PNone) (\<lambda>risk_id.
     let severity = py_str sev; disposition = risk_disposition severity verification waiver;
         entry = [(''risk_id'', risk_id), (''severity'', PStr severity), (''disposition'', PStr disposition)]
     in Inr (disposition,
          (if disposition = ''mitigated'' \<and> truthy verification
           then dset ''verification_evidence'' (PStr (py_str verification)) entry else entry))))))"

definition build_security_review ::
    "string \<Rightarrow> pydict \<Rightarrow> string \<Rightarrow> string \<Rightarrow> pydict \<Rightarrow> string \<Rightarrow> string \<Rightarrow> pydict result" where
  "build_security_review feature_id threat_model artifact_id created_at actor run_id threat_model_href =
     bindR (val_iter (dget_or threat_model ''risks'' (PList []))) (\<lambda>risks.
     bindR (mapR risk_entry risks) (\<lambda>entries.
     let blocking = list_ex (\<lambda>(disposition, entry). disposition = ''open_blocking'') entries
     in Inr
       [(''schema_version'', PStr ''1.0.0''), (''artifact_type'', PStr ''security-review''), (''id'', PStr artifact_id),
        (''created_at'', PStr created_at), (''created_by'', PDict actor), (''run_id'', PStr run_id),
        (''links'', PList [PDict [(''rel'', PStr ''threat''), (''href'', PStr threat_model_href)]]),
        (''feature_id'', PStr feature_id),
        (''threat_model_id'', PStr (py_str (dget_or threat_model ''id'' (PStr [])))),
        (''verdict'', PStr (if blocking then ''changes_requested'' else ''approved'')),
        (''risk_dispositions'', PList (map (PDict \<circ> snd) entries))]))"

section \<open>The state of a pipeline\<close>

record pipeline =
  pp_feature_id :: string
  pp_run_id :: string
  pp_capabilities :: run_registry
  pp_skills :: skill_registry
  pp_store :: path
  pp_repo_root :: path
  pp_href_prefix :: string
  pp_executor :: executor
  pp_runner :: skill_runner
  pp_env :: schema_env
  pp_set_order :: "path list \<Rightarrow> path list"
  pp_clock :: "nat \<Rightarrow> int"

record pipe_state =
  ps_created_at :: string
  ps_counters :: "nat dict"
  ps_decision_seq :: nat
  ps_evidence_seq :: nat
  ps_written :: "pydict dict"
  ps_readings :: nat

definition new_pipe_state :: pipe_state where
  "new_pipe_state = \<lparr>ps_created_at = [], ps_counters = [], ps_decision_seq = 0, ps_evidence_seq = 0,
     ps_written = [], ps_readings = 0\<rparr>"

text \<open>The constructor wires a skill runner over the same registries and evidence store.\<close>

definition new_pipeline ::
    "string \<Rightarrow> string \<Rightarrow> evaluator \<Rightarrow> run_registry \<Rightarrow> skill_registry
     \<Rightarrow> (ext_call list \<Rightarrow> llm_request \<Rightarrow> llm_response result) \<Rightarrow> executor \<Rightarrow> path \<Rightarrow> path \<Rightarrow> path \<Rightarrow> path option \<Rightarrow> string
     \<Rightarrow> schema_env \<Rightarrow> (string \<Rightarrow> nat) \<Rightarrow> (path list \<Rightarrow> path list) \<Rightarrow> (nat \<Rightarrow> int) \<Rightarrow> pipeline" where
  "new_pipeline feature_id run_id policy capabilities skills llm executor store evidence_store repo_root schema_root
     href_prefix env zlib_size set_order clock =
     \<lparr>pp_feature_id = feature_id, pp_run_id = run_id, pp_capabilities = capabilities, pp_skills = skills,
      pp_store = store, pp_repo_root = repo_root, pp_href_prefix = href_prefix, pp_executor = executor,
      pp_runner = \<lparr>kr_policy = policy, kr_capabilities = capabilities, kr_skills = skills, kr_llm = llm,
        kr_store = evidence_store, kr_repo_root = schema_root, kr_env = env, kr_zlib_size = zlib_size\<rparr>,
      pp_env = env, pp_set_order = set_order, pp_clock = clock\<rparr>"

section \<open>Steps on the state\<close>

type_synonym 'a pm = "pipe_state \<times> world \<Rightarrow> 'a result \<times> pipe_state \<times> world"

definition returnP :: "'a \<Rightarrow> 'a pm" where
  "returnP x = (\<lambda>(s, w). (Inr x, s, w))"

definition liftP :: "'a result \<Rightarrow> 'a pm" where
  "liftP r = (\<lambda>(s, w). (r, s, w))"

definition ioP :: "'a io \<Rightarrow> 'a pm" where
  "ioP m = (\<lambda>(s, w). case m w of (r, w') \<Rightarrow> (r, s, w'))"

definition stateP :: "(pipe_state \<Rightarrow> 'a \<times> pipe_state) \<Rightarrow> 'a pm" where
  "stateP f = (\<lambda>(s, w). case f s of (x, s') \<Rightarrow> (Inr x, s', w))"

definition bindP :: "'a pm \<Rightarrow> ('a \<Rightarrow> 'b pm) \<Rightarrow> 'b pm" where
  "bindP m f = (\<lambda>q. case m q of (Inl e, q') \<Rightarrow> (Inl e, q') | (Inr x, q') \<Rightarrow> f x q')"

definition pipe_href :: "pipeline \<Rightarrow> string \<Rightarrow> string" where
  "pipe_href pp artifact_id = pp_href_prefix pp @ ''/'' @ artifact_id @ ''.json''"

definition pipe_artifact_id :: "string \<Rightarrow> string pm" where
  "pipe_artifact_id kind = (\<lambda>(s, w).
     let next_value = (case dget (ps_counters s) kind of None \<Rightarrow> 0 | Some n \<Rightarrow> n) + 1
     in case dget ARTIFACT_ID_PREFIX kind of
          None \<Rightarrow> (Inl (KeyError kind), s\<lparr>ps_counters := dset kind next_value (ps_counters s)\<rparr>, w)
        | Some pre \<Rightarrow> (Inr (pre @ ''-'' @ zero_pad 4 next_value),
                           s\<lparr>ps_counters := dset kind next_value (ps_counters s)\<rparr>, w))"

definition pipe_decision_id :: "string pm" where
  "pipe_decision_id = stateP (\<lambda>s. (''PD-'' @ zero_pad 4 (ps_decision_seq s + 1), s\<lparr>ps_decision_seq := ps_decision_seq s + 1\<rparr>))"

definition pipe_evidence_id :: "string pm" where
  "pipe_evidence_id = stateP (\<lambda>s. (''EV-'' @ zero_pad 4 (ps_evidence_seq s + 1), s\<lparr>ps_evidence_seq := ps_evidence_seq s + 1\<rparr>))"

definition read_clock :: "pipeline \<Rightarrow> int pm" where
  "read_clock pp = stateP (\<lambda>s. (pp_clock pp (ps_readings s), s\<lparr>ps_readings := ps_readings s + 1\<rparr>))"

definition get_created_at :: "string pm" where
  "get_created_at = stateP (\<lambda>s. (ps_created_at s, s))"

definition issue_for :: "pipeline \<Rightarrow> string \<Rightarrow> string \<Rightarrow> string pm" where
  "issue_for pp tool scope =
     bindP (read_clock pp) (\<lambda>clock.
       liftP (reg_issue (pp_capabilities pp) (pp_run_id pp) tool scope DEFAULT_TTL_SECONDS None clock))"

section \<open>Storing a document\<close>

definition pipe_persist :: "pipeline \<Rightarrow> string \<Rightarrow> string \<Rightarrow> pydict \<Rightarrow> stage_result pm" where
  "pipe_persist pp kind artifact_id document =
     bindP (ioP (readW (\<lambda>fs. validate_artifact (pp_env pp) fs document None))) (\<lambda>errors.
     if errors \<noteq> [] then liftP (Inl (PipelineError (''invalid '' @ kind @ '' artifact: '' @ join ''; '' errors)))
     else
       bindP (issue_for pp ''write_artifact'' ''workspace'') (\<lambda>token.
       bindP get_created_at (\<lambda>created_at.
       bindP pipe_decision_id (\<lambda>decision_id.
       bindP pipe_evidence_id (\<lambda>evidence_id.
       bindP (read_clock pp) (\<lambda>clock.
       bindP (ioP (execute (pp_executor pp) clock
                \<lparr>tc_run_id = pp_run_id pp, tc_token = token, tc_tool = ''write_artifact'',
                 tc_args = [(''document'', PDict document)], tc_scope = ''workspace'', tc_created_at = created_at,
                 tc_decision_id = decision_id, tc_evidence_id = evidence_id, tc_resource = []\<rparr>)) (\<lambda>result.
       if \<not> xr_allowed result
       then liftP (Inl (PipelineError (''write_artifact denied for '' @ artifact_id @ '': '' @ xr_reason result)))
       else
         bindP (stateP (\<lambda>s. ((), s\<lparr>ps_written := dset artifact_id document (ps_written s)\<rparr>))) (\<lambda>_.
           returnP \<lparr>st_stage = kind, st_artifact_type = kind, st_artifact_id = artifact_id,
                    st_decision = xr_decision result, st_evidence = xr_evidence result\<rparr>))))))))"

section \<open>A skill stage\<close>

definition pipe_skill ::
    "pipeline \<Rightarrow> string \<Rightarrow> string \<Rightarrow> context_input list \<Rightarrow> pydict \<Rightarrow> pydict list \<Rightarrow> (stage_result \<times> pydict) pm" where
  "pipe_skill pp skill_name kind inputs bindings links =
     bindP (liftP (skill_get (pp_skills pp) skill_name)) (\<lambda>skill.
     bindP (pipe_artifact_id kind) (\<lambda>artifact_id.
     bindP (issue_for pp (sk_tool_name skill) ''skills'') (\<lambda>token.
     bindP get_created_at (\<lambda>created_at.
     bindP pipe_decision_id (\<lambda>decision_id.
     bindP pipe_evidence_id (\<lambda>evidence_id.
     bindP (read_clock pp) (\<lambda>clock.
     bindP (ioP (skill_run (pp_runner pp) clock
              \<lparr>sc_run_id = pp_run_id pp, sc_token = token, sc_skill_name = skill_name, sc_inputs = inputs,
               sc_bindings = bindings, sc_artifact_id = artifact_id, sc_created_at = created_at,
               sc_decision_id = decision_id, sc_evidence_id = evidence_id, sc_scope = ''skills''\<rparr>)) (\<lambda>result.
     case (if sr_allowed result then sr_artifact result else None) of
       None \<Rightarrow> liftP (Inl (PipelineError (''skill '' @ skill_name @ '' denied: '' @ sr_reason result)))
     | Some artifact \<Rightarrow>
         bindP (liftP (add_links artifact links)) (\<lambda>document.
         bindP (pipe_persist pp kind artifact_id document) (\<lambda>stage.
           returnP (stage, document)))))))))))"

section \<open>The run\<close>

definition approved_input :: "string \<Rightarrow> pydict \<Rightarrow> context_input" where
  "approved_input name document = \<lparr>ci_name = name, ci_document = document, ci_source = ''approved_artifact''\<rparr>"

definition one_link :: "string \<Rightarrow> string \<Rightarrow> pydict list" where
  "one_link rel href = [[(''rel'', PStr rel), (''href'', PStr href)]]"

text \<open>A link to a document by the identifier it holds.\<close>

definition link_to :: "pipeline \<Rightarrow> string \<Rightarrow> pydict \<Rightarrow> pydict list result" where
  "link_to pp rel document =
     bindR (dindex document ''id'') (\<lambda>v. Inr (one_link rel (pipe_href pp (py_str v))))"

definition pipe_idea :: "pipeline \<Rightarrow> pydict \<Rightarrow> (string \<times> stage_result) pm" where
  "pipe_idea pp idea =
     bindP (let v = dget_or idea ''id'' PNone
            in if truthy v then returnP (py_str v) else pipe_artifact_id ''idea'') (\<lambda>idea_id.
     bindP (pipe_persist pp ''idea'' idea_id idea) (\<lambda>stage. returnP (idea_id, stage)))"

definition security_actor :: pydict where
  "security_actor = [(''type'', PStr ''agent''), (''id'', PStr ''security-reviewer''), (''role'', PStr ''security-reviewer'')]"

definition pipe_security_review :: "pipeline \<Rightarrow> string \<Rightarrow> pydict \<Rightarrow> stage_result pm" where
  "pipe_security_review pp created_at threat_model =
     bindP (pipe_artifact_id ''security-review'') (\<lambda>artifact_id.
     bindP (liftP (dindex threat_model ''id'')) (\<lambda>tm_id.
     bindP (liftP (build_security_review (pp_feature_id pp) threat_model artifact_id created_at security_actor
              (pp_run_id pp) (pipe_href pp (py_str tm_id)))) (\<lambda>security_review.
       pipe_persist pp ''security-review'' artifact_id security_review)))"

text \<open>Every stage that follows the idea, then the audit of the chain.\<close>

definition pipe_review :: "pipeline \<Rightarrow> pydict \<Rightarrow> (stage_result \<times> pydict) pm" where
  "pipe_review pp task =
     bindP (liftP (sha256_digest (PDict task))) (\<lambda>task_digest.
     bindP (liftP (dindex task ''id'')) (\<lambda>task_id.
     bindP (liftP (link_to pp ''task'' task)) (\<lambda>links.
       pipe_skill pp ''reviewer'' ''review'' [approved_input ''task'' task]
         [(''feature_id'', PStr (pp_feature_id pp)), (''task_id'', task_id), (''subject_digest'', PStr task_digest)] links)))"

definition pipe_trace :: "pipeline \<Rightarrow> pipe_state \<Rightarrow> traceability result" where
  "pipe_trace pp s =
     trace_feature (pp_set_order pp) (pp_repo_root pp) (pp_feature_id pp)
       (fold (\<lambda>(artifact_id, doc) index. AList.update (art_path (pp_store pp) artifact_id) doc index) (ps_written s) [])"

definition pipe_run :: "pipeline \<Rightarrow> pydict \<Rightarrow> string \<Rightarrow> pipeline_result pm" where
  "pipe_run pp idea created_at =
     bindP (stateP (\<lambda>s. ((), s\<lparr>ps_created_at := created_at\<rparr>))) (\<lambda>_.
     bindP (pipe_idea pp idea) (\<lambda>(idea_id, s1).
     bindP (pipe_skill pp ''grill'' ''specification'' [approved_input ''idea'' idea]
              [(''feature_id'', PStr (pp_feature_id pp))] (one_link ''requirement'' (pipe_href pp idea_id)))
       (\<lambda>(s2, specification).
     bindP (liftP (link_to pp ''requirement'' specification)) (\<lambda>l3.
     bindP (pipe_skill pp ''grill-security'' ''threat-model'' [approved_input ''specification'' specification]
              [(''feature_id'', PStr (pp_feature_id pp))] l3) (\<lambda>(s3, threat_model).
     bindP (liftP (link_to pp ''threat'' threat_model)) (\<lambda>l4.
     bindP (pipe_skill pp ''planner'' ''plan''
              [approved_input ''specification'' specification, approved_input ''threat-model'' threat_model]
              [(''feature_id'', PStr (pp_feature_id pp))] l4) (\<lambda>(s4, plan).
     bindP (liftP (dindex plan ''id'')) (\<lambda>plan_id.
     bindP (liftP (link_to pp ''plan'' plan)) (\<lambda>l5.
     bindP (pipe_skill pp ''task-writer'' ''task''
              [approved_input ''specification'' specification, approved_input ''plan'' plan]
              [(''feature_id'', PStr (pp_feature_id pp)), (''plan_id'', plan_id)] l5) (\<lambda>(s5, task).
     bindP (pipe_security_review pp created_at threat_model) (\<lambda>s6.
     bindP (pipe_review pp task) (\<lambda>(s7, review).
     bindP (stateP (\<lambda>s. (s, s))) (\<lambda>final.
     bindP (liftP (pipe_trace pp final)) (\<lambda>trace.
       returnP \<lparr>pl_feature_id = pp_feature_id pp, pl_run_id = pp_run_id pp, pl_stages = [s1, s2, s3, s4, s5, s6, s7],
                pl_artifacts = ps_written final, pl_trace = trace\<rparr>))))))))))))))"

section \<open>The verdict of the security review\<close>

text \<open>A risk is settled when the platform's rule for its severity is met.\<close>

definition settled :: "pydict \<Rightarrow> bool" where
  "settled risk \<longleftrightarrow>
     (let severity = py_str (dget_or risk ''severity'' (PStr []))
      in (severity \<in> {''critical'', ''high''} \<longrightarrow> truthy (dget_or risk ''verification_test'' PNone))
       \<and> (severity = ''medium'' \<longrightarrow> truthy (dget_or risk ''waiver_id'' PNone)))"

lemma risk_entry_dict:
  "\<exists>disposition entry. risk_entry (PDict d) = Inr (disposition, entry)
     \<and> (disposition = ''open_blocking'' \<longleftrightarrow> \<not> settled d)
     \<and> dget entry ''risk_id'' = Some (dget_or d ''id'' PNone)
     \<and> dget entry ''disposition'' = Some (PStr disposition)"
  by (auto simp: risk_entry_def Let_def risk_disposition_def settled_def)

lemma risk_entry_Inr: "risk_entry v = Inr x \<Longrightarrow> \<exists>d. v = PDict d"
  by (cases v) (auto simp: risk_entry_def)

lemma risk_entries:
  assumes "mapR risk_entry risks = Inr entries"
  shows "\<exists>ds. risks = map PDict ds \<and> length entries = length ds
     \<and> (list_ex (\<lambda>(disposition, entry). disposition = ''open_blocking'') entries \<longleftrightarrow> \<not> list_all settled ds)
     \<and> map (\<lambda>e. dget (snd e) ''risk_id'') entries = map (\<lambda>d. Some (dget_or d ''id'' PNone)) ds"
  using assms
proof (induction risks arbitrary: entries)
  case (Cons v risks)
  from Cons.prems obtain x xs where x: "risk_entry v = Inr x" "mapR risk_entry risks = Inr xs" "entries = x # xs"
    by (auto simp: bindR_eq_Inr)
  then obtain d where v: "v = PDict d" using risk_entry_Inr by blast
  from Cons.IH [OF x(2)] obtain ds where ds: "risks = map PDict ds" "length xs = length ds"
    "list_ex (\<lambda>(disposition, entry). disposition = ''open_blocking'') xs \<longleftrightarrow> \<not> list_all settled ds"
    "map (\<lambda>e. dget (snd e) ''risk_id'') xs = map (\<lambda>d. Some (dget_or d ''id'' PNone)) ds" by blast
  show ?case
    using x ds risk_entry_dict [of d] v by (intro exI [of _ "d # ds"]) auto
qed simp

text \<open>
  C18: the platform's security review approves a threat model exactly when every critical and high risk
  names a verification test and every medium risk a waiver; it lists one disposition per risk, in
  the order of the threat model and under the risk's own identifier. The verdict does not depend
  on anything else in the threat model.
\<close>

theorem security_review_verdict:
  assumes "build_security_review feature_id threat_model artifact_id created_at actor run_id href = Inr document"
  shows "\<exists>risks entries. val_iter (dget_or threat_model ''risks'' (PList [])) = Inr (map PDict risks)
     \<and> dget document ''verdict'' = Some (PStr (if list_all settled risks then ''approved'' else ''changes_requested''))
     \<and> dget document ''risk_dispositions'' = Some (PList (map PDict entries))
     \<and> map (\<lambda>e. dget e ''risk_id'') entries = map (\<lambda>d. Some (dget_or d ''id'' PNone)) risks"
proof -
  from assms obtain vs entries where e: "val_iter (dget_or threat_model ''risks'' (PList [])) = Inr vs"
      "mapR risk_entry vs = Inr entries"
      and doc: "dget document ''verdict'' = Some (PStr (if list_ex (\<lambda>(disposition, entry). disposition = ''open_blocking'') entries
         then ''changes_requested'' else ''approved''))"
      "dget document ''risk_dispositions'' = Some (PList (map (PDict \<circ> snd) entries))"
    unfolding build_security_review_def bindR_eq_Inr Let_def by auto
  from risk_entries [OF e(2)] obtain ds where "vs = map PDict ds"
      "list_ex (\<lambda>(disposition, entry). disposition = ''open_blocking'') entries \<longleftrightarrow> \<not> list_all settled ds"
      "map (\<lambda>e. dget (snd e) ''risk_id'') entries = map (\<lambda>d. Some (dget_or d ''id'' PNone)) ds" by blast
  with e(1) doc show ?thesis by (intro exI [of _ ds] exI [of _ "map snd entries"]) (simp add: comp_def)
qed

definition demo_threats :: pydict where
  "demo_threats = [(''id'', PStr ''TM-1''), (''risks'', PList [
     PDict [(''id'', PStr ''R1''), (''severity'', PStr ''high''), (''verification_test'', PStr ''t'')],
     PDict [(''id'', PStr ''R2''), (''severity'', PStr ''medium'')]])]"

theorem security_review_verdict_witness:
  "\<exists>document. build_security_review ''FEAT-1'' demo_threats ''SECREV-0001'' ''T'' [] ''RUN-1'' ''specs/TM-1.json'' = Inr document
     \<and> dget document ''verdict'' = Some (PStr ''changes_requested'')"
proof -
  have "\<exists>document. build_security_review ''FEAT-1'' demo_threats ''SECREV-0001'' ''T'' [] ''RUN-1'' ''specs/TM-1.json'' = Inr document"
    by (simp add: build_security_review_def demo_threats_def risk_entry_def Let_def)
  then obtain document where d: "build_security_review ''FEAT-1'' demo_threats ''SECREV-0001'' ''T'' [] ''RUN-1'' ''specs/TM-1.json'' = Inr document"
    by blast
  obtain risks where r: "val_iter (dget_or demo_threats ''risks'' (PList [])) = Inr (map PDict risks)"
    "dget document ''verdict'' = Some (PStr (if list_all settled risks then ''approved'' else ''changes_requested''))"
    using security_review_verdict [OF d] by blast
  have "map PDict risks = map PDict [[(''id'', PStr ''R1''), (''severity'', PStr ''high''), (''verification_test'', PStr ''t'')],
     [(''id'', PStr ''R2''), (''severity'', PStr ''medium'')]]"
    using r(1) by (simp add: demo_threats_def)
  then have "risks = [[(''id'', PStr ''R1''), (''severity'', PStr ''high''), (''verification_test'', PStr ''t'')],
     [(''id'', PStr ''R2''), (''severity'', PStr ''medium'')]]"
    by (rule map_injective) (simp add: inj_def)
  then have "\<not> list_all settled risks" by (simp add: settled_def)
  with d r(2) show ?thesis by auto
qed

section \<open>Reasoning about steps\<close>

lemma bindP_Inr: "bindP m f q = (Inr y, q') \<longleftrightarrow> (\<exists>x q1. m q = (Inr x, q1) \<and> f x q1 = (Inr y, q'))"
  by (auto simp: bindP_def split: prod.splits sum.splits)

lemma step_simps [simp]:
  "returnP x (s, w) = (Inr x, s, w)" "liftP r (s, w) = (r, s, w)" "stateP g (s, w) = (Inr (fst (g s)), snd (g s), w)"
  "bindP (liftP (Inr x)) f = f x" "bindP (liftP (Inl e)) f = liftP (Inl e)"
  by (auto simp: returnP_def liftP_def stateP_def bindP_def fun_eq_iff split: prod.splits)

lemma ioP_Inr: "ioP m (s, w) = (Inr x, s', w') \<longleftrightarrow> m w = (Inr x, w') \<and> s' = s"
  by (auto simp: ioP_def split: prod.splits)

lemma bindP_state [simp]: "bindP (stateP g) f (s, w) = f (fst (g s)) (snd (g s), w)"
  by (simp add: bindP_def)

lemma bindP_io: "bindP (ioP m) f (s, w) = (case m w of (Inl e, w') \<Rightarrow> (Inl e, s, w') | (Inr x, w') \<Rightarrow> f x (s, w'))"
  by (auto simp: bindP_def ioP_def split: prod.splits sum.splits)

text \<open>What it takes to store a document: it is valid, and the call of \<open>write_artifact\<close> passed the gates and
  returned.\<close>

definition stored :: "pipeline \<Rightarrow> pydict \<Rightarrow> bool" where
  "stored pp document \<longleftrightarrow> (\<exists>w clock call run pr spec outp w1.
     validate_artifact (pp_env pp) (w_fs w) document None = Inr []
   \<and> tc_run_id call = pp_run_id pp \<and> tc_tool call = ''write_artifact'' \<and> tc_scope call = ''workspace''
   \<and> tc_args call = [(''document'', PDict document)]
   \<and> gates_passed (pp_executor pp) clock call run pr spec
   \<and> ts_handler spec (tc_args call) w = (Inr outp, w1))"

lemma allowed_gates:
  assumes "execute ex clock call w = (Inr res, w')" "xr_allowed res"
  obtains run pr spec outp w1 where "gates_passed ex clock call run pr spec" "ts_handler spec (tc_args call) w = (Inr outp, w1)"
proof (cases rule: execute_cases [of ex clock call w])
  case (raised e)
  then show ?thesis using assms by simp
next
  case (refused why run pr)
  then show ?thesis using assms deny_Inr by metis
next
  case (ran run pr spec)
  with assms have "run_handler ex call spec (r_actor run) (decision_of call (r_actor run) pr) w = (Inr res, w')" by simp
  then show ?thesis by (cases rule: run_handler_Inr) (use assms(2) ran(1) that in blast)+
qed

definition numbered :: "string \<Rightarrow> nat \<Rightarrow> pydict \<Rightarrow> bool" where
  "numbered pre n document \<longleftrightarrow> dget document ''id'' = Some (PStr (pre @ zero_pad 4 n))"

lemma pipe_persist_Inr:
  assumes "pipe_persist pp kind artifact_id document (s, w) = (Inr st, s', w')"
  shows "st_stage st = kind \<and> st_artifact_id st = artifact_id
    \<and> numbered ''PD-'' (ps_decision_seq s + 1) (st_decision st) \<and> numbered ''EV-'' (ps_evidence_seq s + 1) (st_evidence st)
    \<and> ps_decision_seq s' = ps_decision_seq s + 1 \<and> ps_evidence_seq s' = ps_evidence_seq s + 1
    \<and> ps_counters s' = ps_counters s \<and> ps_created_at s' = ps_created_at s
    \<and> ps_written s' = dset artifact_id document (ps_written s) \<and> stored pp document"
proof -
  from assms obtain token clock call res where v: "validate_artifact (pp_env pp) (w_fs w) document None = Inr []"
      and call: "call = \<lparr>tc_run_id = pp_run_id pp, tc_token = token, tc_tool = ''write_artifact'',
         tc_args = [(''document'', PDict document)], tc_scope = ''workspace'', tc_created_at = ps_created_at s,
         tc_decision_id = ''PD-'' @ zero_pad 4 (ps_decision_seq s + 1), tc_evidence_id = ''EV-'' @ zero_pad 4 (ps_evidence_seq s + 1),
         tc_resource = []\<rparr>"
      and x: "execute (pp_executor pp) clock call w = (Inr res, w')" "xr_allowed res"
      and st: "st = \<lparr>st_stage = kind, st_artifact_type = kind, st_artifact_id = artifact_id,
                    st_decision = xr_decision res, st_evidence = xr_evidence res\<rparr>"
      and s': "ps_decision_seq s' = ps_decision_seq s + 1" "ps_evidence_seq s' = ps_evidence_seq s + 1"
        "ps_counters s' = ps_counters s" "ps_created_at s' = ps_created_at s"
        "ps_written s' = dset artifact_id document (ps_written s)"
    unfolding pipe_persist_def issue_for_def read_clock_def get_created_at_def pipe_decision_id_def pipe_evidence_id_def bindP_io
    by (auto simp: readW_def bindP_Inr ioP_Inr split: if_splits sum.splits prod.splits)
  obtain actor pr detail where "xr_decision res = decision_of call actor pr"
    "recorded (pp_executor pp) call detail actor (xr_evidence res) w'"
    using returned_recorded [OF x(1)] unfolding if_P [OF x(2)] by blast
  then have "numbered ''PD-'' (ps_decision_seq s + 1) (st_decision st)" "numbered ''EV-'' (ps_evidence_seq s + 1) (st_evidence st)"
    by (auto simp: numbered_def st call recorded_def Let_def build_policy_decision_def)
  moreover obtain run pr spec outp w1 where g: "gates_passed (pp_executor pp) clock call run pr spec"
      "ts_handler spec (tc_args call) w = (Inr outp, w1)" using allowed_gates [OF x] .
  have "tc_run_id call = pp_run_id pp" "tc_tool call = ''write_artifact''" "tc_scope call = ''workspace''"
    "tc_args call = [(''document'', PDict document)]" by (simp_all add: call)
  with v g have "stored pp document" unfolding stored_def by blast
  ultimately show ?thesis using st s' by simp
qed

lemma pipe_artifact_id_Inr:
  assumes "pipe_artifact_id kind (s, w) = (Inr aid, s', w')"
  shows "\<exists>pre. dget ARTIFACT_ID_PREFIX kind = Some pre
    \<and> aid = pre @ ''-'' @ zero_pad 4 ((case dget (ps_counters s) kind of None \<Rightarrow> 0 | Some n \<Rightarrow> n) + 1)
    \<and> s' = s\<lparr>ps_counters := dset kind ((case dget (ps_counters s) kind of None \<Rightarrow> 0 | Some n \<Rightarrow> n) + 1) (ps_counters s)\<rparr>
    \<and> w' = w"
  using assms by (auto simp: pipe_artifact_id_def Let_def split: option.splits)

text \<open>A document that the named skill produced from the given inputs, with the given links added.\<close>

definition produced_by :: "pipeline \<Rightarrow> string \<Rightarrow> context_input list \<Rightarrow> string \<Rightarrow> pydict list \<Rightarrow> pydict \<Rightarrow> bool" where
  "produced_by pp skill_name inputs artifact_id links document \<longleftrightarrow> (\<exists>clock call w res w' artifact.
     skill_run (pp_runner pp) clock call w = (Inr res, w') \<and> sr_allowed res \<and> sr_artifact res = Some artifact
   \<and> sc_run_id call = pp_run_id pp \<and> sc_skill_name call = skill_name \<and> sc_inputs call = inputs \<and> sc_artifact_id call = artifact_id
   \<and> add_links artifact links = Inr document)"

lemma first_number: "zero_pad 4 1 = ''0001''"
  by code_simp

lemma skill_stage:
  assumes "pipe_skill pp skill_name kind inputs bindings links (s, w) = (Inr (st, document), s', w')"
  obtains aid s1 s2 clock call res w1 artifact where "pipe_artifact_id kind (s, w) = (Inr aid, s1, w)"
    "skill_run (pp_runner pp) clock call w = (Inr res, w1)" "sr_allowed res" "sr_artifact res = Some artifact"
    "sc_run_id call = pp_run_id pp" "sc_skill_name call = skill_name" "sc_inputs call = inputs" "sc_artifact_id call = aid"
    "add_links artifact links = Inr document" "pipe_persist pp kind aid document (s2, w1) = (Inr st, s', w')"
    "ps_decision_seq s2 = ps_decision_seq s1 + 1" "ps_evidence_seq s2 = ps_evidence_seq s1 + 1"
    "ps_counters s2 = ps_counters s1" "ps_written s2 = ps_written s1"
proof -
  let ?skill = "\<lambda>clock token s1 aid. skill_run (pp_runner pp) clock
      \<lparr>sc_run_id = pp_run_id pp, sc_token = token, sc_skill_name = skill_name, sc_inputs = inputs,
       sc_bindings = bindings, sc_artifact_id = aid, sc_created_at = ps_created_at s1,
       sc_decision_id = ''PD-'' @ zero_pad 4 (ps_decision_seq s1 + 1), sc_evidence_id = ''EV-'' @ zero_pad 4 (ps_evidence_seq s1 + 1),
       sc_scope = ''skills''\<rparr>"
  let ?s2 = "\<lambda>s1. s1\<lparr>ps_decision_seq := ps_decision_seq s1 + 1, ps_evidence_seq := ps_evidence_seq s1 + 1, ps_readings := ps_readings s1 + 2\<rparr>"
  from assms obtain skill aid s1 w0 token res w1 where a: "pipe_artifact_id kind (s, w) = (Inr aid, s1, w0)"
      and r: "?skill (pp_clock pp (ps_readings s1 + 1)) token s1 aid w0 = (Inr res, w1)"
      and rest: "(case (if sr_allowed res then sr_artifact res else None) of
       None \<Rightarrow> liftP (Inl (PipelineError (''skill '' @ skill_name @ '' denied: '' @ sr_reason res)))
     | Some artifact \<Rightarrow>
         bindP (liftP (add_links artifact links)) (\<lambda>document.
         bindP (pipe_persist pp kind aid document) (\<lambda>stage. returnP (stage, document)))) (?s2 s1, w1) = (Inr (st, document), s', w')"
    unfolding pipe_skill_def issue_for_def read_clock_def get_created_at_def pipe_decision_id_def pipe_evidence_id_def
    by (auto simp: bindP_Inr ioP_Inr)
  have w0: "w0 = w" using pipe_artifact_id_Inr [OF a] by blast
  from rest obtain artifact where al: "sr_allowed res" "sr_artifact res = Some artifact" "add_links artifact links = Inr document"
      "pipe_persist pp kind aid document (?s2 s1, w1) = (Inr st, s', w')"
    by (auto simp: bindP_Inr split: option.splits if_splits)
  show ?thesis
    by (rule that [OF a [unfolded w0] r [unfolded w0] al(1,2) _ _ _ _ al(3,4)]) simp_all
qed

lemma pipe_skill_Inr:
  assumes "pipe_skill pp skill_name kind inputs bindings links (s, w) = (Inr (st, document), s', w')"
    and "dget (ps_counters s) kind = None"
  shows "\<exists>pre. dget ARTIFACT_ID_PREFIX kind = Some pre \<and> st_artifact_id st = pre @ ''-0001''
    \<and> st_stage st = kind
    \<and> numbered ''PD-'' (ps_decision_seq s + 2) (st_decision st) \<and> numbered ''EV-'' (ps_evidence_seq s + 2) (st_evidence st)
    \<and> ps_decision_seq s' = ps_decision_seq s + 2 \<and> ps_evidence_seq s' = ps_evidence_seq s + 2
    \<and> ps_counters s' = dset kind 1 (ps_counters s)
    \<and> ps_written s' = dset (st_artifact_id st) document (ps_written s) \<and> stored pp document
    \<and> produced_by pp skill_name inputs (st_artifact_id st) links document"
  using assms(1)
proof (rule skill_stage)
  fix aid s1 s2 clock call res w1 artifact
  assume a: "pipe_artifact_id kind (s, w) = (Inr aid, s1, w)"
    and r: "skill_run (pp_runner pp) clock call w = (Inr res, w1)" "sr_allowed res" "sr_artifact res = Some artifact"
      "sc_run_id call = pp_run_id pp" "sc_skill_name call = skill_name" "sc_inputs call = inputs" "sc_artifact_id call = aid"
      "add_links artifact links = Inr document"
    and p: "pipe_persist pp kind aid document (s2, w1) = (Inr st, s', w')"
    and s2: "ps_decision_seq s2 = ps_decision_seq s1 + 1" "ps_evidence_seq s2 = ps_evidence_seq s1 + 1"
      "ps_counters s2 = ps_counters s1" "ps_written s2 = ps_written s1"
  from pipe_artifact_id_Inr [OF a] assms(2) first_number
  obtain pre where pre: "dget ARTIFACT_ID_PREFIX kind = Some pre" "aid = pre @ ''-0001''"
      "s1 = s\<lparr>ps_counters := dset kind 1 (ps_counters s)\<rparr>" by auto
  have "produced_by pp skill_name inputs aid links document" unfolding produced_by_def using r by blast
  with pipe_persist_Inr [OF p] pre s2 show ?thesis by (intro exI [of _ pre]) auto
qed

section \<open>A completed run\<close>

lemma pipe_run_stages:
  assumes "pipe_run pp idea created_at (s, w) = (Inr res, s', w')"
  obtains idea_id st1 sp1 w1 st2 spec sp2 w2 l3 st3 tm sp3 w3 l4 st4 plan sp4 w4 plan_id l5 st5 task sp5 w5
    st6 sp6 w6 st7 review trace
  where "pipe_idea pp idea (s\<lparr>ps_created_at := created_at\<rparr>, w) = (Inr (idea_id, st1), sp1, w1)"
    "pipe_skill pp ''grill'' ''specification'' [approved_input ''idea'' idea] [(''feature_id'', PStr (pp_feature_id pp))]
       (one_link ''requirement'' (pipe_href pp idea_id)) (sp1, w1) = (Inr (st2, spec), sp2, w2)"
    "link_to pp ''requirement'' spec = Inr l3"
    "pipe_skill pp ''grill-security'' ''threat-model'' [approved_input ''specification'' spec]
       [(''feature_id'', PStr (pp_feature_id pp))] l3 (sp2, w2) = (Inr (st3, tm), sp3, w3)"
    "link_to pp ''threat'' tm = Inr l4"
    "pipe_skill pp ''planner'' ''plan'' [approved_input ''specification'' spec, approved_input ''threat-model'' tm]
       [(''feature_id'', PStr (pp_feature_id pp))] l4 (sp3, w3) = (Inr (st4, plan), sp4, w4)"
    "link_to pp ''plan'' plan = Inr l5"
    "pipe_skill pp ''task-writer'' ''task'' [approved_input ''specification'' spec, approved_input ''plan'' plan]
       [(''feature_id'', PStr (pp_feature_id pp)), (''plan_id'', plan_id)] l5 (sp4, w4) = (Inr (st5, task), sp5, w5)"
    "pipe_security_review pp created_at tm (sp5, w5) = (Inr st6, sp6, w6)"
    "pipe_review pp task (sp6, w6) = (Inr (st7, review), s', w')"
    "pipe_trace pp s' = Inr trace"
    "res = \<lparr>pl_feature_id = pp_feature_id pp, pl_run_id = pp_run_id pp, pl_stages = [st1, st2, st3, st4, st5, st6, st7],
              pl_artifacts = ps_written s', pl_trace = trace\<rparr>"
  using assms
  by (simp only: pipe_run_def bindP_state fst_conv snd_conv)
    (auto simp only: bindP_Inr split_paired_Ex prod.case step_simps fst_conv snd_conv prod.inject sum.inject)

lemma pipe_idea_Inr:
  assumes "pipe_idea pp idea (s, w) = (Inr (idea_id, st), s', w')"
  shows "st_stage st = ''idea'' \<and> st_artifact_id st = idea_id
    \<and> numbered ''PD-'' (ps_decision_seq s + 1) (st_decision st) \<and> numbered ''EV-'' (ps_evidence_seq s + 1) (st_evidence st)
    \<and> ps_decision_seq s' = ps_decision_seq s + 1 \<and> ps_evidence_seq s' = ps_evidence_seq s + 1
    \<and> (\<forall>kind. kind \<noteq> ''idea'' \<longrightarrow> dget (ps_counters s') kind = dget (ps_counters s) kind)
    \<and> ps_written s' = dset idea_id idea (ps_written s) \<and> stored pp idea"
proof -
  from assms obtain s1 w1 where n: "(let v = dget_or idea ''id'' PNone
            in if truthy v then returnP (py_str v) else pipe_artifact_id ''idea'') (s, w) = (Inr idea_id, s1, w1)"
      and p: "pipe_persist pp ''idea'' idea_id idea (s1, w1) = (Inr st, s', w')"
    by (auto simp: pipe_idea_def bindP_Inr)
  have "ps_decision_seq s1 = ps_decision_seq s \<and> ps_evidence_seq s1 = ps_evidence_seq s \<and> ps_written s1 = ps_written s
      \<and> (\<forall>kind. kind \<noteq> ''idea'' \<longrightarrow> dget (ps_counters s1) kind = dget (ps_counters s) kind)"
    using n by (auto simp: Let_def dest!: pipe_artifact_id_Inr split: if_splits)
  with pipe_persist_Inr [OF p] show ?thesis by simp
qed

lemma pipe_security_review_Inr:
  assumes "pipe_security_review pp created_at tm (s, w) = (Inr st, s', w')"
    and "dget (ps_counters s) ''security-review'' = None"
  obtains tm_id document where "st_stage st = ''security-review''" "st_artifact_id st = ''SECREV-0001''"
    "numbered ''PD-'' (ps_decision_seq s + 1) (st_decision st)" "numbered ''EV-'' (ps_evidence_seq s + 1) (st_evidence st)"
    "ps_decision_seq s' = ps_decision_seq s + 1" "ps_evidence_seq s' = ps_evidence_seq s + 1"
    "ps_counters s' = dset ''security-review'' 1 (ps_counters s)"
    "ps_written s' = dset ''SECREV-0001'' document (ps_written s)" "stored pp document" "dget tm ''id'' = Some tm_id"
    "build_security_review (pp_feature_id pp) tm ''SECREV-0001'' created_at security_actor (pp_run_id pp) (pipe_href pp (py_str tm_id))
       = Inr document"
proof -
  from assms(1) obtain aid s1 w1 tm_id document where a: "pipe_artifact_id ''security-review'' (s, w) = (Inr aid, s1, w1)"
      and d: "dindex tm ''id'' = Inr tm_id" "build_security_review (pp_feature_id pp) tm aid created_at security_actor (pp_run_id pp)
        (pipe_href pp (py_str tm_id)) = Inr document"
      and p: "pipe_persist pp ''security-review'' aid document (s1, w1) = (Inr st, s', w')"
    by (auto simp: pipe_security_review_def bindP_Inr)
  from pipe_artifact_id_Inr [OF a] assms(2) first_number
  have "aid = ''SECREV-0001''" "s1 = s\<lparr>ps_counters := dset ''security-review'' 1 (ps_counters s)\<rparr>"
    by (auto simp: ARTIFACT_ID_PREFIX_def)
  with pipe_persist_Inr [OF p] d that show ?thesis by (simp add: dindex_Inr)
qed

lemma pipe_review_Inr:
  assumes "pipe_review pp task (s, w) = (Inr (st, document), s', w')"
  obtains digest task_id links where "sha256_digest (PDict task) = Inr digest" "dget task ''id'' = Some task_id"
    "link_to pp ''task'' task = Inr links"
    "pipe_skill pp ''reviewer'' ''review'' [approved_input ''task'' task]
       [(''feature_id'', PStr (pp_feature_id pp)), (''task_id'', task_id), (''subject_digest'', PStr digest)] links (s, w)
     = (Inr (st, document), s', w')"
  using assms by (auto simp: pipe_review_def bindP_Inr dindex_Inr)

text \<open>A document of the chain: produced by its skill from its inputs, linked to the document before it,
  and stored.\<close>

definition chained :: "pipeline \<Rightarrow> string \<Rightarrow> context_input list \<Rightarrow> string \<Rightarrow> string \<Rightarrow> pydict \<Rightarrow> pydict \<Rightarrow> bool" where
  "chained pp skill_name inputs artifact_id rel before document \<longleftrightarrow>
     (\<exists>links. link_to pp rel before = Inr links \<and> produced_by pp skill_name inputs artifact_id links document) \<and> stored pp document"

definition stage_ok :: "string \<Rightarrow> string \<Rightarrow> nat \<Rightarrow> stage_result \<Rightarrow> bool" where
  "stage_ok kind artifact_id n st \<longleftrightarrow> st_stage st = kind \<and> st_artifact_id st = artifact_id
     \<and> numbered ''PD-'' n (st_decision st) \<and> numbered ''EV-'' n (st_evidence st)"

text \<open>The state after a stage that used up the numbers below \<open>n\<close> and the given kinds.\<close>

definition reached :: "nat \<Rightarrow> string list \<Rightarrow> pydict dict \<Rightarrow> pipe_state \<Rightarrow> bool" where
  "reached n kinds written s \<longleftrightarrow> ps_decision_seq s = n \<and> ps_evidence_seq s = n \<and> ps_written s = written
     \<and> (\<forall>kind. kind \<notin> set kinds \<longrightarrow> dget (ps_counters s) kind = None)"

lemma reached_idea:
  assumes "pipe_idea pp idea (new_pipe_state\<lparr>ps_created_at := t\<rparr>, w) = (Inr (idea_id, st), s', w')"
  shows "reached 1 [''idea''] [(idea_id, idea)] s' \<and> stage_ok ''idea'' idea_id 1 st \<and> stored pp idea"
  using pipe_idea_Inr [OF assms] by (simp add: reached_def stage_ok_def new_pipe_state_def)

lemma reached_skill:
  assumes "pipe_skill pp skill_name kind inputs bindings links (s, w) = (Inr (st, document), s', w')"
    and "reached n kinds written s" "kind \<notin> set kinds" "dget ARTIFACT_ID_PREFIX kind = Some pre"
    and "m = n + 2" "aid = pre @ ''-0001''"
  shows "reached m (kind # kinds) (dset aid document written) s'
    \<and> stage_ok kind aid m st \<and> stored pp document \<and> produced_by pp skill_name inputs aid links document"
proof -
  have "dget (ps_counters s) kind = None" using assms(2,3) by (simp add: reached_def)
  from pipe_skill_Inr [OF assms(1) this] assms(2,4-6) show ?thesis by (auto simp: reached_def stage_ok_def)
qed

lemma reached_security_review:
  assumes "pipe_security_review pp created_at tm (s, w) = (Inr st, s', w')"
    and "reached n kinds written s" "''security-review'' \<notin> set kinds" "m = n + 1"
  obtains tm_id document where "reached m (''security-review'' # kinds) (dset ''SECREV-0001'' document written) s'"
    "stage_ok ''security-review'' ''SECREV-0001'' m st" "stored pp document" "dget tm ''id'' = Some tm_id"
    "build_security_review (pp_feature_id pp) tm ''SECREV-0001'' created_at security_actor (pp_run_id pp) (pipe_href pp (py_str tm_id))
       = Inr document"
proof -
  have "dget (ps_counters s) ''security-review'' = None" using assms(2,3) by (simp add: reached_def)
  with assms(1) show ?thesis
    by (rule pipe_security_review_Inr) (rule that, insert assms(2,4), auto simp: reached_def stage_ok_def)
qed

text \<open>
  Everything a completed run established, and the documents it returns.
\<close>

definition completed_run ::
    "pipeline \<Rightarrow> string \<Rightarrow> string \<Rightarrow> pydict \<Rightarrow> pydict \<Rightarrow> pydict \<Rightarrow> pydict \<Rightarrow> pydict \<Rightarrow> pydict \<Rightarrow> pydict \<Rightarrow> pipeline_result \<Rightarrow> bool" where
  "completed_run pp created_at idea_id idea spec tm plan task secrev review res \<longleftrightarrow>
     list_all2 (\<lambda>(kind, aid, n) st. stage_ok kind aid n st)
       [(''idea'', idea_id, 1), (''specification'', ''SPEC-0001'', 3), (''threat-model'', ''TM-0001'', 5), (''plan'', ''PLAN-0001'', 7),
        (''task'', ''TASK-0001'', 9), (''security-review'', ''SECREV-0001'', 10), (''review'', ''REV-0001'', 12)] (pl_stages res)
   \<and> pl_artifacts res = dset ''REV-0001'' review (dset ''SECREV-0001'' secrev (dset ''TASK-0001'' task (dset ''PLAN-0001'' plan
        (dset ''TM-0001'' tm (dset ''SPEC-0001'' spec [(idea_id, idea)])))))
   \<and> stored pp idea
   \<and> produced_by pp ''grill'' [approved_input ''idea'' idea] ''SPEC-0001'' (one_link ''requirement'' (pipe_href pp idea_id)) spec \<and> stored pp spec
   \<and> chained pp ''grill-security'' [approved_input ''specification'' spec] ''TM-0001'' ''requirement'' spec tm
   \<and> chained pp ''planner'' [approved_input ''specification'' spec, approved_input ''threat-model'' tm] ''PLAN-0001'' ''threat'' tm plan
   \<and> chained pp ''task-writer'' [approved_input ''specification'' spec, approved_input ''plan'' plan] ''TASK-0001'' ''plan'' plan task
   \<and> (\<exists>tm_id. dget tm ''id'' = Some tm_id \<and> build_security_review (pp_feature_id pp) tm ''SECREV-0001'' created_at security_actor
          (pp_run_id pp) (pipe_href pp (py_str tm_id)) = Inr secrev) \<and> stored pp secrev
   \<and> chained pp ''reviewer'' [approved_input ''task'' task] ''REV-0001'' ''task'' task review"

lemma run_completed:
  assumes "pipe_run pp idea created_at (new_pipe_state, w) = (Inr res, s', w')"
  shows "\<exists>idea_id spec tm plan task secrev review. completed_run pp created_at idea_id idea spec tm plan task secrev review res"
  using assms
proof (rule pipe_run_stages)
  fix idea_id st1 sp1 w1 st2 spec sp2 w2 l3 st3 tm sp3 w3 l4 st4 plan sp4 w4 plan_id l5 st5 task sp5 w5
    st6 sp6 w6 st7 review trace
  assume i: "pipe_idea pp idea (new_pipe_state\<lparr>ps_created_at := created_at\<rparr>, w) = (Inr (idea_id, st1), sp1, w1)"
    and k2: "pipe_skill pp ''grill'' ''specification'' [approved_input ''idea'' idea] [(''feature_id'', PStr (pp_feature_id pp))]
       (one_link ''requirement'' (pipe_href pp idea_id)) (sp1, w1) = (Inr (st2, spec), sp2, w2)"
    and k3: "pipe_skill pp ''grill-security'' ''threat-model'' [approved_input ''specification'' spec]
       [(''feature_id'', PStr (pp_feature_id pp))] l3 (sp2, w2) = (Inr (st3, tm), sp3, w3)"
    and k4: "pipe_skill pp ''planner'' ''plan'' [approved_input ''specification'' spec, approved_input ''threat-model'' tm]
       [(''feature_id'', PStr (pp_feature_id pp))] l4 (sp3, w3) = (Inr (st4, plan), sp4, w4)"
    and k5: "pipe_skill pp ''task-writer'' ''task'' [approved_input ''specification'' spec, approved_input ''plan'' plan]
       [(''feature_id'', PStr (pp_feature_id pp)), (''plan_id'', plan_id)] l5 (sp4, w4) = (Inr (st5, task), sp5, w5)"
    and l: "link_to pp ''requirement'' spec = Inr l3" "link_to pp ''threat'' tm = Inr l4" "link_to pp ''plan'' plan = Inr l5"
    and k6: "pipe_security_review pp created_at tm (sp5, w5) = (Inr st6, sp6, w6)"
    and k7: "pipe_review pp task (sp6, w6) = (Inr (st7, review), s', w')"
    and res: "res = \<lparr>pl_feature_id = pp_feature_id pp, pl_run_id = pp_run_id pp, pl_stages = [st1, st2, st3, st4, st5, st6, st7],
              pl_artifacts = ps_written s', pl_trace = trace\<rparr>"
  note r1 = reached_idea [OF i]
  have p: "dget ARTIFACT_ID_PREFIX ''specification'' = Some ''SPEC''" "dget ARTIFACT_ID_PREFIX ''threat-model'' = Some ''TM''"
    "dget ARTIFACT_ID_PREFIX ''plan'' = Some ''PLAN''" "dget ARTIFACT_ID_PREFIX ''task'' = Some ''TASK''"
    "dget ARTIFACT_ID_PREFIX ''review'' = Some ''REV''" by (simp_all add: ARTIFACT_ID_PREFIX_def)
  let ?a2 = "dset ''SPEC-0001'' spec [(idea_id, idea)]"
  let ?a3 = "dset ''TM-0001'' tm ?a2"
  let ?a4 = "dset ''PLAN-0001'' plan ?a3"
  let ?a5 = "dset ''TASK-0001'' task ?a4"
  have r2: "reached 3 [''specification'', ''idea''] ?a2 sp2
      \<and> stage_ok ''specification'' ''SPEC-0001'' 3 st2 \<and> stored pp spec
      \<and> produced_by pp ''grill'' [approved_input ''idea'' idea] ''SPEC-0001'' (one_link ''requirement'' (pipe_href pp idea_id)) spec"
    by (rule reached_skill [OF k2 conjunct1 [OF r1] _ p(1)]) simp_all
  have r3: "reached 5 [''threat-model'', ''specification'', ''idea''] ?a3 sp3
      \<and> stage_ok ''threat-model'' ''TM-0001'' 5 st3 \<and> stored pp tm \<and> produced_by pp ''grill-security'' [approved_input ''specification'' spec] ''TM-0001'' l3 tm"
    by (rule reached_skill [OF k3 conjunct1 [OF r2] _ p(2)]) simp_all
  have r4: "reached 7 [''plan'', ''threat-model'', ''specification'', ''idea''] ?a4 sp4
      \<and> stage_ok ''plan'' ''PLAN-0001'' 7 st4 \<and> stored pp plan \<and> produced_by pp ''planner'' [approved_input ''specification'' spec, approved_input ''threat-model'' tm] ''PLAN-0001'' l4 plan"
    by (rule reached_skill [OF k4 conjunct1 [OF r3] _ p(3)]) simp_all
  have r5: "reached 9 [''task'', ''plan'', ''threat-model'', ''specification'', ''idea''] ?a5 sp5
      \<and> stage_ok ''task'' ''TASK-0001'' 9 st5 \<and> stored pp task \<and> produced_by pp ''task-writer'' [approved_input ''specification'' spec, approved_input ''plan'' plan] ''TASK-0001'' l5 task"
    by (rule reached_skill [OF k5 conjunct1 [OF r4] _ p(4)]) simp_all
  obtain tm_id secrev where r6: "reached 10 [''security-review'', ''task'', ''plan'', ''threat-model'', ''specification'', ''idea'']
        (dset ''SECREV-0001'' secrev ?a5) sp6" "stage_ok ''security-review'' ''SECREV-0001'' 10 st6" "stored pp secrev"
      "dget tm ''id'' = Some tm_id" "build_security_review (pp_feature_id pp) tm ''SECREV-0001'' created_at security_actor
        (pp_run_id pp) (pipe_href pp (py_str tm_id)) = Inr secrev"
    by (rule reached_security_review [OF k6 conjunct1 [OF r5], where m = 10]) simp_all
  obtain digest task_id l7 where l7: "link_to pp ''task'' task = Inr l7"
      and k7': "pipe_skill pp ''reviewer'' ''review'' [approved_input ''task'' task]
       [(''feature_id'', PStr (pp_feature_id pp)), (''task_id'', task_id), (''subject_digest'', PStr digest)] l7 (sp6, w6)
     = (Inr (st7, review), s', w')" using pipe_review_Inr [OF k7] by blast
  have r7: "reached 12 [''review'', ''security-review'', ''task'', ''plan'', ''threat-model'', ''specification'', ''idea'']
        (dset ''REV-0001'' review (dset ''SECREV-0001'' secrev ?a5)) s'
      \<and> stage_ok ''review'' ''REV-0001'' 12 st7 \<and> stored pp review \<and> produced_by pp ''reviewer'' [approved_input ''task'' task] ''REV-0001'' l7 review"
    by (rule reached_skill [OF k7' r6(1) _ p(5)]) simp_all
  have "completed_run pp created_at idea_id idea spec tm plan task secrev review res"
    unfolding completed_run_def chained_def
  proof (intro conjI)
    show "pl_artifacts res = dset ''REV-0001'' review (dset ''SECREV-0001'' secrev ?a5)"
      using r7 by (simp only: reached_def res pipeline_result.simps)
  qed (use r1 r2 r3 r4 r5 r6 r7 l l7 res in \<open>blast | simp\<close>)+
  then show ?thesis by blast
qed

section \<open>What is written, whatever the outcome\<close>

definition all_stored :: "pipeline \<Rightarrow> pipe_state \<Rightarrow> bool" where
  "all_stored pp s \<longleftrightarrow> list_all (\<lambda>(artifact_id, document). stored pp document) (ps_written s)"

definition keeps :: "(pipe_state \<Rightarrow> bool) \<Rightarrow> 'a pm \<Rightarrow> bool" where
  "keeps I m \<longleftrightarrow> (\<forall>s w. I s \<longrightarrow> I (fst (snd (m (s, w)))))"

lemma keeps_simps [simp]:
  "keeps I (returnP x)" "keeps I (liftP r)" "keeps I (ioP m)"
  by (auto simp: keeps_def ioP_def split: prod.splits)

lemma keeps_state: "(\<And>s. I s \<Longrightarrow> I (snd (f s))) \<Longrightarrow> keeps I (stateP f)"
  by (simp add: keeps_def)

lemma keeps_bind:
  assumes "keeps I m" "\<And>x. keeps I (f x)"
  shows "keeps I (bindP m f)"
  unfolding keeps_def
proof (intro allI impI)
  fix s w assume "I s"
  then have i: "I (fst (snd (m (s, w))))" using assms(1) by (simp add: keeps_def)
  obtain r s1 w1 where "m (s, w) = (r, s1, w1)" by (metis prod_cases3)
  then show "I (fst (snd (bindP m f (s, w))))"
    using i assms(2) by (cases r) (auto simp: bindP_def keeps_def)
qed

lemma keeps_same_written:
  "(\<And>s w. ps_written (fst (snd (m (s, w)))) = ps_written s) \<Longrightarrow> keeps (all_stored pp) m"
  by (simp add: keeps_def all_stored_def)

lemma keeps_counters [simp]:
  "keeps (all_stored pp) (pipe_artifact_id kind)" "keeps (all_stored pp) pipe_decision_id"
  "keeps (all_stored pp) pipe_evidence_id" "keeps (all_stored pp) (read_clock pp)" "keeps (all_stored pp) get_created_at"
  by (rule keeps_same_written, simp add: pipe_artifact_id_def pipe_decision_id_def pipe_evidence_id_def read_clock_def
      get_created_at_def Let_def split: option.splits)+

lemma keeps_issue [simp]: "keeps (all_stored pp) (issue_for pp' tool scope)"
  unfolding issue_for_def read_clock_def by (intro keeps_bind keeps_state) (auto simp: all_stored_def)

lemma pipe_persist_Inl:
  "pipe_persist pp kind artifact_id document (s, w) = (Inl e, s', w') \<Longrightarrow> ps_written s' = ps_written s"
  unfolding pipe_persist_def issue_for_def read_clock_def get_created_at_def pipe_decision_id_def pipe_evidence_id_def bindP_io
  by (auto simp: readW_def bindP_def ioP_def split: if_splits sum.splits prod.splits)

lemma all_stored_dset: "list_all (\<lambda>(i, d). P d) m \<Longrightarrow> P d \<Longrightarrow> list_all (\<lambda>(i, d). P d) (dset i d m)"
  by (induction m) (auto split: if_splits)

lemma keeps_persist [simp]: "keeps (all_stored pp) (pipe_persist pp kind artifact_id document)"
  unfolding keeps_def
proof (intro allI impI)
  fix s w assume i: "all_stored pp s"
  obtain r s' w' where p: "pipe_persist pp kind artifact_id document (s, w) = (r, s', w')" by (metis prod_cases3)
  have "all_stored pp s'"
  proof (cases r)
    case (Inl e)
    then show ?thesis using i pipe_persist_Inl p by (simp add: all_stored_def)
  next
    case (Inr st)
    then show ?thesis
      using pipe_persist_Inr p i all_stored_dset [of "stored pp"] unfolding all_stored_def by metis
  qed
  with p show "all_stored pp (fst (snd (pipe_persist pp kind artifact_id document (s, w))))" by simp
qed

lemma keeps_skill [simp]: "keeps (all_stored pp) (pipe_skill pp skill_name kind inputs bindings links)"
  unfolding pipe_skill_def by (intro keeps_bind) (auto split: option.split intro!: keeps_bind)

lemma keeps_run: "keeps (all_stored pp) (pipe_run pp idea created_at)"
  unfolding pipe_run_def pipe_idea_def pipe_security_review_def pipe_review_def Let_def
  by (auto intro!: keeps_bind keeps_state simp: all_stored_def split: prod.splits)

text \<open>
  C15: whatever the outcome of a run, even if it stops at an error, every document that the pipeline
  counts as written satisfies its schema and went through the executor: the \<open>write_artifact\<close> call for
  exactly this document passed every gate and its handler returned.
\<close>

theorem pipeline_writes_only_gated:
  "list_all (\<lambda>(artifact_id, document). stored pp document)
     (ps_written (fst (snd (pipe_run pp idea created_at (new_pipe_state, w)))))"
proof -
  have "all_stored pp new_pipe_state" by (simp add: all_stored_def new_pipe_state_def)
  then show ?thesis using keeps_run [of pp idea created_at] by (simp add: keeps_def all_stored_def)
qed

section \<open>The chain of a completed run\<close>

definition has_link_to :: "pydict \<Rightarrow> string \<Rightarrow> bool" where
  "has_link_to document href \<longleftrightarrow>
     (\<exists>items link. dget document ''links'' = Some (PList items) \<and> PDict link \<in> set items \<and> link_href_of link = href)"

lemma append_links_Inr:
  assumes "append_links links seen existing = Inr all" "set seen \<subseteq> link_href_of ` set existing"
  shows "set existing \<subseteq> set all \<and> link_href_of ` set links \<subseteq> link_href_of ` set all"
  using assms
proof (induction links seen existing rule: append_links.induct)
  case (2 link links seen existing)
  show ?case
  proof (cases "List.member seen (link_href_of link)")
    case True
    then have "append_links links seen existing = Inr all" using 2(3) by simp
    from 2(1) [OF refl True this 2(4)] have ih: "set existing \<subseteq> set all" "link_href_of ` set links \<subseteq> link_href_of ` set all"
      by simp_all
    have "link_href_of link \<in> link_href_of ` set existing" using True 2(4) by auto
    then have "link_href_of link \<in> link_href_of ` set all" using ih(1) by blast
    with ih show ?thesis by simp
  next
    case False
    then obtain rel where r: "dindex link ''rel'' = Inr rel" and
        a: "append_links links (link_href_of link # seen) (existing @ [[(''rel'', PStr (py_str rel)), (''href'', PStr (link_href_of link))]]) = Inr all"
      using 2(3) by (auto simp: Let_def bindR_eq_Inr)
    have h: "link_href_of [(''rel'', PStr (py_str rel)), (''href'', PStr (link_href_of link))] = link_href_of link"
      by (simp add: link_href_of_def)
    have "set (link_href_of link # seen) \<subseteq> link_href_of ` set (existing @ [[(''rel'', PStr (py_str rel)), (''href'', PStr (link_href_of link))]])"
      using 2(4) h by auto
    from 2(2) [OF refl False a this] have ih: "set existing \<subseteq> set all" "link_href_of ` set links \<subseteq> link_href_of ` set all"
        "[(''rel'', PStr (py_str rel)), (''href'', PStr (link_href_of link))] \<in> set all"
      by simp_all
    have "link_href_of link \<in> link_href_of ` set all" using imageI [OF ih(3), of link_href_of] unfolding h .
    with ih(1,2) show ?thesis by simp
  qed
qed simp

lemma add_links_Inr:
  assumes "add_links document links = Inr document'"
  shows "(\<forall>k. k \<noteq> ''links'' \<longrightarrow> dget document' k = dget document k) \<and> (\<forall>l \<in> set links. has_link_to document' (link_href_of l))"
proof -
  from assms obtain existing all where a: "append_links links (map link_href_of existing) existing = Inr all"
      and d: "document' = dset ''links'' (PList (map PDict all)) document"
    by (auto simp: add_links_def bindR_eq_Inr)
  have sub: "link_href_of ` set links \<subseteq> link_href_of ` set all" using append_links_Inr [OF a] by simp
  have "has_link_to document' (link_href_of l)" if l: "l \<in> set links" for l
  proof -
    from sub l obtain link where "link \<in> set all" "link_href_of link = link_href_of l" by (metis image_eqI image_iff subsetD)
    then show ?thesis unfolding has_link_to_def d
      by (intro exI [of _ "map PDict all"] exI [of _ link]) simp
  qed
  then show ?thesis using d by simp
qed

lemma produced_links: "produced_by pp name inputs aid links document \<Longrightarrow> l \<in> set links \<Longrightarrow> has_link_to document (link_href_of l)"
  unfolding produced_by_def using add_links_Inr by blast

lemma one_link_href [simp]: "l \<in> set (one_link rel href) \<longleftrightarrow> l = [(''rel'', PStr rel), (''href'', PStr href)]"
  "link_href_of [(''rel'', PStr rel), (''href'', PStr href)] = href"
  by (simp_all add: one_link_def link_href_of_def)

text \<open>The built-in skills put the platform's identifier into their documents.\<close>

definition default_skills :: "pipeline \<Rightarrow> bool" where
  "default_skills pp \<longleftrightarrow> build_default_registry = Inr (kr_skills (pp_runner pp))"

lemma default_registry_skills:
  "build_default_registry = Inr skills \<Longrightarrow> skill_get skills name = Inr skill \<Longrightarrow> skill \<in> set DEFAULT_SKILLS"
  by (auto simp: build_default_registry_def new_skill_registry_def DEFAULT_SKILLS_def skill_register_def skill_get_def
      skill_defs split: option.splits if_splits)

lemma default_identified:
  assumes "skill \<in> set DEFAULT_SKILLS" "sk_assemble skill content en = Inr document"
  shows "dget document ''id'' = Some (PStr (en_artifact_id en))"
proof -
  obtain front copied where g: "good_form skill front copied" using default_form [OF assms(1)] by blast
  with assms(2) obtain plat where "front en = Inr plat" "document = plat @ map (\<lambda>(k, v). (k, dget_or content k v)) copied"
    by (auto simp: good_form_def assembles_def bindR_eq_Inr)
  moreover from this g have "identified skill en plat" by (auto simp: good_form_def)
  ultimately show ?thesis by (simp add: identified_def map_add_Some_iff)
qed

lemma produced_id:
  assumes "produced_by pp name inputs aid links document" "default_skills pp"
  shows "dget document ''id'' = Some (PStr aid)"
proof -
  from assms(1) obtain clock call w res w' artifact where r: "skill_run (pp_runner pp) clock call w = (Inr res, w')" "sr_allowed res"
      "sr_artifact res = Some artifact" "sc_artifact_id call = aid" "add_links artifact links = Inr document"
    unfolding produced_by_def by blast
  from skill_produced [OF r(1,2)] r(3) obtain run pr skill ctx content where
      "skill_gates (pp_runner pp) clock call run pr skill ctx" "sk_assemble skill content (skill_envelope call (r_actor run)) = Inr artifact"
    by auto
  moreover from this assms(2) have "skill \<in> set DEFAULT_SKILLS"
    by (auto simp: skill_gates_def default_skills_def intro: default_registry_skills)
  ultimately have "dget artifact ''id'' = Some (PStr aid)" using default_identified r(4) by (fastforce simp: skill_envelope_def)
  then show ?thesis using add_links_Inr [OF r(5)] by simp
qed

lemma chained_produced:
  assumes "chained pp name inputs aid rel before document" "dget before ''id'' = Some (PStr i)"
  shows "produced_by pp name inputs aid (one_link rel (pipe_href pp i)) document"
proof -
  have "link_to pp rel before = Inr (one_link rel (pipe_href pp i))" using assms(2) by (simp add: link_to_def dindex_def)
  with assms(1) show ?thesis by (simp add: chained_def)
qed

lemma chained_id: "chained pp name inputs aid rel before document \<Longrightarrow> default_skills pp \<Longrightarrow> dget document ''id'' = Some (PStr aid)"
  unfolding chained_def using produced_id by blast

lemma security_review_link:
  assumes "build_security_review f tm aid t actor rid href = Inr document"
  shows "has_link_to document href"
  using assms by (auto simp: build_security_review_def bindR_eq_Inr Let_def has_link_to_def)

lemma stages_numbered:
  "list_all2 (\<lambda>(kind, aid, n) st. stage_ok kind aid n st) plan stages \<Longrightarrow>
   map st_stage stages = map fst plan \<and> map st_artifact_id stages = map (fst \<circ> snd) plan
   \<and> list_all2 (\<lambda>n st. numbered ''PD-'' n (st_decision st) \<and> numbered ''EV-'' n (st_evidence st)) (map (snd \<circ> snd) plan) stages"
  by (induction rule: list_all2_induct) (auto simp: stage_ok_def)

lemma first_stage:
  "list_all2 (\<lambda>(kind, aid, n) st. stage_ok kind aid n st) ((k, i, m) # plan) stages \<Longrightarrow> st_artifact_id (hd stages) = i"
  by (auto simp: list_all2_Cons1 stage_ok_def)

text \<open>
  A run that completes went through all seven stages in order, each with a policy decision and an
  evidence record of its own number (the numbers in between belong to the skill runs), and stored
  the six documents after the idea under fixed identifiers.
\<close>

theorem pipeline_stages_in_order:
  assumes "pipe_run pp idea created_at (new_pipe_state, w) = (Inr res, s', w')"
  shows "map st_stage (pl_stages res) =
       [''idea'', ''specification'', ''threat-model'', ''plan'', ''task'', ''security-review'', ''review'']
   \<and> tl (map st_artifact_id (pl_stages res)) =
       [''SPEC-0001'', ''TM-0001'', ''PLAN-0001'', ''TASK-0001'', ''SECREV-0001'', ''REV-0001'']
   \<and> list_all2 (\<lambda>n st. numbered ''PD-'' n (st_decision st) \<and> numbered ''EV-'' n (st_evidence st))
       [1, 3, 5, 7, 9, 10, 12] (pl_stages res)"
proof -
  obtain idea_id spec tm plan task secrev review where "completed_run pp created_at idea_id idea spec tm plan task secrev review res"
    using run_completed [OF assms] by blast
  then have "list_all2 (\<lambda>(kind, aid, n) st. stage_ok kind aid n st)
       [(''idea'', idea_id, 1), (''specification'', ''SPEC-0001'', 3), (''threat-model'', ''TM-0001'', 5), (''plan'', ''PLAN-0001'', 7),
        (''task'', ''TASK-0001'', 9), (''security-review'', ''SECREV-0001'', 10), (''review'', ''REV-0001'', 12)] (pl_stages res)"
    by (simp only: completed_run_def)
  from stages_numbered [OF this] show ?thesis by simp
qed

text \<open>
  C16: the documents of a completed run with the built-in skills form one chain: each was produced, under
  its identifier, by the skill of its stage from the documents of the earlier stages or, for the
  security review, compiled by the platform from this very threat model, and each links to the
  document it was made from, back to the idea.
\<close>

theorem pipeline_chain_linked:
  assumes "pipe_run pp idea created_at (new_pipe_state, w) = (Inr res, s', w')" "default_skills pp"
  shows "\<exists>spec tm plan task secrev review idea_id. idea_id = st_artifact_id (hd (pl_stages res))
   \<and> dget (pl_artifacts res) ''SPEC-0001'' = Some spec \<and> has_link_to spec (pipe_href pp idea_id)
   \<and> produced_by pp ''grill'' [approved_input ''idea'' idea] ''SPEC-0001'' (one_link ''requirement'' (pipe_href pp idea_id)) spec
   \<and> dget (pl_artifacts res) ''TM-0001'' = Some tm \<and> has_link_to tm (pipe_href pp ''SPEC-0001'')
   \<and> produced_by pp ''grill-security'' [approved_input ''specification'' spec] ''TM-0001''
       (one_link ''requirement'' (pipe_href pp ''SPEC-0001'')) tm
   \<and> dget (pl_artifacts res) ''PLAN-0001'' = Some plan \<and> has_link_to plan (pipe_href pp ''TM-0001'')
   \<and> produced_by pp ''planner'' [approved_input ''specification'' spec, approved_input ''threat-model'' tm] ''PLAN-0001''
       (one_link ''threat'' (pipe_href pp ''TM-0001'')) plan
   \<and> dget (pl_artifacts res) ''TASK-0001'' = Some task \<and> has_link_to task (pipe_href pp ''PLAN-0001'')
   \<and> produced_by pp ''task-writer'' [approved_input ''specification'' spec, approved_input ''plan'' plan] ''TASK-0001''
       (one_link ''plan'' (pipe_href pp ''PLAN-0001'')) task
   \<and> dget (pl_artifacts res) ''SECREV-0001'' = Some secrev \<and> has_link_to secrev (pipe_href pp ''TM-0001'')
   \<and> build_security_review (pp_feature_id pp) tm ''SECREV-0001'' created_at security_actor (pp_run_id pp) (pipe_href pp ''TM-0001'')
       = Inr secrev
   \<and> dget (pl_artifacts res) ''REV-0001'' = Some review \<and> has_link_to review (pipe_href pp ''TASK-0001'')
   \<and> produced_by pp ''reviewer'' [approved_input ''task'' task] ''REV-0001'' (one_link ''task'' (pipe_href pp ''TASK-0001'')) review"
proof -
  obtain idea_id spec tm plan task secrev review where c: "completed_run pp created_at idea_id idea spec tm plan task secrev review res"
    using run_completed [OF assms(1)] by blast
  then have k: "produced_by pp ''grill'' [approved_input ''idea'' idea] ''SPEC-0001'' (one_link ''requirement'' (pipe_href pp idea_id)) spec"
      "chained pp ''grill-security'' [approved_input ''specification'' spec] ''TM-0001'' ''requirement'' spec tm" "chained pp ''planner'' [approved_input ''specification'' spec, approved_input ''threat-model'' tm] ''PLAN-0001'' ''threat'' tm plan"
      "chained pp ''task-writer'' [approved_input ''specification'' spec, approved_input ''plan'' plan] ''TASK-0001'' ''plan'' plan task" "chained pp ''reviewer'' [approved_input ''task'' task] ''REV-0001'' ''task'' task review"
    unfolding completed_run_def by blast+
  have ids: "dget spec ''id'' = Some (PStr ''SPEC-0001'')" "dget tm ''id'' = Some (PStr ''TM-0001'')"
      "dget plan ''id'' = Some (PStr ''PLAN-0001'')" "dget task ''id'' = Some (PStr ''TASK-0001'')"
    using produced_id [OF k(1) assms(2)] k(2-4) [THEN chained_id, OF assms(2)] by blast+
  have b: "build_security_review (pp_feature_id pp) tm ''SECREV-0001'' created_at security_actor (pp_run_id pp) (pipe_href pp ''TM-0001'')
       = Inr secrev" using c ids(2) unfolding completed_run_def by auto
  have a: "pl_artifacts res = dset ''REV-0001'' review (dset ''SECREV-0001'' secrev (dset ''TASK-0001'' task (dset ''PLAN-0001'' plan
        (dset ''TM-0001'' tm (dset ''SPEC-0001'' spec [(idea_id, idea)])))))"
    using c unfolding completed_run_def by blast
  have h: "st_artifact_id (hd (pl_stages res)) = idea_id"
    using conjunct1 [OF c [unfolded completed_run_def]] by (rule first_stage)
  have l: "has_link_to spec (pipe_href pp idea_id)" using produced_links [OF k(1)] by simp
  have d: "dget (pl_artifacts res) ''SPEC-0001'' = Some spec" "dget (pl_artifacts res) ''TM-0001'' = Some tm"
    "dget (pl_artifacts res) ''PLAN-0001'' = Some plan" "dget (pl_artifacts res) ''TASK-0001'' = Some task"
    "dget (pl_artifacts res) ''SECREV-0001'' = Some secrev" "dget (pl_artifacts res) ''REV-0001'' = Some review"
    unfolding a by (simp_all del: AList.update.simps)
  note p = chained_produced [OF k(2) ids(1)] chained_produced [OF k(3) ids(2)] chained_produced [OF k(4) ids(3)]
    chained_produced [OF k(5) ids(4)]
  have "has_link_to tm (pipe_href pp ''SPEC-0001'')" "has_link_to plan (pipe_href pp ''TM-0001'')"
    "has_link_to task (pipe_href pp ''PLAN-0001'')" "has_link_to review (pipe_href pp ''TASK-0001'')"
    using p [THEN produced_links] by simp_all
  with d b l k(1) p security_review_link [OF b] h show ?thesis by blast
qed

end
