(* ===== verification/PipelineRun.thy ===== *)
theory PipelineRun
  imports Pipeline
begin

text \<open>
  A complete run of the pipeline: the built-in skills, a model that always answers with an empty
  object, a policy that allows everything, schemas that accept every document and a repository in
  which they can be found. The lemmas show stage by stage that the run goes through, which the
  properties of completed runs are then applied to.
\<close>

section \<open>The world of the run\<close>

text \<open>A repository with its schemas, next to an evidence store that holds the given entries.\<close>

definition run_fs :: "(string \<Rightarrow> string option) \<Rightarrow> fs" where
  "run_fs entries p =
     (if length p = 2 \<and> hd p = ''ev'' then map_option File (entries (p ! 1))
      else if p \<in> {[''ev''], [''r''], [''r'', ''contracts''], [''r'', ''contracts'', ''schemas'']} then Some Dir
      else if length p = 4 \<and> butlast p = [''r'', ''contracts'', ''schemas''] then Some (File ''{}'')
      else None)"

definition in_repo :: "world \<Rightarrow> bool" where
  "in_repo w \<longleftrightarrow> (\<exists>entries. w_fs w = run_fs entries)"

lemma run_fs_simps [simp]:
  "run_fs entries [''ev''] = Some Dir" "run_fs entries [''ev'', d] = map_option File (entries d)"
  "run_fs entries [''r''] = Some Dir" "run_fs entries [''r'', ''contracts''] = Some Dir"
  "run_fs entries [''r'', ''contracts'', ''schemas''] = Some Dir"
  "run_fs entries [''r'', ''contracts'', ''schemas'', name] = Some (File ''{}'')"
  by (simp_all add: run_fs_def)

lemma run_fs_update: "(run_fs entries)([''ev'', d] \<mapsto> File x) = run_fs (entries(d \<mapsto> x))"
proof
  fix p
  show "((run_fs entries)([''ev'', d] \<mapsto> File x)) p = run_fs (entries(d \<mapsto> x)) p"
  proof (cases "length p = 2 \<and> hd p = ''ev''")
    case True
    then obtain e where "p = [''ev'', e]" by (auto simp: length_Suc_conv numeral_2_eq_2)
    then show ?thesis by simp
  next
    case False
    then have "p \<noteq> [''ev'', d]" by auto
    with False show ?thesis by (auto simp: run_fs_def)
  qed
qed

lemma put_in_repo:
  assumes "in_repo w"
  shows "\<exists>w'. store_put [''ev''] data w = (Inr (sha256_hex data), w') \<and> in_repo w'"
proof -
  from assms obtain entries where fs: "w_fs w = run_fs entries" by (auto simp: in_repo_def)
  let ?d = "sha256_hex data"
  have d: "?d \<noteq> dotdot" "\<not> List.member ?d CHR 0x00" using hex_no_special [OF sha256_hex_hex [of data]] by auto
  have "mkdirs (run_fs entries) [''ev''] = Inr (run_fs entries)"
    by (simp add: mkdirs_def mkdir1_def is_dir_def os_path_def node_at_def)
  moreover have "os_path (run_fs entries) [''ev'', ?d] = Inr [''ev'', ?d]"
    using d by (cases "entries ?d") (simp_all add: os_path_def)
  then have "write_bytes (run_fs entries) [''ev'', ?d] data = Inr (run_fs (entries(?d \<mapsto> data)))"
    by (cases "entries ?d") (simp_all add: write_bytes_def node_at_def run_fs_update)
  ultimately have "store_put [''ev''] data w = (Inr ?d, w\<lparr>w_fs := run_fs (entries(?d \<mapsto> data))\<rparr>)"
    by (simp add: store_put_Inr fs path_join_digest)
  then show ?thesis by (auto simp: in_repo_def)
qed

section \<open>Validation\<close>

definition run_env :: schema_env where
  "run_env = \<lparr>se_module_file = [''r''], se_listdir = (\<lambda>fs p. []), se_ref_errors = (\<lambda>schema resources v. Inr [])\<rparr>"

definition plain_type :: "string \<Rightarrow> bool" where
  "plain_type t \<longleftrightarrow> t \<in> {''idea'', ''specification'', ''threat-model'', ''plan'', ''task'', ''security-review'', ''review''}"

lemma schema_readable:
  assumes "\<not> List.member name CHR 0x00" "name \<noteq> dotdot"
  shows "read_json (run_fs entries) [''r'', ''contracts'', ''schemas'', name] = Inr (PDict [])"
proof -
  have e: "''{}'' = json_dumps opts_default (PDict [])" by (simp add: dump_members_def)
  have "json_loads ''{}'' = Inr (PDict [])"
    using json_roundtrip [of opts_default "PDict []"] unfolding e [symmetric] by (simp add: canon_def opts_default_def dict_wf_def)
  then show ?thesis
    using assms by (simp add: read_json_def read_bytes_def os_path_def node_at_def valid_str_ascii no_surrogate_ascii)
qed

lemma run_repo_root: "find_repo_root (run_fs entries) [''r''] = Inr [''r'']"
  by (simp add: find_repo_root_def resolve_def self_and_parents_def SCHEMA_DIR_REL_def is_file_def os_path_def node_at_def)

lemma plain_join:
  "plain_type t \<Longrightarrow> path_join [''r'', ''contracts'', ''schemas''] (t @ ''.schema.json'') = [''r'', ''contracts'', ''schemas'', t @ ''.schema.json'']"
  "plain_type t \<Longrightarrow> \<not> List.member (t @ ''.schema.json'') CHR 0x00 \<and> t @ ''.schema.json'' \<noteq> dotdot"
  by (auto simp: plain_type_def path_join_def is_absolute_def starts_with_def path_parts_def)

lemma run_validates:
  assumes "plain_type t" "root = None \<or> root = Some [''r'']"
  shows "validate_document run_env (run_fs entries) doc (t @ ''.schema.json'') root = Inr []"
  using assms schema_readable plain_join run_repo_root
  by (auto simp: validate_document_def load_schema_def schema_dir_def build_registry_def run_env_def SCHEMA_DIR_REL_def)

lemma run_valid_artifact:
  assumes "in_repo w" "plain_type t" "dget doc ''artifact_type'' = Some (PStr t)"
  shows "validate_artifact run_env (w_fs w) doc None = Inr []"
proof -
  have "t \<noteq> []" using assms(2) by (auto simp: plain_type_def)
  then show ?thesis
    using assms(1,3) run_validates [OF assms(2)]
    by (auto simp: validate_artifact_def artifact_schema_name_def SCHEMA_SUFFIX_def in_repo_def)
qed

section \<open>The pipeline of the run\<close>

definition writer_tool :: tool_spec where
  "writer_tool = make_tool ''write_artifact'' ''workspace'' ''Write'' (\<lambda>args w. (Inr [], w)) None None"

definition run_executor :: executor where
  "run_executor = \<lparr>ex_policy = (\<lambda>_ _. Inr demo_result), ex_capabilities = demo_runs,
     ex_tools = [(''write_artifact'', writer_tool)], ex_store = [''ev''], ex_iter_errors = (\<lambda>_ _. Inr []),
     ex_zlib_size = length\<rparr>"

definition run_skills :: skill_registry where
  "run_skills = projr build_default_registry"

definition run_pipeline :: pipeline where
  "run_pipeline = new_pipeline ''FEAT-1'' ''RUN-1'' (\<lambda>_ _. Inr demo_result) demo_runs run_skills
     (\<lambda>_ _. Inr \<lparr>ls_text = ''{}'', ls_model = DEFAULT_MODEL\<rparr>) run_executor [''r'', ''specs''] [''ev''] [''r''] (Some [''r''])
     ''specs'' run_env length id (\<lambda>_. 20)"

lemma run_pipeline_simps [simp]:
  "pp_feature_id run_pipeline = ''FEAT-1''" "pp_run_id run_pipeline = ''RUN-1''" "pp_capabilities run_pipeline = demo_runs"
  "pp_skills run_pipeline = run_skills" "pp_store run_pipeline = [''r'', ''specs'']" "pp_repo_root run_pipeline = [''r'']"
  "pp_href_prefix run_pipeline = ''specs''" "pp_executor run_pipeline = run_executor" "pp_env run_pipeline = run_env"
  "pp_set_order run_pipeline = id" "pp_clock run_pipeline = (\<lambda>_. 20)"
  by (simp_all add: run_pipeline_def new_pipeline_def)

lemma run_skills_eq:
  "build_default_registry = Inr run_skills"
  "run_skills = [(''grill'', GRILL), (''grill-security'', GRILL_SECURITY), (''planner'', PLANNER), (''task-writer'', TASK_WRITER),
     (''reviewer'', REVIEWER)]"
  by (simp_all add: run_skills_def build_default_registry_def new_skill_registry_def DEFAULT_SKILLS_def skill_register_def skill_defs)

lemma run_issue:
  assumes "is_ascii tool" "is_ascii scope"
  shows "\<exists>token check. reg_issue demo_runs ''RUN-1'' tool scope DEFAULT_TTL_SECONDS None 20 = Inr token
     \<and> reg_check demo_runs token tool scope None 20 = Inr check \<and> chk_valid check"
proof -
  have a: "active demo_runs ''RUN-1''" by (simp add: active_def demo_runs_eq reg_get_def)
  have c: "cap_ok (granted ''RUN-1'' tool scope 20)"
    using assms by (simp add: granted_def cap_ok_def token_text_def valid_str_ascii no_surrogate_ascii int_ok_def
        max_int_digits_def dec_nat.simps DEFAULT_TTL_SECONDS_def)
  from issue_granted [OF a c] obtain token where t: "reg_issue demo_runs ''RUN-1'' tool scope DEFAULT_TTL_SECONDS None 20 = Inr token"
    "decode_token (reg_secret demo_runs) token = Inr (Decoded (granted ''RUN-1'' tool scope 20))" by blast
  show ?thesis
    using t(1) a by (simp add: reg_check_decoded [OF t(2)] valid_check_claims granted_def DEFAULT_TTL_SECONDS_def)
qed

section \<open>Documents\<close>

definition fine :: "pydict \<Rightarrow> bool" where
  "fine doc \<longleftrightarrow> ascii_val (PDict doc) \<and> ints_ok (PDict doc) \<and> (\<exists>links. local_link_targets doc = Inr links)"

lemma bindP_assoc: "bindP (bindP m f) g = bindP m (\<lambda>x. bindP (f x) g)"
  by (auto simp: bindP_def fun_eq_iff split: prod.splits sum.splits)

lemma bindP_step: "m (s, w) = (Inr x, q) \<Longrightarrow> bindP m f (s, w) = f x q"
  by (simp add: bindP_def)

lemma run_persists:
  assumes "in_repo w" "fine doc" "plain_type t" "dget doc ''artifact_type'' = Some (PStr t)"
  shows "\<exists>st s' w'. pipe_persist run_pipeline kind aid doc (s, w) = (Inr st, s', w') \<and> in_repo w' \<and> ps_created_at s' = ps_created_at s"
proof -
  obtain token check where t: "reg_issue demo_runs ''RUN-1'' ''write_artifact'' ''workspace'' DEFAULT_TTL_SECONDS None 20 = Inr token"
      "reg_check demo_runs token ''write_artifact'' ''workspace'' None 20 = Inr check" "chk_valid check"
    using run_issue [of "''write_artifact''" "''workspace''"] by auto
  define call where "call = \<lparr>tc_run_id = ''RUN-1'', tc_token = token, tc_tool = ''write_artifact'',
      tc_args = [(''document'', PDict doc)], tc_scope = ''workspace'', tc_created_at = ps_created_at s,
      tc_decision_id = ''PD-'' @ zero_pad 4 (ps_decision_seq s + 1), tc_evidence_id = ''EV-'' @ zero_pad 4 (ps_evidence_seq s + 1),
      tc_resource = []\<rparr>"
  have g: "\<exists>run. gates_passed run_executor 20 call run demo_result writer_tool"
    using t by (simp add: gates_passed_def run_executor_def call_def demo_result_def reg_get_def demo_runs_eq
        tool_get_def writer_tool_def make_tool_def Let_def validate_instance_def)
  have h: "ts_handler writer_tool (tc_args call) w = (Inr [], w)" by (simp add: writer_tool_def make_tool_def Let_def)
  have v: "validate_instance (ex_iter_errors run_executor) (PDict []) (ts_result_schema writer_tool) = Inr []"
    by (simp add: run_executor_def validate_instance_def)
  have i: "ints_ok (record_payload call [(''output'', PDict [])])"
    using assms(2) by (simp add: record_payload_def call_def fine_def)
  have "ascii_val (record_payload call [(''output'', PDict [])])"
    using assms(2) by (simp add: record_payload_def call_def fine_def)
  then have a: "\<not> has_surrogate (json_dumps opts_sorted_unicode (record_payload call [(''output'', PDict [])]))"
    by (rule ascii_encodes)
  obtain dg w' where w': "store_put (ex_store run_executor) (json_dumps opts_sorted_unicode (record_payload call [(''output'', PDict [])])) w
      = (Inr dg, w')" "in_repo w'"
    using put_in_repo [OF assms(1)] by (fastforce simp: run_executor_def)
  from g obtain run where "gates_passed run_executor 20 call run demo_result writer_tool" by blast
  from gated_executes [OF this h v i a w'(1)] obtain res where x: "execute run_executor 20 call w = (Inr res, w')" "xr_allowed res"
    by blast
  show ?thesis
    unfolding pipe_persist_def issue_for_def read_clock_def get_created_at_def pipe_decision_id_def pipe_evidence_id_def bindP_io
    using run_valid_artifact [OF assms(1,3,4)] t(1) x [unfolded call_def] w'(2)
    by (simp add: readW_def bindP_io bindP_assoc)
qed

lemma empty_answer: "extract_json ''{}'' = Inr []"
proof -
  have e: "''{}'' = json_dumps opts_default (PDict [])" by (simp add: dump_members_def)
  have "printable opts_default (PDict [])" by (simp add: dict_wf_def)
  from extract_dumped [OF this] show ?thesis unfolding e [symmetric] by (simp add: canon_def opts_default_def)
qed

lemma run_runner:
  "pp_runner run_pipeline = \<lparr>kr_policy = (\<lambda>_ _. Inr demo_result), kr_capabilities = demo_runs, kr_skills = run_skills,
     kr_llm = (\<lambda>_ _. Inr \<lparr>ls_text = ''{}'', ls_model = DEFAULT_MODEL\<rparr>), kr_store = [''ev''], kr_repo_root = Some [''r''],
     kr_env = run_env, kr_zlib_size = length\<rparr>"
  by (simp add: run_pipeline_def new_pipeline_def)

lemma run_completes_skill:
  assumes "in_repo w" "sk_assemble skill [] (skill_envelope call []) = Inr artifact"
    and "sk_output_schema skill = t @ ''.schema.json''" "plain_type t"
  shows "\<exists>res w'. complete_skill (pp_runner run_pipeline) call skill [] (skill_decision call [] demo_result) ctx w = (Inr res, w')
     \<and> sr_allowed res \<and> sr_artifact res = Some artifact \<and> in_repo w'"
proof -
  let ?kr = "pp_runner run_pipeline"
  let ?rq = "\<lparr>lr_role = sk_role skill, lr_system_prompt = sk_system_prompt skill, lr_context = ctx\<rparr>"
  obtain w1 where w1: "ask_model ?kr ?rq w = (Inr \<lparr>ls_text = ''{}'', ls_model = DEFAULT_MODEL\<rparr>, w1)" "in_repo w1"
    using assms(1) by (simp add: ask_model_def run_runner in_repo_def)
  obtain w' where w': "store_put [''ev''] ''{}'' w1 = (Inr (sha256_hex ''{}''), w')" "in_repo w'" using put_in_repo [OF w1(2)] by blast
  have "\<exists>out. process_tool_output length [''ev''] ''{}'' (sk_tool_name skill @ ''.output'') [] (sc_run_id call) (sc_evidence_id call)
      (sc_created_at call) UNTRUSTED ''none'' DEFAULT_MAX_BYTES None (Some (sc_decision_id call)) [] w1 = (Inr out, w')"
    by (rule process_tool_output_total [OF _ _ w'(1)]) (simp_all add: no_surrogate_ascii)
  then obtain out where o: "process_tool_output length [''ev''] ''{}'' (sk_tool_name skill @ ''.output'') [] (sc_run_id call) (sc_evidence_id call)
      (sc_created_at call) UNTRUSTED ''none'' DEFAULT_MAX_BYTES None (Some (sc_decision_id call)) [] w1 = (Inr out, w')" by blast
  have d: "dindex (skill_decision call [] demo_result) ''id'' = Inr (PStr (sc_decision_id call))"
    by (simp add: skill_decision_def build_policy_decision_def Let_def dindex_def)
  have r: "skill_record ?kr call ''{}'' (sk_tool_name skill @ ''.output'') [] (skill_decision call [] demo_result) w1 = (Inr (to_record out), w')"
    using o by (simp add: skill_record_def d run_runner liftW_def bindW_def returnW_def)
  have "judge_answer ?kr call skill [] ''{}'' (w_fs w') = Inr (REASON_COMPLETED, Some artifact)"
    using run_validates [OF assms(4)] w'(2) assms(2,3) by (auto simp: judge_answer_def empty_answer run_runner in_repo_def)
  then show ?thesis
    using w1 r w'(2) by (simp add: complete_skill_def bindW_def readW_def returnW_def)
qed

lemma approved_context: "build_context (map (\<lambda>(n, d). approved_input n d) ps) = Inr (fold (\<lambda>(n, d). dset n (PDict d)) ps [])"
proof -
  have "context_onto (map (\<lambda>(n, d). approved_input n d) ps) acc = Inr (fold (\<lambda>(n, d). dset n (PDict d)) ps acc)" for acc
    by (induction ps arbitrary: acc) (auto simp: approved_input_def classify_source_def trusted_sources_def)
  then show ?thesis by (simp add: build_context_def)
qed

lemma context_has_key:
  "k \<in> fst ` set ps \<or> dget acc k \<noteq> None \<Longrightarrow> dget (fold (\<lambda>(n, d). dset n (PDict d)) ps acc) k \<noteq> None"
  by (induction ps arbitrary: acc) auto

lemma run_runs_skill:
  assumes "in_repo w" "skill_get run_skills name = Inr skill" "sk_assemble skill [] (skill_envelope call []) = Inr artifact"
    and "sk_output_schema skill = t @ ''.schema.json''" "plain_type t"
    and "set (sk_context_keys skill) \<subseteq> fst ` set ps"
    and "reg_check demo_runs (sc_token call) (''skill.'' @ name) ''skills'' None 20 = Inr check" "chk_valid check"
    and "sc_run_id call = ''RUN-1''" "sc_skill_name call = name" "sc_scope call = ''skills''"
      "sc_inputs call = map (\<lambda>(n, d). approved_input n d) ps"
  shows "\<exists>res w'. skill_run (pp_runner run_pipeline) 20 call w = (Inr res, w') \<and> sr_allowed res \<and> sr_artifact res = Some artifact \<and> in_repo w'"
proof -
  let ?ctx = "fold (\<lambda>(n, d). dset n (PDict d)) ps []"
  have "dget ?ctx key \<noteq> None" if "key \<in> set (sk_context_keys skill)" for key
    using that assms(6) by (intro context_has_key) blast
  then have "\<not> list_ex (\<lambda>key. dget ?ctx key = None) (sk_context_keys skill)" by (simp add: list_ex_iff)
  then have "skill_run (pp_runner run_pipeline) 20 call w
      = complete_skill (pp_runner run_pipeline) call skill [] (skill_decision call [] demo_result) ?ctx w"
    using assms(2,7-12)
    by (simp add: skill_run_def run_runner reg_get_def demo_runs_eq demo_result_def Let_def bindW_liftW approved_context)
  then show ?thesis using run_completes_skill [OF assms(1,3-5)] by simp
qed

lemma run_skill_stage:
  assumes "in_repo w" "skill_get run_skills name = Inr skill" "sk_tool_name skill = ''skill.'' @ name" "is_ascii name"
    and "sk_assemble skill [] \<lparr>en_artifact_id = pre @ ''-0001'', en_created_at = ps_created_at s, en_actor = [],
           en_run_id = ''RUN-1'', en_bindings = bindings\<rparr> = Inr artifact"
    and "sk_output_schema skill = t @ ''.schema.json''" "plain_type t" "set (sk_context_keys skill) \<subseteq> fst ` set ps"
    and "dget ARTIFACT_ID_PREFIX kind = Some pre" "dget (ps_counters s) kind = None"
    and "add_links artifact links = Inr doc" "fine doc" "dget doc ''artifact_type'' = Some (PStr t)"
  shows "\<exists>st s' w'. pipe_skill run_pipeline name kind (map (\<lambda>(n, d). approved_input n d) ps) bindings links (s, w) = (Inr (st, doc), s', w')
    \<and> in_repo w' \<and> ps_created_at s' = ps_created_at s"
proof -
  define s1 where "s1 = s\<lparr>ps_counters := dset kind 1 (ps_counters s)\<rparr>"
  have aid: "pipe_artifact_id kind (s, w) = (Inr (pre @ ''-0001''), s1, w)"
    using assms(9,10) first_number by (simp add: pipe_artifact_id_def s1_def)
  have "is_ascii (''skill.'' @ name)" using assms(4) by simp
  then obtain token check where t: "reg_issue demo_runs ''RUN-1'' (''skill.'' @ name) ''skills'' DEFAULT_TTL_SECONDS None 20 = Inr token"
      "reg_check demo_runs token (''skill.'' @ name) ''skills'' None 20 = Inr check" "chk_valid check"
    using run_issue [of "''skill.'' @ name" "''skills''"] by auto
  define call where "call = \<lparr>sc_run_id = ''RUN-1'', sc_token = token, sc_skill_name = name, sc_inputs = map (\<lambda>(n, d). approved_input n d) ps,
       sc_bindings = bindings, sc_artifact_id = pre @ ''-0001'', sc_created_at = ps_created_at s1,
       sc_decision_id = ''PD-'' @ zero_pad 4 (ps_decision_seq s1 + 1), sc_evidence_id = ''EV-'' @ zero_pad 4 (ps_evidence_seq s1 + 1),
       sc_scope = ''skills''\<rparr>"
  have "sk_assemble skill [] (skill_envelope call []) = Inr artifact"
    using assms(5) by (simp add: skill_envelope_def call_def s1_def)
  then obtain res w1 where r: "skill_run (pp_runner run_pipeline) 20 call w = (Inr res, w1)" "sr_allowed res"
      "sr_artifact res = Some artifact" "in_repo w1"
    using run_runs_skill [OF assms(1,2) _ assms(6-8), where call = call and check = check] t by (auto simp: call_def)
  define s2 where "s2 = s1\<lparr>ps_decision_seq := ps_decision_seq s1 + 1, ps_evidence_seq := ps_evidence_seq s1 + 1, ps_readings := ps_readings s1 + 2\<rparr>"
  obtain st s' w' where p: "pipe_persist run_pipeline kind (pre @ ''-0001'') doc (s2, w1) = (Inr st, s', w')" "in_repo w'"
      "ps_created_at s' = ps_created_at s"
    using run_persists [OF r(4) assms(12,7,13), of kind "pre @ ''-0001''" s2] by (auto simp: s2_def s1_def)
  have "pipe_skill run_pipeline name kind (map (\<lambda>(n, d). approved_input n d) ps) bindings links (s, w) = (Inr (st, doc), s', w')"
    unfolding pipe_skill_def issue_for_def read_clock_def get_created_at_def pipe_decision_id_def pipe_evidence_id_def
    using assms(2,3,11) t(1) r(2,3)
    by (simp add: bindP_step [where m = "pipe_artifact_id kind", OF aid] bindP_assoc bindP_io r(1) [unfolded call_def, simplified]
        bindP_step [where m = "pipe_persist run_pipeline kind (pre @ ''-0001'') doc", OF p(1) [unfolded s2_def, simplified]])
  with p(2,3) show ?thesis by blast
qed

section \<open>The documents of the run\<close>

definition assembled :: "string \<Rightarrow> string \<Rightarrow> pydict \<Rightarrow> bool" where
  "assembled t aid artifact \<longleftrightarrow> ascii_val (PDict artifact) \<and> ints_ok (PDict artifact) \<and> dget artifact ''links'' = None
     \<and> dget artifact ''artifact_type'' = Some (PStr t) \<and> dget artifact ''id'' = Some (PStr aid)"

abbreviation run_envelope :: "string \<Rightarrow> pydict \<Rightarrow> envelope" where
  "run_envelope aid bindings \<equiv> \<lparr>en_artifact_id = aid, en_created_at = ''T'', en_actor = [], en_run_id = ''RUN-1'', en_bindings = bindings\<rparr>"

abbreviation feature :: "string \<times> pyval" where
  "feature \<equiv> (''feature_id'', PStr ''FEAT-1'')"

lemma assembled_docs:
  "\<exists>artifact. sk_assemble GRILL [] (run_envelope ''SPEC-0001'' [feature]) = Inr artifact \<and> assembled ''specification'' ''SPEC-0001'' artifact"
  "\<exists>artifact. sk_assemble GRILL_SECURITY [] (run_envelope ''TM-0001'' [feature]) = Inr artifact \<and> assembled ''threat-model'' ''TM-0001'' artifact
     \<and> dget artifact ''risks'' = Some (PList [])"
  "\<exists>artifact. sk_assemble PLANNER [] (run_envelope ''PLAN-0001'' [feature]) = Inr artifact \<and> assembled ''plan'' ''PLAN-0001'' artifact"
  "\<exists>artifact. sk_assemble TASK_WRITER [] (run_envelope ''TASK-0001'' [feature, (''plan_id'', PStr ''PLAN-0001'')]) = Inr artifact
     \<and> assembled ''task'' ''TASK-0001'' artifact"
  "is_ascii d \<Longrightarrow> \<exists>artifact. sk_assemble REVIEWER [] (run_envelope ''REV-0001'' [feature, (''task_id'', PStr ''TASK-0001''), (''subject_digest'', PStr d)])
     = Inr artifact \<and> assembled ''review'' ''REV-0001'' artifact"
  by (simp_all add: skill_defs assemble_defs assembled_def dindex_def dupdate_def)

lemma ascii_pairs_dset: "ascii_pairs d \<Longrightarrow> is_ascii k \<Longrightarrow> ascii_val v \<Longrightarrow> ascii_pairs (dset k v d)"
  by (induction d) auto

lemma ints_pairs_dset: "ints_ok_pairs d \<Longrightarrow> ints_ok v \<Longrightarrow> ints_ok_pairs (dset k v d)"
  by (induction d) auto

lemma linked_doc:
  assumes "assembled t aid artifact" "is_ascii rel" "is_ascii href"
  shows "\<exists>doc. add_links artifact (one_link rel href) = Inr doc \<and> fine doc \<and> dget doc ''artifact_type'' = Some (PStr t)
    \<and> dget doc ''id'' = Some (PStr aid) \<and> (\<forall>k. k \<noteq> ''links'' \<longrightarrow> dget doc k = dget artifact k)"
proof -
  let ?doc = "dset ''links'' (PList [PDict [(''rel'', PStr rel), (''href'', PStr href)]]) artifact"
  have "add_links artifact (one_link rel href) = Inr ?doc"
    using assms(1) by (simp add: assembled_def add_links_def one_link_def link_href_of_def dindex_def)
  moreover have "\<exists>links. local_link_targets ?doc = Inr links" by (simp add: local_link_targets_def link_href_def)
  ultimately show ?thesis
    using assms by (simp add: fine_def assembled_def ascii_pairs_dset ints_pairs_dset)
qed

section \<open>The run\<close>

definition run_idea :: pydict where
  "run_idea = [(''artifact_type'', PStr ''idea'')]"

definition run_world :: world where
  "run_world = \<lparr>w_fs = run_fs (\<lambda>_. None), w_calls = []\<rparr>"

lemma run_idea_fine: "fine run_idea" "dget run_idea ''artifact_type'' = Some (PStr ''idea'')"
  by (simp_all add: fine_def run_idea_def local_link_targets_def)

lemma run_starts:
  "\<exists>st s' w'. pipe_idea run_pipeline run_idea (new_pipe_state\<lparr>ps_created_at := ''T''\<rparr>, run_world) = (Inr (''IDEA-0001'', st), s', w')
     \<and> in_repo w' \<and> ps_created_at s' = ''T''"
proof -
  let ?s = "new_pipe_state\<lparr>ps_created_at := ''T''\<rparr>"
  define s1 where "s1 = ?s\<lparr>ps_counters := [(''idea'', 1)]\<rparr>"
  have a: "pipe_artifact_id ''idea'' (?s, run_world) = (Inr ''IDEA-0001'', s1, run_world)"
    using first_number by (simp add: pipe_artifact_id_def ARTIFACT_ID_PREFIX_def new_pipe_state_def s1_def)
  have "in_repo run_world" by (auto simp: in_repo_def run_world_def)
  from run_persists [OF this run_idea_fine(1) _ run_idea_fine(2), of "''idea''" "''IDEA-0001''" s1]
  obtain st s' w' where p: "pipe_persist run_pipeline ''idea'' ''IDEA-0001'' run_idea (s1, run_world) = (Inr st, s', w')" "in_repo w'"
      "ps_created_at s' = ''T''"
    by (auto simp: plain_type_def s1_def)
  have "dget_or run_idea ''id'' PNone = PNone" by (simp add: run_idea_def)
  then have "pipe_idea run_pipeline run_idea (?s, run_world) = (Inr (''IDEA-0001'', st), s', w')"
    by (simp add: pipe_idea_def bindP_step [where m = "pipe_artifact_id ''idea''", OF a]
        bindP_step [where m = "pipe_persist run_pipeline ''idea'' ''IDEA-0001'' run_idea", OF p(1)])
  with p(2,3) show ?thesis by blast
qed

text \<open>One skill stage of the run, from the state that the stages before it reached.\<close>

lemma run_stage:
  assumes "in_repo w" "ps_created_at s = ''T''" "reached n kinds written s" "kind \<notin> set kinds"
    and "skill_get run_skills name = Inr skill" "sk_tool_name skill = ''skill.'' @ name" "is_ascii name"
    and "dget ARTIFACT_ID_PREFIX kind = Some pre" "aid = pre @ ''-0001''"
    and "sk_assemble skill [] (run_envelope aid bindings) = Inr artifact" "assembled t aid artifact"
    and "sk_output_schema skill = t @ ''.schema.json''" "plain_type t" "set (sk_context_keys skill) \<subseteq> fst ` set ps"
    and "is_ascii rel" "is_ascii href" "m = n + 2"
  obtains st doc s' w' where
    "pipe_skill run_pipeline name kind (map (\<lambda>(n, d). approved_input n d) ps) bindings (one_link rel href) (s, w) = (Inr (st, doc), s', w')"
    "in_repo w'" "ps_created_at s' = ''T''" "reached m (kind # kinds) (dset aid doc written) s'" "fine doc"
    "dget doc ''id'' = Some (PStr aid)" "\<And>k. k \<noteq> ''links'' \<Longrightarrow> dget doc k = dget artifact k"
proof -
  obtain doc where d: "add_links artifact (one_link rel href) = Inr doc" "fine doc" "dget doc ''artifact_type'' = Some (PStr t)"
      "dget doc ''id'' = Some (PStr aid)" "\<And>k. k \<noteq> ''links'' \<Longrightarrow> dget doc k = dget artifact k"
    using linked_doc [OF assms(11,15,16)] by blast
  have c: "dget (ps_counters s) kind = None" using assms(3,4) by (simp add: reached_def)
  have a: "sk_assemble skill [] \<lparr>en_artifact_id = pre @ ''-0001'', en_created_at = ps_created_at s, en_actor = [],
           en_run_id = ''RUN-1'', en_bindings = bindings\<rparr> = Inr artifact"
    using assms(2,9,10) by simp
  obtain st s' w' where r: "pipe_skill run_pipeline name kind (map (\<lambda>(n, d). approved_input n d) ps) bindings (one_link rel href) (s, w)
      = (Inr (st, doc), s', w')" "in_repo w'" "ps_created_at s' = ps_created_at s"
    using run_skill_stage [OF assms(1,5,6,7) a assms(12,13,14,8) c d(1,2,3)] by blast
  have "reached m (kind # kinds) (dset aid doc written) s'"
    using reached_skill [OF r(1) assms(3,4,8,17,9)] by blast
  then show ?thesis using that [OF r(1,2)] r(3) assms(2) d by simp
qed

lemma pipe_runI:
  assumes "pipe_idea pp idea (s\<lparr>ps_created_at := created_at\<rparr>, w) = (Inr (idea_id, st1), sp1, w1)"
    "pipe_skill pp ''grill'' ''specification'' [approved_input ''idea'' idea] [(''feature_id'', PStr (pp_feature_id pp))]
       (one_link ''requirement'' (pipe_href pp idea_id)) (sp1, w1) = (Inr (st2, spec), sp2, w2)"
    "link_to pp ''requirement'' spec = Inr l3"
    "pipe_skill pp ''grill-security'' ''threat-model'' [approved_input ''specification'' spec]
       [(''feature_id'', PStr (pp_feature_id pp))] l3 (sp2, w2) = (Inr (st3, tm), sp3, w3)"
    "link_to pp ''threat'' tm = Inr l4"
    "pipe_skill pp ''planner'' ''plan'' [approved_input ''specification'' spec, approved_input ''threat-model'' tm]
       [(''feature_id'', PStr (pp_feature_id pp))] l4 (sp3, w3) = (Inr (st4, plan), sp4, w4)"
    "dindex plan ''id'' = Inr plan_id" "link_to pp ''plan'' plan = Inr l5"
    "pipe_skill pp ''task-writer'' ''task'' [approved_input ''specification'' spec, approved_input ''plan'' plan]
       [(''feature_id'', PStr (pp_feature_id pp)), (''plan_id'', plan_id)] l5 (sp4, w4) = (Inr (st5, task), sp5, w5)"
    "pipe_security_review pp created_at tm (sp5, w5) = (Inr st6, sp6, w6)"
    "pipe_review pp task (sp6, w6) = (Inr (st7, review), s', w')"
    "pipe_trace pp s' = Inr trace"
  shows "\<exists>res. pipe_run pp idea created_at (s, w) = (Inr res, s', w')"
  unfolding pipe_run_def using assms by (simp add: bindP_def)

lemma run_security_review:
  assumes "in_repo w" "ps_created_at s = ''T''" "reached n kinds written s" "''security-review'' \<notin> set kinds" "m = n + 1"
    and "dget tm ''id'' = Some (PStr ''TM-0001'')" "dget tm ''risks'' = Some (PList [])"
  obtains st doc s' w' where "pipe_security_review run_pipeline ''T'' tm (s, w) = (Inr st, s', w')" "in_repo w'"
    "ps_created_at s' = ''T''" "reached m (''security-review'' # kinds) (dset ''SECREV-0001'' doc written) s'" "fine doc"
proof -
  define s1 where "s1 = s\<lparr>ps_counters := dset ''security-review'' 1 (ps_counters s)\<rparr>"
  have "dget (ps_counters s) ''security-review'' = None" using assms(3,4) by (simp add: reached_def)
  then have a: "pipe_artifact_id ''security-review'' (s, w) = (Inr ''SECREV-0001'', s1, w)"
    using first_number by (simp add: pipe_artifact_id_def ARTIFACT_ID_PREFIX_def s1_def)
  obtain doc where d: "build_security_review ''FEAT-1'' tm ''SECREV-0001'' ''T'' security_actor ''RUN-1'' (pipe_href run_pipeline ''TM-0001'') = Inr doc"
      "fine doc" "dget doc ''artifact_type'' = Some (PStr ''security-review'')"
    using assms(6,7)
    by (simp add: build_security_review_def fine_def security_actor_def pipe_href_def local_link_targets_def link_href_def)
  obtain st s' w' where p: "pipe_persist run_pipeline ''security-review'' ''SECREV-0001'' doc (s1, w) = (Inr st, s', w')" "in_repo w'"
      "ps_created_at s' = ''T''"
    using run_persists [OF assms(1) d(2) _ d(3), of "''security-review''" "''SECREV-0001''" s1] assms(2) by (auto simp: plain_type_def s1_def)
  have "pipe_security_review run_pipeline ''T'' tm (s, w) = (Inr st, s', w')"
    using assms(6) d(1) p(1)
    by (simp add: pipe_security_review_def bindP_step [where m = "pipe_artifact_id ''security-review''", OF a] dindex_def)
  moreover have "reached m (''security-review'' # kinds) (dset ''SECREV-0001'' doc written) s'"
    using pipe_persist_Inr [OF p(1)] assms(3,5) by (simp add: reached_def s1_def)
  ultimately show ?thesis using that p(2,3) d(2) by blast
qed

lemma run_digest:
  assumes "fine doc"
  shows "\<exists>d. sha256_digest (PDict doc) = Inr d \<and> is_ascii d"
proof -
  have "ints_ok (PDict doc)" "is_ascii (json_dumps opts_canonical (PDict doc))"
    using assms ascii_dumps(1) unfolding fine_def by blast+
  then have "sha256_digest (PDict doc) = Inr (sha256_hex (json_dumps opts_canonical (PDict doc)))"
    unfolding sha256_digest_def canonical_json_def by (simp only: dumps_def if_True bindR_Inr encode_utf8_ascii)
  moreover have "is_ascii (sha256_hex x)" for x by (rule is_hex_ascii) (rule sha256_hex_hex)
  ultimately show ?thesis by blast
qed

lemma list_all_update: "list_all P m \<Longrightarrow> P (k, v) \<Longrightarrow> list_all P (AList.update k v m)"
  by (induction m) auto

lemma run_trace:
  assumes "list_all (\<lambda>(aid, doc). fine doc) (ps_written s)" "list_all (\<lambda>(aid, doc). \<not> is_absolute (aid @ ''.json'')) (ps_written s)"
  shows "\<exists>trace. pipe_trace run_pipeline s = Inr trace"
proof -
  have "index_readable [''r''] (fold (\<lambda>(aid, doc). AList.update (art_path [''r'', ''specs''] aid) doc) written index)"
    if "index_readable [''r''] index" "list_all (\<lambda>(aid, doc). fine doc) written" "list_all (\<lambda>(aid, doc). \<not> is_absolute (aid @ ''.json'')) written"
    for written index
    using that
  proof (induction written arbitrary: index)
    case (Cons x written)
    obtain aid doc where x: "x = (aid, doc)" by (cases x)
    have "prefix [''r''] (art_path [''r'', ''specs''] aid)" using Cons.prems(3) x by (simp add: art_path_def path_join_def)
    moreover have "\<exists>links. local_link_targets doc = Inr links" using Cons.prems(2) x by (simp add: fine_def)
    ultimately have "index_readable [''r''] (AList.update (art_path [''r'', ''specs''] aid) doc index)"
      unfolding index_readable_def by (intro list_all_update) (use Cons.prems(1) in \<open>simp_all add: index_readable_def\<close>)
    then show ?case using Cons x by simp
  qed simp
  from this [OF _ assms, of "[]"] show ?thesis
    unfolding pipe_trace_def by (intro trace_feature_total) (simp_all add: index_readable_def)
qed

lemma run_finishes: "\<exists>res s' w'. pipe_run run_pipeline run_idea ''T'' (new_pipe_state, run_world) = (Inr res, s', w')"
proof -
  have g: "skill_get run_skills ''grill'' = Inr GRILL" "skill_get run_skills ''grill-security'' = Inr GRILL_SECURITY"
    "skill_get run_skills ''planner'' = Inr PLANNER" "skill_get run_skills ''task-writer'' = Inr TASK_WRITER"
    "skill_get run_skills ''reviewer'' = Inr REVIEWER" by (simp_all add: run_skills_eq(2) skill_get_def)
  obtain st1 s1 w1 where i: "pipe_idea run_pipeline run_idea (new_pipe_state\<lparr>ps_created_at := ''T''\<rparr>, run_world) = (Inr (''IDEA-0001'', st1), s1, w1)"
      "in_repo w1" "ps_created_at s1 = ''T''"
    using run_starts by blast
  have r1: "reached 1 [''idea''] [(''IDEA-0001'', run_idea)] s1" using reached_idea [OF i(1)] by blast
  obtain a2 where a2: "sk_assemble GRILL [] (run_envelope ''SPEC-0001'' [feature]) = Inr a2" "assembled ''specification'' ''SPEC-0001'' a2"
    using assembled_docs(1) by blast
  obtain st2 spec s2 w2 where k2: "pipe_skill run_pipeline ''grill'' ''specification'' (map (\<lambda>(n, d). approved_input n d) [(''idea'', run_idea)]) [feature]
      (one_link ''requirement'' ''specs/IDEA-0001.json'') (s1, w1) = (Inr (st2, spec), s2, w2)"
      "in_repo w2" "ps_created_at s2 = ''T''" "reached 3 [''specification'', ''idea''] (dset ''SPEC-0001'' spec [(''IDEA-0001'', run_idea)]) s2"
      "fine spec" "dget spec ''id'' = Some (PStr ''SPEC-0001'')"
    by (rule run_stage [OF i(2,3) r1 _ g(1) _ _ _ _ a2, where kind = "''specification''" and pre = "''SPEC''" and m = 3
          and ps = "[(''idea'', run_idea)]" and rel = "''requirement''" and href = "''specs/IDEA-0001.json''"])
      (simp_all add: GRILL_def ARTIFACT_ID_PREFIX_def plain_type_def)
  let ?m2 = "dset ''SPEC-0001'' spec [(''IDEA-0001'', run_idea)]"
  obtain a3 where a3: "sk_assemble GRILL_SECURITY [] (run_envelope ''TM-0001'' [feature]) = Inr a3" "assembled ''threat-model'' ''TM-0001'' a3"
      "dget a3 ''risks'' = Some (PList [])"
    using assembled_docs(2) by blast
  obtain st3 tm s3 w3 where k3: "pipe_skill run_pipeline ''grill-security'' ''threat-model''
        (map (\<lambda>(n, d). approved_input n d) [(''specification'', spec)]) [feature]
      (one_link ''requirement'' ''specs/SPEC-0001.json'') (s2, w2) = (Inr (st3, tm), s3, w3)"
      "in_repo w3" "ps_created_at s3 = ''T''" "reached 5 [''threat-model'', ''specification'', ''idea''] (dset ''TM-0001'' tm ?m2) s3"
      "fine tm" "dget tm ''id'' = Some (PStr ''TM-0001'')" "\<And>k. k \<noteq> ''links'' \<Longrightarrow> dget tm k = dget a3 k"
    by (rule run_stage [OF k2(2,3,4) _ g(2) _ _ _ _ a3(1,2), where kind = "''threat-model''" and pre = "''TM''" and m = 5
          and ps = "[(''specification'', spec)]" and rel = "''requirement''" and href = "''specs/SPEC-0001.json''"])
      (simp_all add: GRILL_SECURITY_def ARTIFACT_ID_PREFIX_def plain_type_def)
  let ?m3 = "dset ''TM-0001'' tm ?m2"
  obtain a4 where a4: "sk_assemble PLANNER [] (run_envelope ''PLAN-0001'' [feature]) = Inr a4" "assembled ''plan'' ''PLAN-0001'' a4"
    using assembled_docs(3) by blast
  obtain st4 plan s4 w4 where k4: "pipe_skill run_pipeline ''planner'' ''plan''
        (map (\<lambda>(n, d). approved_input n d) [(''specification'', spec), (''threat-model'', tm)]) [feature]
      (one_link ''threat'' ''specs/TM-0001.json'') (s3, w3) = (Inr (st4, plan), s4, w4)"
      "in_repo w4" "ps_created_at s4 = ''T''" "reached 7 [''plan'', ''threat-model'', ''specification'', ''idea''] (dset ''PLAN-0001'' plan ?m3) s4"
      "fine plan" "dget plan ''id'' = Some (PStr ''PLAN-0001'')"
    by (rule run_stage [OF k3(2,3,4) _ g(3) _ _ _ _ a4, where kind = "''plan''" and pre = "''PLAN''" and m = 7
          and ps = "[(''specification'', spec), (''threat-model'', tm)]" and rel = "''threat''" and href = "''specs/TM-0001.json''"])
      (simp_all add: PLANNER_def ARTIFACT_ID_PREFIX_def plain_type_def)
  let ?m4 = "dset ''PLAN-0001'' plan ?m3"
  obtain a5 where a5: "sk_assemble TASK_WRITER [] (run_envelope ''TASK-0001'' [feature, (''plan_id'', PStr ''PLAN-0001'')]) = Inr a5"
      "assembled ''task'' ''TASK-0001'' a5"
    using assembled_docs(4) by blast
  obtain st5 task s5 w5 where k5: "pipe_skill run_pipeline ''task-writer'' ''task''
        (map (\<lambda>(n, d). approved_input n d) [(''specification'', spec), (''plan'', plan)]) [feature, (''plan_id'', PStr ''PLAN-0001'')]
      (one_link ''plan'' ''specs/PLAN-0001.json'') (s4, w4) = (Inr (st5, task), s5, w5)"
      "in_repo w5" "ps_created_at s5 = ''T''"
      "reached 9 [''task'', ''plan'', ''threat-model'', ''specification'', ''idea''] (dset ''TASK-0001'' task ?m4) s5"
      "fine task" "dget task ''id'' = Some (PStr ''TASK-0001'')"
    by (rule run_stage [OF k4(2,3,4) _ g(4) _ _ _ _ a5, where kind = "''task''" and pre = "''TASK''" and m = 9
          and ps = "[(''specification'', spec), (''plan'', plan)]" and rel = "''plan''" and href = "''specs/PLAN-0001.json''"])
      (simp_all add: TASK_WRITER_def ARTIFACT_ID_PREFIX_def plain_type_def)
  let ?m5 = "dset ''TASK-0001'' task ?m4"
  have risks: "dget tm ''risks'' = Some (PList [])" using k3(7) a3(3) by simp
  obtain st6 secrev s6 w6 where k6: "pipe_security_review run_pipeline ''T'' tm (s5, w5) = (Inr st6, s6, w6)" "in_repo w6"
      "ps_created_at s6 = ''T''" "reached 10 [''security-review'', ''task'', ''plan'', ''threat-model'', ''specification'', ''idea'']
        (dset ''SECREV-0001'' secrev ?m5) s6" "fine secrev"
    by (rule run_security_review [OF k5(2,3,4) _ _ k3(6) risks, where m = 10]) simp_all
  let ?m6 = "dset ''SECREV-0001'' secrev ?m5"
  obtain d where d: "sha256_digest (PDict task) = Inr d" "is_ascii d" using run_digest [OF k5(5)] by blast
  let ?b7 = "[feature, (''task_id'', PStr ''TASK-0001''), (''subject_digest'', PStr d)]"
  obtain a7 where a7: "sk_assemble REVIEWER [] (run_envelope ''REV-0001'' ?b7) = Inr a7" "assembled ''review'' ''REV-0001'' a7"
    using assembled_docs(5) [OF d(2)] by blast
  obtain st7 review s7 w7 where k7: "pipe_skill run_pipeline ''reviewer'' ''review''
        (map (\<lambda>(n, d). approved_input n d) [(''task'', task)]) ?b7
      (one_link ''task'' ''specs/TASK-0001.json'') (s6, w6) = (Inr (st7, review), s7, w7)"
      "in_repo w7" "ps_created_at s7 = ''T''"
      "reached 12 [''review'', ''security-review'', ''task'', ''plan'', ''threat-model'', ''specification'', ''idea''] (dset ''REV-0001'' review ?m6) s7"
      "fine review" "dget review ''id'' = Some (PStr ''REV-0001'')"
    by (rule run_stage [OF k6(2,3,4) _ g(5) _ _ _ _ a7, where kind = "''review''" and pre = "''REV''" and m = 12
          and ps = "[(''task'', task)]" and rel = "''task''" and href = "''specs/TASK-0001.json''"])
      (simp_all add: REVIEWER_def ARTIFACT_ID_PREFIX_def plain_type_def)
  have w: "ps_written s7 = dset ''REV-0001'' review ?m6" using k7(4) by (simp only: reached_def)
  have "list_all (\<lambda>(aid, doc). fine doc) (ps_written s7)" unfolding w
    by (intro all_stored_dset k2(5) k3(5) k4(5) k5(5) k6(5) k7(5)) (simp add: run_idea_fine)
  moreover have "list_all (\<lambda>(aid, doc). \<not> is_absolute (aid @ ''.json'')) (ps_written s7)" unfolding w
    by (intro list_all_update) (simp_all add: is_absolute_def starts_with_def)
  ultimately obtain trace where t: "pipe_trace run_pipeline s7 = Inr trace" using run_trace by blast
  have l: "link_to run_pipeline ''requirement'' spec = Inr (one_link ''requirement'' ''specs/SPEC-0001.json'')"
    "link_to run_pipeline ''threat'' tm = Inr (one_link ''threat'' ''specs/TM-0001.json'')"
    "link_to run_pipeline ''plan'' plan = Inr (one_link ''plan'' ''specs/PLAN-0001.json'')"
    "link_to run_pipeline ''task'' task = Inr (one_link ''task'' ''specs/TASK-0001.json'')"
    using k2(6) k3(6) k4(6) k5(6) by (simp_all add: link_to_def dindex_def pipe_href_def)
  have h: "pipe_href run_pipeline ''IDEA-0001'' = ''specs/IDEA-0001.json''" by (simp add: pipe_href_def)
  have p: "dindex plan ''id'' = Inr (PStr ''PLAN-0001'')" using k4(6) by (simp add: dindex_def)
  have r: "pipe_review run_pipeline task (s6, w6) = (Inr (st7, review), s7, w7)"
    using k7(1) k5(6) d(1) l(4) by (simp add: pipe_review_def dindex_def)
  show ?thesis
    using pipe_runI [OF i(1) _ l(1) _ l(2) _ p l(3) _ k6(1) r t] k2(1) k3(1) k4(1) k5(1) by (simp add: h) blast
qed

theorem pipeline_stages_in_order_witness:
  "\<exists>res s' w'. pipe_run run_pipeline run_idea ''T'' (new_pipe_state, run_world) = (Inr res, s', w')
     \<and> map st_stage (pl_stages res) =
       [''idea'', ''specification'', ''threat-model'', ''plan'', ''task'', ''security-review'', ''review'']"
proof -
  obtain res s' w' where r: "pipe_run run_pipeline run_idea ''T'' (new_pipe_state, run_world) = (Inr res, s', w')"
    using run_finishes by blast
  show ?thesis by (intro exI conjI) (rule r, rule conjunct1 [OF pipeline_stages_in_order [OF r]])
qed

theorem pipeline_chain_linked_witness:
  "\<exists>res s' w' tm. pipe_run run_pipeline run_idea ''T'' (new_pipe_state, run_world) = (Inr res, s', w')
     \<and> dget (pl_artifacts res) ''TM-0001'' = Some tm \<and> has_link_to tm (pipe_href run_pipeline ''SPEC-0001'')
     \<and> (\<exists>spec. dget (pl_artifacts res) ''SPEC-0001'' = Some spec
          \<and> produced_by run_pipeline ''grill-security'' [approved_input ''specification'' spec] ''TM-0001''
              (one_link ''requirement'' (pipe_href run_pipeline ''SPEC-0001'')) tm)"
proof -
  obtain res s' w' where r: "pipe_run run_pipeline run_idea ''T'' (new_pipe_state, run_world) = (Inr res, s', w')"
    using run_finishes by blast
  have "default_skills run_pipeline" by (simp add: default_skills_def run_runner run_skills_eq(1))
  from pipeline_chain_linked [OF r this] r show ?thesis by blast
qed

end
