(* ===== verification/PipelineTrace.thy ===== *)
theory PipelineTrace
  imports PipelineRun
begin

text \<open>
  The pipeline and the traceability report together (\<open>pipeline/orchestrator.py\<close>, \<open>traceability.py\<close>):
  what the report at the end of a completed run says about the documents that the run has stored.
  The documents of a run are a list of identifiers with documents; the lemmas first compute the
  index and the references that the search is given for such a list, then the links of the
  documents that the built-in skills make, and the property follows from the exactness of the
  search.
\<close>

section \<open>References and files\<close>

text \<open>The reference prefix names the directory of the store below the repository root.\<close>

definition hrefs_resolve :: "pipeline \<Rightarrow> bool" where
  "hrefs_resolve pp \<longleftrightarrow>
     (\<exists>parts. parts \<noteq> [] \<and> pp_store pp = pp_repo_root pp @ parts \<and> join ''/'' parts = pp_href_prefix pp)"

definition plain_id :: "string \<Rightarrow> bool" where
  "plain_id i \<longleftrightarrow> CHR ''/'' \<notin> set i"

definition file_of :: "pipeline \<Rightarrow> string \<Rightarrow> path" where
  "file_of pp i = pp_store pp @ [i @ ''.json'']"

definition index_of :: "pipeline \<Rightarrow> pydict dict \<Rightarrow> index" where
  "index_of pp docs = map (\<lambda>(i, doc). (file_of pp i, doc)) docs"

definition hrefs_of :: "pipeline \<Rightarrow> pydict dict \<Rightarrow> path dict" where
  "hrefs_of pp docs = map (\<lambda>(i, doc). (pipe_href pp i, file_of pp i)) docs"

lemma file_of_eq [simp]: "file_of pp i = file_of pp j \<longleftrightarrow> i = j"
  by (simp add: file_of_def)

lemma pipe_href_eq [simp]: "pipe_href pp i = pipe_href pp j \<longleftrightarrow> i = j"
  by (simp add: pipe_href_def)

lemma art_path_plain: "plain_id i \<Longrightarrow> art_path (pp_store pp) i = file_of pp i"
  by (cases i) (auto simp: art_path_def file_of_def plain_id_def path_join_def is_absolute_def starts_with_def path_parts_def
      split_on_none)

lemma update_fresh: "k \<notin> fst ` set m \<Longrightarrow> AList.update k v m = m @ [(k, v)]"
  by (induction m) auto

lemma fold_update_fresh:
  assumes "inj f" "distinct (map fst docs)" "f ` fst ` set docs \<inter> fst ` set acc = {}"
  shows "fold (\<lambda>(i, doc). AList.update (f i) doc) docs acc = acc @ map (\<lambda>(i, doc). (f i, doc)) docs"
  using assms
proof (induction docs arbitrary: acc)
  case (Cons x docs)
  obtain i doc where x: "x = (i, doc)" by (cases x)
  have "AList.update (f i) doc acc = acc @ [(f i, doc)]" using Cons.prems(3) x by (intro update_fresh) auto
  moreover have "f ` fst ` set docs \<inter> fst ` set (acc @ [(f i, doc)]) = {}"
    using Cons.prems x by (auto simp: image_iff dest: injD)
  ultimately show ?case using Cons.IH [OF assms(1)] Cons.prems x by simp
qed simp

lemma trace_index:
  assumes "distinct (map fst docs)" "list_all plain_id (map fst docs)"
  shows "fold (\<lambda>(i, doc) index. AList.update (art_path (pp_store pp) i) doc index) docs [] = index_of pp docs"
proof -
  have "fold (\<lambda>(i, doc) index. AList.update (art_path (pp_store pp) i) doc index) docs []
      = fold (\<lambda>(i, doc). AList.update (file_of pp i) doc) docs []"
    using assms(2) by (intro fold_cong) (auto simp: list_all_iff art_path_plain)
  also have "\<dots> = index_of pp docs"
    using fold_update_fresh [of "file_of pp" docs "[]"] assms(1) by (simp add: index_of_def inj_def)
  finally show ?thesis .
qed

lemma join_snoc: "parts \<noteq> [] \<Longrightarrow> join sep (parts @ [s]) = join sep parts @ sep @ s"
  by (induction sep parts rule: join.induct) auto

lemma relative_file: "hrefs_resolve pp \<Longrightarrow> relative_posix (pp_repo_root pp) (file_of pp i) = Inr (pipe_href pp i)"
  by (auto simp: hrefs_resolve_def relative_posix_def file_of_def pipe_href_def join_snoc Let_def)

lemma by_href_onto_docs:
  assumes "hrefs_resolve pp" "distinct (map fst docs)" "pipe_href pp ` fst ` set docs \<inter> fst ` set acc = {}"
  shows "by_href_onto (pp_repo_root pp) (map fst (index_of pp docs)) acc = Inr (acc @ hrefs_of pp docs)"
  using assms
proof (induction docs arbitrary: acc)
  case (Cons x docs)
  obtain i doc where x: "x = (i, doc)" by (cases x)
  have "dset (pipe_href pp i) (file_of pp i) acc = acc @ [(pipe_href pp i, file_of pp i)]"
    using Cons.prems(3) x by (intro update_fresh) auto
  moreover have "pipe_href pp ` fst ` set docs \<inter> fst ` set (acc @ [(pipe_href pp i, file_of pp i)]) = {}"
    using Cons.prems x by (auto simp: image_iff)
  ultimately show ?case using Cons.IH [OF assms(1)] Cons.prems x by (simp add: index_of_def hrefs_of_def relative_file)
qed (simp add: index_of_def hrefs_of_def)

lemma by_href_docs:
  "hrefs_resolve pp \<Longrightarrow> distinct (map fst docs) \<Longrightarrow> by_href (pp_repo_root pp) (index_of pp docs) = Inr (hrefs_of pp docs)"
  using by_href_onto_docs [of pp docs "[]"] by (simp add: by_href_def)

lemma map_of_index: "map_of (index_of pp docs) (file_of pp i) = dget docs i"
  by (induction docs) (auto simp: index_of_def)

lemma dget_hrefs: "dget (hrefs_of pp docs) (pipe_href pp i) = (if i \<in> fst ` set docs then Some (file_of pp i) else None)"
  by (induction docs) (auto simp: hrefs_of_def)

lemma hrefs_None: "dget (hrefs_of pp docs) h = None \<longleftrightarrow> h \<notin> pipe_href pp ` fst ` set docs"
  by (auto simp: hrefs_of_def map_of_eq_None_iff image_iff)

section \<open>The search over the documents of a run\<close>

text \<open>A document whose only local link leads to the document \<open>j\<close>.\<close>

definition leads_to :: "pipeline \<Rightarrow> string \<Rightarrow> pydict \<Rightarrow> bool" where
  "leads_to pp j doc \<longleftrightarrow> local_link_targets doc = Inr [pipe_href pp j]"

lemma leads_connected:
  assumes "dget docs i = Some doc" "leads_to pp j doc" "j \<in> fst ` set docs"
  shows "(file_of pp i, file_of pp j) \<in> connected (hrefs_of pp docs) (index_of pp docs)"
    and "(file_of pp j, file_of pp i) \<in> connected (hrefs_of pp docs) (index_of pp docs)"
proof -
  have "links_to (hrefs_of pp docs) (index_of pp docs) (file_of pp i) (file_of pp j)"
    using assms by (simp add: links_to_def map_of_index leads_to_def dget_hrefs)
  then show "(file_of pp i, file_of pp j) \<in> connected (hrefs_of pp docs) (index_of pp docs)"
    "(file_of pp j, file_of pp i) \<in> connected (hrefs_of pp docs) (index_of pp docs)"
    unfolding connected_def by (auto intro: r_into_rtrancl)
qed

lemma connected_trans: "(p, q) \<in> connected h ix \<Longrightarrow> (q, r) \<in> connected h ix \<Longrightarrow> (p, r) \<in> connected h ix"
  unfolding connected_def by (rule rtrancl_trans)

lemma links_to_indexed:
  "links_to (hrefs_of pp docs) (index_of pp docs) p q \<Longrightarrow> p \<in> file_of pp ` fst ` set docs \<and> q \<in> file_of pp ` fst ` set docs"
  by (force simp: links_to_def hrefs_of_def index_of_def dest!: map_of_SomeD)

lemma chain_paths_indexed: "chain_paths (hrefs_of pp docs) (index_of pp docs) fid \<subseteq> file_of pp ` fst ` set docs"
proof
  let ?R = "{(p, q). links_to (hrefs_of pp docs) (index_of pp docs) p q \<or> links_to (hrefs_of pp docs) (index_of pp docs) q p}"
  fix q assume "q \<in> chain_paths (hrefs_of pp docs) (index_of pp docs) fid"
  then obtain p where p: "p \<in> set (seeds fid (index_of pp docs))" and pq: "(p, q) \<in> ?R\<^sup>*"
    by (auto simp: chain_paths_def connected_def)
  from p have "p \<in> file_of pp ` fst ` set docs" by (force simp: seeds_def index_of_def)
  with pq show "q \<in> file_of pp ` fst ` set docs"
    by (induction rule: rtrancl_induct) (auto dest!: links_to_indexed simp del: image_iff)
qed

text \<open>The node of a document in the report.\<close>

definition node_of :: "pipeline \<Rightarrow> string \<times> pydict \<Rightarrow> trace_node" where
  "node_of pp = (\<lambda>(i, doc).
     \<lparr>tn_artifact_id = py_str (dget_or doc ''id'' (PStr [])), tn_artifact_type = py_str (dget_or doc ''artifact_type'' (PStr [])),
      tn_path = pipe_href pp i, tn_feature_id = dget_or doc ''feature_id'' PNone\<rparr>)"

text \<open>When every document of the run is reachable, the report covers them all: it has one node per
  document, and the dangling links are the links of the documents to files that the run did not write.\<close>

lemma report_of_run:
  assumes resolve: "hrefs_resolve pp" and set_order: "enumerates (pp_set_order pp)"
    and docs: "distinct (map fst docs)" "list_all plain_id (map fst docs)"
    and trace: "pipe_trace pp s = Inr rep" "ps_written s = docs"
    and reach: "\<And>i. i \<in> fst ` set docs \<Longrightarrow> file_of pp i \<in> chain_paths (hrefs_of pp docs) (index_of pp docs) (pp_feature_id pp)"
  shows "tn_artifact_type ` set (tr_nodes rep) = (\<lambda>(i, doc). py_str (dget_or doc ''artifact_type'' (PStr []))) ` set docs
    \<and> tn_path ` set (tr_nodes rep) = pipe_href pp ` fst ` set docs
    \<and> tr_missing_types rep = filter (\<lambda>k. k \<notin> tn_artifact_type ` set (tr_nodes rep)) CHAIN_ORDER
    \<and> set (tr_dangling rep) = {h. \<exists>i doc links. dget docs i = Some doc \<and> local_link_targets doc = Inr links
         \<and> h \<in> set links \<and> h \<notin> pipe_href pp ` fst ` set docs}"
proof -
  let ?ix = "index_of pp docs" and ?h = "hrefs_of pp docs"
  have t: "trace_feature (pp_set_order pp) (pp_repo_root pp) (pp_feature_id pp) ?ix = Inr rep"
    using trace docs by (simp add: pipe_trace_def trace_index)
  have dist: "distinct (map fst ?ix)"
    using docs(1) by (simp add: index_of_def distinct_map inj_on_def split_beta)
  have all: "chain_paths ?h ?ix (pp_feature_id pp) = file_of pp ` fst ` set docs"
    using chain_paths_indexed reach by blast
  have node: "make_node (pp_repo_root pp) ?ix (file_of pp i) = Inr (node_of pp (i, doc))" if "(i, doc) \<in> set docs" for i doc
    using that docs(1) relative_file [OF resolve] by (simp add: make_node_def map_of_index node_of_def)
  from set_order dist t show ?thesis
  proof (rule trace_feature_selects)
    fix hrefs selected dangling nodes
    assume h: "by_href (pp_repo_root pp) ?ix = Inr hrefs"
      and s: "set selected = chain_paths hrefs ?ix (pp_feature_id pp)" "distinct selected"
      and d: "set dangling = {h. \<exists>p \<in> chain_paths hrefs ?ix (pp_feature_id pp). dangling_link hrefs ?ix p h}"
      and m: "mapR (make_node (pp_repo_root pp) ?ix) (pp_set_order pp selected) = Inr nodes"
      and rep: "rep = \<lparr>tr_feature_id = pp_feature_id pp, tr_nodes = sort_key node_sort_key nodes,
       tr_ordered_types = filter (List.member (map tn_artifact_type nodes)) CHAIN_ORDER,
       tr_missing_types = filter (\<lambda>k. \<not> List.member (map tn_artifact_type nodes) k) CHAIN_ORDER,
       tr_dangling = sort (remdups dangling)\<rparr>"
    have [simp]: "hrefs = ?h" using h by_href_docs [OF resolve docs(1)] by simp
    have "set (pp_set_order pp selected) = file_of pp ` fst ` set docs"
      using set_order s all by (simp add: enumerates_def)
    then have "set nodes = {n. \<exists>x \<in> set docs. make_node (pp_repo_root pp) ?ix (file_of pp (fst x)) = Inr n}"
      using mapR_Inr_set [OF m] mapR_Inr_all [OF m] by fastforce
    also have "\<dots> = node_of pp ` set docs" using node by (force simp: image_iff)
    finally have "set nodes = node_of pp ` set docs" .
    then have "tn_artifact_type ` set nodes = (\<lambda>(i, doc). py_str (dget_or doc ''artifact_type'' (PStr []))) ` set docs"
      "tn_path ` set nodes = pipe_href pp ` fst ` set docs"
      by (simp_all add: image_image node_of_def split_beta)
    moreover have "set dangling = {h. \<exists>i doc links. dget docs i = Some doc \<and> local_link_targets doc = Inr links
         \<and> h \<in> set links \<and> h \<notin> pipe_href pp ` fst ` set docs}"
      unfolding d using docs(1) by (force simp: all dangling_link_def map_of_index hrefs_None)
    ultimately show ?thesis by (simp add: rep)
  qed
qed

section \<open>The documents of the built-in skills\<close>

definition kind_of :: "pydict \<Rightarrow> string" where
  "kind_of doc = py_str (dget_or doc ''artifact_type'' (PStr []))"

definition output_kind :: "skill \<Rightarrow> string" where
  "output_kind skill = take (length (sk_output_schema skill) - length ''.schema.json'') (sk_output_schema skill)"

lemma assembled_kind:
  assumes "skill \<in> set DEFAULT_SKILLS" "sk_assemble skill content en = Inr artifact"
  shows "kind_of artifact = output_kind skill \<and> dget artifact ''links'' = None"
  using assms unfolding DEFAULT_SKILLS_def
  by (auto simp: skill_defs assemble_defs bindR_eq_Inr kind_of_def output_kind_def dupdate_def
      simp del: AList.update.simps)

lemma added_link:
  assumes "add_links artifact (one_link rel href) = Inr document" "dget artifact ''links'' = None" "ends_with ''.json'' href"
  shows "local_link_targets document = Inr [href] \<and> kind_of document = kind_of artifact"
  using assms by (auto simp: add_links_def one_link_def Let_def dindex_def local_link_targets_def link_href_def kind_of_def
      dget_or_def)

lemma pipe_href_local: "ends_with ''.json'' (pipe_href pp i)"
  by (simp add: pipe_href_def ends_with_def)

definition stage_skills :: "skill dict" where
  "stage_skills = [(''grill'', GRILL), (''grill-security'', GRILL_SECURITY), (''planner'', PLANNER), (''task-writer'', TASK_WRITER),
     (''reviewer'', REVIEWER)]"

lemma default_stage_skills: "build_default_registry = Inr stage_skills"
  by (simp add: stage_skills_def build_default_registry_def new_skill_registry_def DEFAULT_SKILLS_def skill_register_def skill_defs)

lemma produced_doc:
  assumes "produced_by pp name inputs aid (one_link rel (pipe_href pp j)) document" "default_skills pp" "dget stage_skills name = Some skill"
  shows "leads_to pp j document \<and> kind_of document = output_kind skill"
proof -
  from assms(1) obtain clock call w res w' artifact where r: "skill_run (pp_runner pp) clock call w = (Inr res, w')" "sr_allowed res"
      "sr_artifact res = Some artifact" "sc_skill_name call = name" "add_links artifact (one_link rel (pipe_href pp j)) = Inr document"
    unfolding produced_by_def by blast
  from skill_produced [OF r(1,2)] r(3) obtain run pr skill' ctx content where
      g: "skill_gates (pp_runner pp) clock call run pr skill' ctx"
      and a: "sk_assemble skill' content (skill_envelope call (r_actor run)) = Inr artifact"
    by auto
  have "kr_skills (pp_runner pp) = stage_skills" using assms(2) default_stage_skills by (metis default_skills_def sum.inject(2))
  then have "skill' = skill" using g r(4) assms(3) by (auto simp: skill_gates_def skill_get_def)
  moreover have "skill \<in> set DEFAULT_SKILLS" using assms(3) by (auto simp: stage_skills_def DEFAULT_SKILLS_def split: if_splits)
  ultimately have "kind_of artifact = output_kind skill" "dget artifact ''links'' = None" using assembled_kind a by blast+
  with added_link [OF r(5) _ pipe_href_local] show ?thesis by (simp add: leads_to_def)
qed

lemma chained_doc:
  assumes "chained pp name inputs aid rel before document" "dget before ''id'' = Some (PStr j)" "default_skills pp"
    and "dget stage_skills name = Some skill"
  shows "leads_to pp j document \<and> kind_of document = output_kind skill"
  using produced_doc [OF chained_produced [OF assms(1,2)] assms(3,4)] .

lemma security_review_doc:
  assumes "build_security_review fid tm aid t actor rid (pipe_href pp j) = Inr document"
  shows "leads_to pp j document \<and> kind_of document = ''security-review'' \<and> dget_or document ''feature_id'' PNone = PStr fid"
  using assms by (auto simp: build_security_review_def bindR_eq_Inr Let_def leads_to_def local_link_targets_def link_href_def
      kind_of_def pipe_href_local)

lemma output_kinds:
  "output_kind GRILL = ''specification''" "output_kind GRILL_SECURITY = ''threat-model''" "output_kind PLANNER = ''plan''"
  "output_kind TASK_WRITER = ''task''" "output_kind REVIEWER = ''review''"
  by (simp_all add: output_kind_def skill_defs)

section \<open>The report of a completed run\<close>

lemma run_traced:
  assumes "pipe_run pp idea created_at (new_pipe_state, w) = (Inr res, s', w')"
  shows "pipe_trace pp s' = Inr (pl_trace res) \<and> ps_written s' = pl_artifacts res"
  using assms by (rule pipe_run_stages) simp

definition later_ids :: "string list" where
  "later_ids = [''SPEC-0001'', ''TM-0001'', ''PLAN-0001'', ''TASK-0001'', ''SECREV-0001'', ''REV-0001'']"

text \<open>The documents of a completed run in the order they were written, with what is known of them.\<close>

lemma completed_docs:
  assumes "completed_run pp created_at idea_id idea spec tm plan task secrev review res" "default_skills pp"
    and "idea_id \<notin> set later_ids"
  shows "pl_artifacts res = (idea_id, idea) # zip later_ids [spec, tm, plan, task, secrev, review]"
    "list_all2 (\<lambda>(j, kind) doc. leads_to pp j doc \<and> kind_of doc = kind)
       [(idea_id, ''specification''), (''SPEC-0001'', ''threat-model''), (''TM-0001'', ''plan''), (''PLAN-0001'', ''task''),
        (''TM-0001'', ''security-review''), (''TASK-0001'', ''review'')] [spec, tm, plan, task, secrev, review]"
    "dget_or secrev ''feature_id'' PNone = PStr (pp_feature_id pp)"
proof -
  from assms(1) have k: "produced_by pp ''grill'' [approved_input ''idea'' idea] ''SPEC-0001'' (one_link ''requirement'' (pipe_href pp idea_id)) spec"
      "chained pp ''grill-security'' [approved_input ''specification'' spec] ''TM-0001'' ''requirement'' spec tm" "chained pp ''planner'' [approved_input ''specification'' spec, approved_input ''threat-model'' tm] ''PLAN-0001'' ''threat'' tm plan"
      "chained pp ''task-writer'' [approved_input ''specification'' spec, approved_input ''plan'' plan] ''TASK-0001'' ''plan'' plan task" "chained pp ''reviewer'' [approved_input ''task'' task] ''REV-0001'' ''task'' task review"
    unfolding completed_run_def by blast+
  have ids: "dget spec ''id'' = Some (PStr ''SPEC-0001'')" "dget tm ''id'' = Some (PStr ''TM-0001'')"
      "dget plan ''id'' = Some (PStr ''PLAN-0001'')" "dget task ''id'' = Some (PStr ''TASK-0001'')"
    using produced_id [OF k(1) assms(2)] k(2-4) [THEN chained_id, OF assms(2)] by blast+
  have b: "build_security_review (pp_feature_id pp) tm ''SECREV-0001'' created_at security_actor (pp_run_id pp) (pipe_href pp ''TM-0001'')
       = Inr secrev" using assms(1) ids(2) unfolding completed_run_def by auto
  note sr = security_review_doc [OF b]
  show "pl_artifacts res = (idea_id, idea) # zip later_ids [spec, tm, plan, task, secrev, review]"
    using assms(1,3) unfolding completed_run_def by (simp add: later_ids_def)
  show "dget_or secrev ''feature_id'' PNone = PStr (pp_feature_id pp)" using sr by blast
  have "leads_to pp idea_id spec \<and> kind_of spec = ''specification''"
    by (rule produced_doc [OF k(1) assms(2), of GRILL, unfolded output_kinds]) (simp add: stage_skills_def)
  moreover have "leads_to pp ''SPEC-0001'' tm \<and> kind_of tm = ''threat-model''"
    by (rule chained_doc [OF k(2) ids(1) assms(2), of GRILL_SECURITY, unfolded output_kinds]) (simp add: stage_skills_def)
  moreover have "leads_to pp ''TM-0001'' plan \<and> kind_of plan = ''plan''"
    by (rule chained_doc [OF k(3) ids(2) assms(2), of PLANNER, unfolded output_kinds]) (simp add: stage_skills_def)
  moreover have "leads_to pp ''PLAN-0001'' task \<and> kind_of task = ''task''"
    by (rule chained_doc [OF k(4) ids(3) assms(2), of TASK_WRITER, unfolded output_kinds]) (simp add: stage_skills_def)
  moreover have "leads_to pp ''TASK-0001'' review \<and> kind_of review = ''review''"
    by (rule chained_doc [OF k(5) ids(4) assms(2), of REVIEWER, unfolded output_kinds]) (simp add: stage_skills_def)
  ultimately show "list_all2 (\<lambda>(j, kind) doc. leads_to pp j doc \<and> kind_of doc = kind)
       [(idea_id, ''specification''), (''SPEC-0001'', ''threat-model''), (''TM-0001'', ''plan''), (''PLAN-0001'', ''task''),
        (''TM-0001'', ''security-review''), (''TASK-0001'', ''review'')] [spec, tm, plan, task, secrev, review]"
    using sr by simp
qed

text \<open>Every document is connected to the security review, which carries the feature.\<close>

lemma chain_reached:
  assumes docs: "docs = (idea_id, idea) # zip later_ids [spec, tm, plan, task, secrev, review]" and "idea_id \<notin> set later_ids"
    and leads: "leads_to pp idea_id spec" "leads_to pp ''SPEC-0001'' tm" "leads_to pp ''TM-0001'' plan" "leads_to pp ''PLAN-0001'' task"
      "leads_to pp ''TM-0001'' secrev" "leads_to pp ''TASK-0001'' review"
    and feature: "dget_or secrev ''feature_id'' PNone = PStr (pp_feature_id pp)"
    and "i \<in> fst ` set docs"
  shows "file_of pp i \<in> chain_paths (hrefs_of pp docs) (index_of pp docs) (pp_feature_id pp)"
proof -
  let ?C = "connected (hrefs_of pp docs) (index_of pp docs)"
  have keys: "fst ` set docs = insert idea_id (set later_ids)" by (simp add: docs later_ids_def)
  have get: "dget docs ''SPEC-0001'' = Some spec" "dget docs ''TM-0001'' = Some tm" "dget docs ''PLAN-0001'' = Some plan"
      "dget docs ''TASK-0001'' = Some task" "dget docs ''SECREV-0001'' = Some secrev" "dget docs ''REV-0001'' = Some review"
    using assms(2) by (auto simp: docs later_ids_def)
  have tm: "(file_of pp ''SECREV-0001'', file_of pp ''TM-0001'') \<in> ?C"
    by (rule leads_connected [OF get(5) leads(5)]) (simp add: keys later_ids_def)
  have spec: "(file_of pp ''TM-0001'', file_of pp ''SPEC-0001'') \<in> ?C"
    by (rule leads_connected [OF get(2) leads(2)]) (simp add: keys later_ids_def)
  have idea: "(file_of pp ''SPEC-0001'', file_of pp idea_id) \<in> ?C"
    by (rule leads_connected [OF get(1) leads(1)]) (simp add: keys)
  have plan: "(file_of pp ''TM-0001'', file_of pp ''PLAN-0001'') \<in> ?C"
    by (rule leads_connected [OF get(3) leads(3)]) (simp add: keys later_ids_def)
  have task: "(file_of pp ''PLAN-0001'', file_of pp ''TASK-0001'') \<in> ?C"
    by (rule leads_connected [OF get(4) leads(4)]) (simp add: keys later_ids_def)
  have review: "(file_of pp ''TASK-0001'', file_of pp ''REV-0001'') \<in> ?C"
    by (rule leads_connected [OF get(6) leads(6)]) (simp add: keys later_ids_def)
  have self: "(file_of pp ''SECREV-0001'', file_of pp ''SECREV-0001'') \<in> ?C" by (simp add: connected_def)
  note c = connected_trans
  have "i = idea_id \<or> i = ''SPEC-0001'' \<or> i = ''TM-0001'' \<or> i = ''PLAN-0001'' \<or> i = ''TASK-0001'' \<or> i = ''SECREV-0001'' \<or> i = ''REV-0001''"
    using assms(10) unfolding keys by (auto simp: later_ids_def)
  then have "(file_of pp ''SECREV-0001'', file_of pp i) \<in> ?C"
    using tm self c [OF tm spec] c [OF c [OF tm spec] idea] c [OF tm plan] c [OF c [OF tm plan] task]
      c [OF c [OF c [OF tm plan] task] review] by blast
  moreover have "file_of pp ''SECREV-0001'' \<in> set (seeds (pp_feature_id pp) (index_of pp docs))"
    using map_of_SomeD [OF get(5)] feature by (force simp: seeds_def index_of_def)
  ultimately show ?thesis by (auto simp: chain_paths_def)
qed

lemma traced_links:
  assumes "pipe_trace pp s = Inr rep" "ps_written s = docs" "distinct (map fst docs)" "list_all plain_id (map fst docs)"
    and "(i, doc) \<in> set docs"
  shows "\<exists>links. local_link_targets doc = Inr links"
proof -
  from assms(1-4) obtain hrefs incoming where "incoming_onto hrefs (index_of pp docs) [] = Inr incoming"
    by (auto simp: pipe_trace_def trace_index trace_feature_def bindR_eq_Inr)
  from incoming_onto_links [OF this] assms(5) show ?thesis by (auto simp: list_all_iff index_of_def)
qed

lemma dangling_of_first:
  assumes "docs = (i0, first) # rest" "list_all (\<lambda>(i, doc). \<exists>j \<in> fst ` set docs. leads_to pp j doc) rest"
    and "local_link_targets first = Inr links"
  shows "{h. \<exists>i doc links. dget docs i = Some doc \<and> local_link_targets doc = Inr links \<and> h \<in> set links
        \<and> h \<notin> pipe_href pp ` fst ` set docs} = set links - pipe_href pp ` fst ` set docs" (is "?D = ?L")
proof
  show "?L \<subseteq> ?D" using assms(1,3) by force
  show "?D \<subseteq> ?L"
  proof
    fix h assume "h \<in> ?D"
    then obtain i doc ls where h: "dget docs i = Some doc" "local_link_targets doc = Inr ls" "h \<in> set ls"
      "h \<notin> pipe_href pp ` fst ` set docs" by blast
    have "\<not> (i, doc) \<in> set rest"
    proof
      assume "(i, doc) \<in> set rest"
      then obtain j where "j \<in> fst ` set docs" "leads_to pp j doc" using assms(2) by (fastforce simp: list_all_iff)
      then show False using h by (auto simp: leads_to_def)
    qed
    then have "doc = first" using map_of_SomeD [OF h(1)] assms(1) by auto
    then show "h \<in> ?L" using h assms(3) by simp
  qed
qed

lemma later_ids_plain: "distinct later_ids" "list_all plain_id later_ids"
  by (simp_all add: later_ids_def plain_id_def)

text \<open>
  C17: the report at the end of a run is about this run. When the reference prefix names the store's directory
  and the idea has an identifier of its own without a slash, a run with the built-in skills that
  completes reports exactly the seven documents it stored; no stage of the lifecycle is missing,
  except for the idea if the document given as such is of another type; and the dangling links are
  exactly the local links of the idea to files that the run did not write, since every other
  document links to one of the run.
\<close>

theorem pipeline_report_exact:
  assumes "pipe_run pp idea created_at (new_pipe_state, w) = (Inr res, s', w')" "default_skills pp"
    and "hrefs_resolve pp" "enumerates (pp_set_order pp)"
    and "idea_id = st_artifact_id (hd (pl_stages res))" "plain_id idea_id" "idea_id \<notin> set later_ids"
  shows "dkeys (pl_artifacts res) = idea_id # later_ids
    \<and> tn_path ` set (tr_nodes (pl_trace res)) = pipe_href pp ` set (idea_id # later_ids)
    \<and> tr_missing_types (pl_trace res) = (if kind_of idea = ''idea'' then [] else [''idea''])
    \<and> (\<exists>links. local_link_targets idea = Inr links
         \<and> set (tr_dangling (pl_trace res)) = set links - pipe_href pp ` set (idea_id # later_ids))"
proof -
  obtain i spec tm plan task secrev review where c: "completed_run pp created_at i idea spec tm plan task secrev review res"
    using run_completed [OF assms(1)] by blast
  have "i = idea_id" using conjunct1 [OF c [unfolded completed_run_def]] assms(5) by (simp only: first_stage)
  note c = c [unfolded this]
  let ?docs = "pl_artifacts res"
  note d = completed_docs [OF c assms(2,7)]
  have keys: "dkeys ?docs = idea_id # later_ids" by (simp add: d(1) later_ids_def)
  then have ok: "distinct (map fst ?docs)" "list_all plain_id (map fst ?docs)" "fst ` set ?docs = set (idea_id # later_ids)"
    using assms(6,7) later_ids_plain by (simp_all flip: set_map)
  note t = conjunct1 [OF run_traced [OF assms(1)]] conjunct2 [OF run_traced [OF assms(1)]]
  have leads: "leads_to pp idea_id spec" "leads_to pp ''SPEC-0001'' tm" "leads_to pp ''TM-0001'' plan" "leads_to pp ''PLAN-0001'' task"
      "leads_to pp ''TM-0001'' secrev" "leads_to pp ''TASK-0001'' review" using d(2) by simp_all
  have rep: "tn_artifact_type ` set (tr_nodes (pl_trace res)) = (\<lambda>(i, doc). py_str (dget_or doc ''artifact_type'' (PStr []))) ` set ?docs
    \<and> tn_path ` set (tr_nodes (pl_trace res)) = pipe_href pp ` fst ` set ?docs
    \<and> tr_missing_types (pl_trace res) = filter (\<lambda>k. k \<notin> tn_artifact_type ` set (tr_nodes (pl_trace res))) CHAIN_ORDER
    \<and> set (tr_dangling (pl_trace res)) = {h. \<exists>i doc links. dget ?docs i = Some doc \<and> local_link_targets doc = Inr links
         \<and> h \<in> set links \<and> h \<notin> pipe_href pp ` fst ` set ?docs}"
    by (rule report_of_run [OF assms(3,4) ok(1,2) t]) (rule chain_reached [OF d(1) assms(7) leads d(3)])
  have "kind_of spec = ''specification''" "kind_of tm = ''threat-model''" "kind_of plan = ''plan''" "kind_of task = ''task''"
      "kind_of secrev = ''security-review''" "kind_of review = ''review''" using d(2) by simp_all
  then have "(\<lambda>(i, doc). py_str (dget_or doc ''artifact_type'' (PStr []))) ` set ?docs
      = insert (kind_of idea) {''specification'', ''threat-model'', ''plan'', ''task'', ''security-review'', ''review''}"
    by (simp add: d(1) later_ids_def flip: kind_of_def)
  then have missing: "tr_missing_types (pl_trace res) = (if kind_of idea = ''idea'' then [] else [''idea''])"
    using rep by (auto simp: CHAIN_ORDER_def)
  obtain links where l: "local_link_targets idea = Inr links"
    using traced_links [OF t ok(1,2), of idea_id idea] by (auto simp: d(1))
  have "set (tr_dangling (pl_trace res)) = set links - pipe_href pp ` set (idea_id # later_ids)"
    using rep dangling_of_first [OF d(1) _ l, of pp] leads unfolding ok(3) by (auto simp: later_ids_def)
  with rep keys missing l show ?thesis by (simp add: ok(3))
qed

lemma run_first_stage:
  assumes "pipe_run run_pipeline run_idea ''T'' (new_pipe_state, run_world) = (Inr res, s', w')"
  shows "''IDEA-0001'' = st_artifact_id (hd (pl_stages res))"
  using assms
proof (rule pipe_run_stages)
  fix idea_id st1 sp1 w1 st2 st3 st4 st5 st6 st7 trace
  assume i: "pipe_idea run_pipeline run_idea (new_pipe_state\<lparr>ps_created_at := ''T''\<rparr>, run_world) = (Inr (idea_id, st1), sp1, w1)"
    and "res = \<lparr>pl_feature_id = pp_feature_id run_pipeline, pl_run_id = pp_run_id run_pipeline,
        pl_stages = [st1, st2, st3, st4, st5, st6, st7], pl_artifacts = ps_written s', pl_trace = trace\<rparr>"
  then show ?thesis using reached_idea [OF i] run_starts i by (auto simp: stage_ok_def)
qed

theorem pipeline_report_exact_witness:
  "\<exists>res s' w'. pipe_run run_pipeline run_idea ''T'' (new_pipe_state, run_world) = (Inr res, s', w')
     \<and> tr_missing_types (pl_trace res) = [] \<and> tr_dangling (pl_trace res) = []"
proof -
  obtain res s' w' where r: "pipe_run run_pipeline run_idea ''T'' (new_pipe_state, run_world) = (Inr res, s', w')"
    using run_finishes by blast
  have s: "default_skills run_pipeline" by (simp add: default_skills_def run_runner run_skills_eq(1))
  have h: "hrefs_resolve run_pipeline" by (simp add: hrefs_resolve_def)
  have e: "enumerates (pp_set_order run_pipeline)" by (simp add: demo_enumerates)
  have i: "plain_id ''IDEA-0001''" "''IDEA-0001'' \<notin> set later_ids" by (simp_all add: plain_id_def later_ids_def)
  have k: "kind_of run_idea = ''idea''" "local_link_targets run_idea = Inr []"
    by (simp_all add: kind_of_def run_idea_def local_link_targets_def)
  from pipeline_report_exact [OF r s h e run_first_stage [OF r] i] k
  have "tr_missing_types (pl_trace res) = []" "set (tr_dangling (pl_trace res)) = {}" by simp_all
  with r show ?thesis by auto
qed

end
