(* ===== verification/Render.thy ===== *)
theory Render
  imports Json
begin

text \<open>
  The Markdown view of an artifact (\<open>artifacts/render.py\<close>): one renderer per artifact type, the
  table of metadata at its head, the optional sections on links and approval at its end, and the
  dispatch of \<open>render_artifact\<close>. An f-string is a list of parts evaluated from left to right
  (\<open>fstr\<close>), so that the first failing part decides the exception; a page is a list of blocks of
  lines (\<open>page\<close>).
\<close>

section \<open>Fields and lines\<close>

text \<open>\<open>v[k]\<close> with a string key: only dictionaries accept one.\<close>

fun val_index :: "pyval \<Rightarrow> string \<Rightarrow> pyval result" where
  "val_index (PDict d) k = dindex d k"
| "val_index _ k = Inl TypeError"

text \<open>\<open>k in v\<close> for a string \<open>k\<close>.\<close>

fun val_contains :: "string \<Rightarrow> pyval \<Rightarrow> bool result" where
  "val_contains k (PDict d) = Inr (dget d k \<noteq> None)"
| "val_contains k (PList xs) = Inr (List.member xs (PStr k))"
| "val_contains k (PStr s) = Inr (contains k s)"
| "val_contains k _ = Inl TypeError"

text \<open>\<open>v or {}\<close>.\<close>

definition or_empty :: "pyval \<Rightarrow> pyval" where
  "or_empty v = (if truthy v then v else PDict [])"

text \<open>\<open>sep.join(vs)\<close>: every item must be a string.\<close>

definition val_join :: "string \<Rightarrow> pyval list \<Rightarrow> string result" where
  "val_join sep vs = (if list_all is_str vs then Inr (join sep (map py_str vs)) else Inl TypeError)"

definition fstr :: "string result list \<Rightarrow> string result" where
  "fstr parts = bindR (mapR id parts) (\<lambda>ss. Inr (concat ss))"

definition fld :: "pyval \<Rightarrow> string \<Rightarrow> string result" where
  "fld v k = bindR (val_index v k) (\<lambda>x. Inr (py_str x))"

definition gfld :: "pyval \<Rightarrow> string \<Rightarrow> pyval \<Rightarrow> string result" where
  "gfld v k x = bindR (val_get v k x) (\<lambda>y. Inr (py_str y))"

definition comma :: "pyval result \<Rightarrow> string result" where
  "comma r = bindR r (\<lambda>v. bindR (val_iter v) (val_join '', ''))"

text \<open>\<open>', '.join('`'+r+'`' for r in v)\<close>.\<close>

fun ticked :: "pyval \<Rightarrow> pyval result" where
  "ticked (PStr s) = Inr (PStr (''`'' @ s @ ''`''))"
| "ticked _ = Inl TypeError"

definition comma_ticked :: "pyval result \<Rightarrow> string result" where
  "comma_ticked r = bindR r (\<lambda>v. bindR (val_iter v) (\<lambda>xs. bindR (mapR ticked xs) (val_join '', '')))"

definition line :: "string result list \<Rightarrow> string list result" where
  "line parts = bindR (fstr parts) (\<lambda>s. Inr [s])"

text \<open>\<open>[f(x) for x in v]\<close>.\<close>

definition rows :: "(pyval \<Rightarrow> string result) \<Rightarrow> pyval result \<Rightarrow> string list result" where
  "rows f r = bindR r (\<lambda>v. bindR (val_iter v) (mapR f))"

definition bullet :: "pyval \<Rightarrow> string result" where
  "bullet v = Inr (''- '' @ py_str v)"

definition bullet_ticked :: "pyval \<Rightarrow> string result" where
  "bullet_ticked v = Inr (''- `'' @ py_str v @ ''`'')"

definition page :: "string list result list \<Rightarrow> string result" where
  "page blocks = bindR (mapR id blocks) (\<lambda>ls. Inr (join [newline] (concat ls)))"

definition section_of :: "string result \<Rightarrow> string list result" where
  "section_of r = bindR r (\<lambda>s. Inr [s])"

section \<open>The common parts\<close>

definition GENERATED_HEADER :: "string \<Rightarrow> string" where
  "GENERATED_HEADER source =
     ''<!-- GENERATED FILE. DO NOT EDIT. Source of truth: '' @ source @ ''. Regenerate with `sdlc render`. -->''"

text \<open>The heading of the metadata table, in Russian, as the bytes of its UTF-8 encoding.\<close>

definition meta_heading :: string where
  "meta_heading =
     [CHR ''|'', CHR '' '', CHR 0xD0, CHR 0x9F, CHR 0xD0, CHR 0xBE, CHR 0xD0, CHR 0xBB, CHR 0xD0, CHR 0xB5,
      CHR '' '', CHR ''|'', CHR '' '', CHR 0xD0, CHR 0x97, CHR 0xD0, CHR 0xBD, CHR 0xD0, CHR 0xB0, CHR 0xD1, CHR 0x87,
      CHR 0xD0, CHR 0xB5, CHR 0xD0, CHR 0xBD, CHR 0xD0, CHR 0xB8, CHR 0xD0, CHR 0xB5, CHR '' '', CHR ''|'']"

definition meta :: "pyval \<Rightarrow> string result" where
  "meta inst =
     page
      [Inr [meta_heading, ''|---|---|''],
       line [Inr ''| Artifact | `'', gfld inst ''artifact_type'' PNone, Inr ''` |''],
       line [Inr ''| ID | `'', gfld inst ''id'' PNone, Inr ''` |''],
       line [Inr ''| Schema | `'', gfld inst ''schema_version'' PNone, Inr ''` |''],
       line [Inr ''| Created at | '', gfld inst ''created_at'' PNone, Inr '' |''],
       bindR (val_get inst ''created_by'' PNone) (\<lambda>v.
         let created_by = or_empty v
         in if truthy created_by
            then line [Inr ''| Created by | '', gfld created_by ''id'' PNone, Inr '' ('',
                       gfld created_by ''role'' PNone, Inr '') |'']
            else Inr []),
       bindR (val_get inst ''run_id'' PNone) (\<lambda>v.
         if truthy v then line [Inr ''| Run ID | `'', fld inst ''run_id'', Inr ''` |''] else Inr []),
       bindR (val_get inst ''status'' PNone) (\<lambda>v.
         if truthy v then line [Inr ''| Status | `'', fld inst ''status'', Inr ''` |''] else Inr [])]"

definition links_section :: "pyval \<Rightarrow> string result" where
  "links_section inst =
     bindR (val_get inst ''links'' PNone) (\<lambda>links.
       if \<not> truthy links then Inr []
       else page
         [Inr [''## Links'', [], ''| Relation | Reference |'', ''|---|---|''],
          rows (\<lambda>link. fstr [Inr ''| '', fld link ''rel'', Inr '' | `'', fld link ''href'', Inr ''` |'']) (Inr links)])"

definition approval_section :: "pyval \<Rightarrow> string result" where
  "approval_section inst =
     bindR (val_get inst ''approval'' PNone) (\<lambda>approval.
       if \<not> truthy approval then Inr []
       else
         bindR (val_get approval ''approved'' PNone) (\<lambda>approved.
         bindR (val_get approval ''by'' PNone) (\<lambda>v.
         bindR (gfld (or_empty v) ''id'' (PStr ''?'')) (\<lambda>signer.
           page
            [Inr [''## Approval'', []],
             line [Inr ''- State: **'', Inr (if truthy approved then ''approved'' else ''not approved''), Inr ''**''],
             line [Inr ''- By: '', Inr signer, Inr '' at '', gfld approval ''at'' PNone],
             bindR (val_get approval ''solo_override'' PNone) (\<lambda>v.
               if truthy v
               then line [Inr ''- `solo_override=true`: '', gfld approval ''solo_override_reason'' (PStr [])]
               else Inr []),
             bindR (val_get approval ''note'' PNone) (\<lambda>v.
               if truthy v then line [Inr ''- Note: '', fld approval ''note''] else Inr [])]))))"

section \<open>The renderers\<close>

text \<open>The lines of an idea are joined as they are: the two free texts must be strings.\<close>

definition render_idea :: "pyval \<Rightarrow> string result" where
  "render_idea inst =
     bindR (mapR id
      [bindR (fstr [Inr ''# Idea: '', fld inst ''title'']) (\<lambda>s. Inr (PStr s)),
       Inr (PStr []),
       bindR (meta inst) (\<lambda>s. Inr (PStr s)),
       Inr (PStr []),
       Inr (PStr ''## Problem''),
       val_index inst ''problem'',
       Inr (PStr []),
       Inr (PStr ''## Actor & goal''),
       val_index inst ''actor_goal'',
       Inr (PStr []),
       bindR (fstr
         [Inr ''Source: `'', bindR (val_index inst ''source'') (\<lambda>s. gfld s ''kind'' PNone),
          Inr ''` (trust tier: `'', bindR (val_index inst ''source'') (\<lambda>s. gfld s ''trust_tier'' PNone), Inr ''`)''])
         (\<lambda>s. Inr (PStr s))])
      (val_join [newline])"

definition render_specification :: "pyval \<Rightarrow> string result" where
  "render_specification inst =
     page
      [line [Inr ''# Specification: '', fld inst ''id''], Inr [[]], section_of (meta inst), Inr [[]],
       bindR (val_index inst ''actor_goal'') (\<lambda>actor_goal.
         bindR (line [Inr ''- Actors: '', comma (val_index actor_goal ''actors'')]) (\<lambda>actors.
         bindR (line [Inr ''- Goal: '', fld actor_goal ''goal'']) (\<lambda>goal.
           Inr ([''## Actor & goal''] @ actors @ goal @ [[]])))),
       bindR (val_index inst ''scope_boundary'') (\<lambda>scope.
         bindR (rows bullet (val_index scope ''in_scope'')) (\<lambda>in_scope.
         bindR (rows bullet (val_index scope ''out_of_scope'')) (\<lambda>out_of_scope.
           Inr ([''## Scope boundary'', ''**In scope**''] @ in_scope @ [[], ''**Out of scope**''] @ out_of_scope @ [[]])))),
       Inr [''## Data model'', ''| Entity | Fields |'', ''|---|---|''],
       rows (\<lambda>e. fstr [Inr ''| '', fld e ''entity'', Inr '' | '', comma (val_index e ''fields''), Inr '' |''])
         (val_index inst ''data_model''),
       Inr [[], ''## API contract'', ''| Operation | Kind | Summary |'', ''|---|---|---|''],
       rows (\<lambda>op. fstr [Inr ''| `'', fld op ''operation_id'', Inr ''` | '', fld op ''kind'', Inr '' | '',
                fld op ''summary'', Inr '' |''])
         (val_index inst ''api_contract''),
       Inr [[], ''## State / lifecycle'', ''| From | To | Actor |'', ''|---|---|---|''],
       rows (\<lambda>t. fstr [Inr ''| '', fld t ''from'', Inr '' | '', fld t ''to'', Inr '' | '', fld t ''actor'', Inr '' |''])
         (val_index inst ''state_lifecycle''),
       Inr [[], ''## Acceptance criteria'', ''| Requirement | Criterion | Verification |'', ''|---|---|---|''],
       rows (\<lambda>ac. fstr [Inr ''| `'', fld ac ''requirement_id'', Inr ''` | '', fld ac ''criterion'', Inr '' | '',
                gfld ac ''verification'' (PStr []), Inr '' |''])
         (val_index inst ''acceptance_criteria''),
       Inr [[], ''## Non-goals''],
       rows bullet (val_index inst ''non_goals'')]"

definition render_threat_model :: "pyval \<Rightarrow> string result" where
  "render_threat_model inst =
     page
      [line [Inr ''# Threat Model: '', fld inst ''id''], Inr [[]], section_of (meta inst), Inr [[]],
       line [Inr ''Method: **'', fld inst ''method'', Inr ''**''], Inr [[]],
       Inr [''## Data flows'', ''| ID | From | To | Data | Crosses trust boundary |'', ''|---|---|---|---|---|''],
       rows (\<lambda>f. fstr [Inr ''| '', fld f ''id'', Inr '' | '', fld f ''from'', Inr '' | '', fld f ''to'', Inr '' | '',
                comma (val_index f ''data''), Inr '' | '', fld f ''crosses_trust_boundary'', Inr '' |''])
         (val_index inst ''data_flows''),
       Inr [[], ''## Risks (STRIDE)'', ''| ID | Category | Severity | Scenario | Control | Verification test |'',
            ''|---|---|---|---|---|---|''],
       rows (\<lambda>r. fstr [Inr ''| `'', fld r ''id'', Inr ''` | '', fld r ''category'', Inr '' | **'', fld r ''severity'',
                Inr ''** | '', fld r ''scenario'', Inr '' | `'', fld r ''control_id'', Inr ''` | '',
                fld r ''verification_test'', Inr '' |''])
         (val_index inst ''risks'')]"

definition render_plan :: "pyval \<Rightarrow> string result" where
  "render_plan inst =
     page
      [line [Inr ''# Implementation Plan: '', fld inst ''id''], Inr [[]], section_of (meta inst),
       Inr [[], ''## Slices'', ''| Slice | Title | Requirements | Controls | Depends on |'', ''|---|---|---|---|---|''],
       rows (\<lambda>s. fstr [Inr ''| '', fld s ''slice_id'', Inr '' | '', fld s ''title'', Inr '' | '',
                comma_ticked (val_index s ''requirement_ids''), Inr '' | '', comma_ticked (val_index s ''control_ids''),
                Inr '' | '', comma (val_get s ''depends_on'' (PList [])), Inr '' |''])
         (val_index inst ''slices'')]"

definition render_task :: "pyval \<Rightarrow> string result" where
  "render_task inst =
     page
      [line [Inr ''# Task: '', fld inst ''title''], Inr [[]], section_of (meta inst), Inr [[]],
       line [Inr ''- Feature: `'', fld inst ''feature_id'', Inr ''`''],
       line [Inr ''- Plan: `'', fld inst ''plan_id'', Inr ''`''],
       line [Inr ''- Branch: `'', gfld inst ''branch'' (PStr ''n/a''), Inr ''`''],
       Inr [[]],
       Inr [''## Requirements''], rows bullet_ticked (val_index inst ''requirement_ids''), Inr [[]],
       bindR (val_index inst ''control_ids'') (\<lambda>controls.
         if truthy controls
         then bindR (rows bullet_ticked (Inr controls)) (\<lambda>cs. Inr ([''## Controls''] @ cs @ [[]]))
         else Inr []),
       Inr [''## Contract changes''], rows bullet (val_index inst ''contract_changes''), Inr [[]],
       Inr [''## Code changes''], rows bullet (val_index inst ''code_changes''), Inr [[]],
       Inr [''## Tests'', ''| Kind | Ref | Requirement |'', ''|---|---|---|''],
       rows (\<lambda>t. fstr [Inr ''| '', fld t ''kind'', Inr '' | `'', fld t ''ref'', Inr ''` | `'', fld t ''requirement_id'', Inr ''` |''])
         (val_index inst ''tests'')]"

definition finding_row :: "pyval \<Rightarrow> string result" where
  "finding_row f = fstr [Inr ''| `'', fld f ''id'', Inr ''` | '', fld f ''severity'', Inr '' | '', fld f ''summary'', Inr '' |'']"

definition render_review :: "pyval \<Rightarrow> string result" where
  "render_review inst =
     page
      [line [Inr ''# Review: '', fld inst ''id''], Inr [[]], section_of (meta inst), Inr [[]],
       line [Inr ''Task: `'', fld inst ''task_id'', Inr ''`  ''],
       line [Inr ''Subject digest: `'', fld inst ''subject_digest'', Inr ''`''], Inr [[]],
       line [Inr ''**Verdict: '', fld inst ''verdict'', Inr ''**''],
       Inr [[], ''## Findings'', ''| ID | Severity | Summary |'', ''|---|---|---|''],
       bindR (rows finding_row (val_index inst ''findings'')) (\<lambda>fs.
         Inr (if fs = [] then [''| - | - | none |''] else fs))]"

definition disposition_row :: "pyval \<Rightarrow> string result" where
  "disposition_row r =
     fstr [Inr ''| `'', fld r ''risk_id'', Inr ''` | '', fld r ''severity'', Inr '' | '', fld r ''disposition'', Inr '' | `'',
           gfld r ''waiver_id'' (PStr ''-''), Inr ''` |'']"

definition render_security_review :: "pyval \<Rightarrow> string result" where
  "render_security_review inst =
     page
      [line [Inr ''# Security Review: '', fld inst ''id''], Inr [[]], section_of (meta inst), Inr [[]],
       line [Inr ''Threat model: `'', fld inst ''threat_model_id'', Inr ''`''], Inr [[]],
       line [Inr ''**Verdict: '', fld inst ''verdict'', Inr ''**''],
       Inr [[], ''## Risk dispositions'', ''| Risk | Severity | Disposition | Waiver |'', ''|---|---|---|---|''],
       rows disposition_row (val_index inst ''risk_dispositions'')]"

definition render_policy_decision :: "pyval \<Rightarrow> string result" where
  "render_policy_decision inst =
     page
      [line [Inr ''# Policy Decision: '', fld inst ''id''], Inr [[]], section_of (meta inst), Inr [[]],
       line [Inr ''- Point: `'', fld inst ''point'', Inr ''`''],
       line [Inr ''- Decision: **'', fld inst ''decision'', Inr ''**''],
       line [Inr ''- Reason codes: '', comma_ticked (val_index inst ''reason_codes'')],
       line [Inr ''- Bundle: `'', fld inst ''policy_bundle_version'', Inr ''`''],
       line [Inr ''- Input digest: `'', fld inst ''input_digest'', Inr ''`'']]"

definition render_evidence_record :: "pyval \<Rightarrow> string result" where
  "render_evidence_record inst =
     page
      [line [Inr ''# Evidence Record: '', fld inst ''id''], Inr [[]], section_of (meta inst), Inr [[]],
       line [Inr ''- Action: '', fld inst ''action''],
       line [Inr ''- Trust tier: `'', fld inst ''trust_tier'', Inr ''`''],
       line [Inr ''- Sensitivity: `'', fld inst ''sensitivity'', Inr ''`''],
       bindR (val_get inst ''artifact_digest'' PNone) (\<lambda>v.
         if truthy v then line [Inr ''- Artifact digest: `'', fld inst ''artifact_digest'', Inr ''`''] else Inr []),
       bindR (val_get inst ''compression'' PNone) (\<lambda>compression.
         if \<not> truthy compression then Inr []
         else bindR (val_get compression ''applied'' PNone) (\<lambda>applied.
           if truthy applied
           then line [Inr ''- Compression: `'', gfld compression ''original_size_bytes'' PNone, Inr ''` -> `'',
                      gfld compression ''compressed_size_bytes'' PNone, Inr ''` bytes, handle `'',
                      gfld compression ''recovery_handle'' PNone, Inr ''`'']
           else Inr []))]"

definition render_waiver :: "pyval \<Rightarrow> string result" where
  "render_waiver inst =
     page
      [line [Inr ''# Waiver: '', fld inst ''id''], Inr [[]], section_of (meta inst), Inr [[]],
       line [Inr ''- Risk: `'', fld inst ''risk_id'', Inr ''` (severity: '', fld inst ''severity'', Inr '')''],
       line [Inr ''- Justification: '', fld inst ''justification''],
       line [Inr ''- Compensating control: '', fld inst ''compensating_control''],
       line [Inr ''- Owner: '', bindR (val_index inst ''owner'') (\<lambda>v. gfld (or_empty v) ''id'' PNone)],
       line [Inr ''- Expires at: '', fld inst ''expires_at''],
       line [Inr ''- Approved by: '', bindR (val_index inst ''approved_by'') (\<lambda>v. gfld (or_empty v) ''id'' PNone)]]"

text \<open>The closing sentence of the baseline view, again in Russian.\<close>

definition baseline_source :: string where
  "baseline_source =
     [CHR 0xD0, CHR 0x9C, CHR 0xD0, CHR 0xB0, CHR 0xD1, CHR 0x88, CHR 0xD0, CHR 0xB8, CHR 0xD0, CHR 0xBD, CHR 0xD0, CHR 0xBE,
      CHR 0xD1, CHR 0x87, CHR 0xD0, CHR 0xB8, CHR 0xD1, CHR 0x82, CHR 0xD0, CHR 0xB0, CHR 0xD0, CHR 0xB5, CHR 0xD0, CHR 0xBC,
      CHR 0xD1, CHR 0x8B, CHR 0xD0, CHR 0xB9, CHR '' '', CHR 0xD0, CHR 0xB8, CHR 0xD1, CHR 0x81, CHR 0xD1, CHR 0x82,
      CHR 0xD0, CHR 0xBE, CHR 0xD1, CHR 0x87, CHR 0xD0, CHR 0xBD, CHR 0xD0, CHR 0xB8, CHR 0xD0, CHR 0xBA]
     @ '': `baseline.json`.''"

definition render_baseline :: "pyval \<Rightarrow> string result" where
  "render_baseline inst =
     page
      [line [Inr ''# Architecture Baseline: '', fld inst ''baseline_id''], Inr [[]],
       line [Inr ''- Version: '', fld inst ''version''],
       line [Inr ''- Status: '', fld inst ''status''],
       line [Inr ''- Profile: **'', fld inst ''profile'', Inr ''**''],
       line [Inr ''- Approved by: '', comma (val_index inst ''approved_by'')],
       line [Inr ''- Approved at: '', fld inst ''approved_at''],
       Inr [[], baseline_source]]"

section \<open>Dispatch\<close>

definition RENDERERS :: "(pyval \<Rightarrow> string result) dict" where
  "RENDERERS =
     [(''idea'', render_idea), (''specification'', render_specification), (''threat-model'', render_threat_model),
      (''plan'', render_plan), (''task'', render_task), (''review'', render_review),
      (''security-review'', render_security_review), (''policy-decision'', render_policy_decision),
      (''evidence-record'', render_evidence_record), (''waiver'', render_waiver), (''baseline'', render_baseline)]"

text \<open>The type by which an artifact is rendered: a document without a type but with a
  \<open>baseline_id\<close> is a baseline.\<close>

definition rendered_type :: "pyval \<Rightarrow> pyval result" where
  "rendered_type inst =
     bindR (val_contains ''artifact_type'' inst) (\<lambda>typed.
       if typed then val_get inst ''artifact_type'' PNone
       else bindR (val_contains ''baseline_id'' inst) (\<lambda>baseline.
         if baseline then Inr (PStr ''baseline'') else val_get inst ''artifact_type'' PNone))"

definition render_artifact :: "pyval \<Rightarrow> string \<Rightarrow> string result" where
  "render_artifact inst source =
     bindR (rendered_type inst) (\<lambda>artifact_type.
       case dget RENDERERS (py_str artifact_type) of
         None \<Rightarrow> Inl (ValueError (''no renderer for artifact_type='' @ py_repr artifact_type))
       | Some renderer \<Rightarrow>
           bindR (renderer inst) (\<lambda>body.
           bindR (links_section inst) (\<lambda>links.
           bindR (approval_section inst) (\<lambda>approval.
             let extras = filter (\<lambda>s. s \<noteq> []) [links, approval];
                 body' = (if extras = [] then body else body @ [newline, newline] @ join [newline, newline] extras)
             in Inr (GENERATED_HEADER source @ [newline, newline] @ body' @ [newline])))))"

section \<open>Rendering is well typed\<close>

text \<open>
  A result meets \<open>outcome E T\<close> when its exception satisfies \<open>E\<close> or its value \<open>T\<close>. Every combinator
  above keeps the exceptions to those of a document of the wrong shape, and the texts to
  encodings of Python strings; the renderers then do, part by part.
\<close>

named_theorems outcomes

definition outcome :: "(py_error \<Rightarrow> bool) \<Rightarrow> ('a \<Rightarrow> bool) \<Rightarrow> 'a result \<Rightarrow> bool" where
  "outcome E T r = (case r of Inl e \<Rightarrow> E e | Inr x \<Rightarrow> T x)"

lemma outcome_simps [simp]: "outcome E T (Inl e) = E e" "outcome E T (Inr x) = T x"
  by (simp_all add: outcome_def)

lemma outcome_bind: "outcome E T m \<Longrightarrow> (\<And>x. T x \<Longrightarrow> outcome E U (f x)) \<Longrightarrow> outcome E U (bindR m f)"
  by (cases m) simp_all

lemma outcome_mapR: "(\<And>x. x \<in> set xs \<Longrightarrow> outcome E T (f x)) \<Longrightarrow> outcome E (list_all T) (mapR f xs)"
  by (induction xs) (auto intro!: outcome_bind)

fun shape_error :: "py_error \<Rightarrow> bool" where
  "shape_error (KeyError _) = True"
| "shape_error TypeError = True"
| "shape_error AttributeError = True"
| "shape_error _ = False"

abbreviation texty :: "string result \<Rightarrow> bool" where
  "texty \<equiv> outcome shape_error valid_str"

abbreviation lined :: "string list result \<Rightarrow> bool" where
  "lined \<equiv> outcome shape_error (list_all valid_str)"

abbreviation valued :: "pyval result \<Rightarrow> bool" where
  "valued \<equiv> outcome shape_error wf_val"

lemma is_ascii_replicate [simp]: "is_ascii (replicate n c) \<longleftrightarrow> n = 0 \<or> byte c < 128"
  by (induction n) auto

lemma is_ascii_take: "is_ascii s \<Longrightarrow> is_ascii (take n s)"
  and is_ascii_drop: "is_ascii s \<Longrightarrow> is_ascii (drop n s)"
  by (auto simp: is_ascii_def list_all_iff dest: in_set_takeD in_set_dropD)

lemma is_ascii_hd: "is_ascii s \<Longrightarrow> s \<noteq> [] \<Longrightarrow> byte (hd s) < 128"
  and is_ascii_tl: "is_ascii s \<Longrightarrow> is_ascii (tl s)"
  by (cases s; simp)+

lemma show_float_ascii: "is_ascii (show_float f)"
  by (cases f)
    (auto simp: show_decimal_def Let_def zero_pad_def is_ascii_take is_ascii_drop is_ascii_tl is_ascii_hd)

text \<open>A byte-wise escape that leaves the bytes beyond ASCII alone keeps strings well formed.\<close>

lemma valid_bytewise:
  assumes high: "\<And>c. 128 \<le> byte c \<Longrightarrow> f c = [c]" and low: "\<And>c. byte c < 128 \<Longrightarrow> is_ascii (f c)" and s: "valid_str s"
  shows "valid_str (concat (map f s))"
proof -
  have "valid_str (concat (map f g))" if "g \<in> set (py_chars s)" for g
  proof -
    have v: "valid_char g" using s that unfolding valid_str_def list_all_iff by blast
    from valid_char_high [OF v] show ?thesis
    proof
      assume "\<exists>a. g = [a] \<and> byte a < 128"
      then show ?thesis using low by (auto intro!: valid_str_ascii)
    next
      assume "list_all (\<lambda>c. 128 \<le> byte c) g"
      then have "map f g = map (\<lambda>c. [c]) g" using high by (auto simp: list_all_iff)
      then have "concat (map f g) = g" by (simp only: concat_map_singleton) simp
      then show ?thesis using valid_str_char [OF v] by simp
    qed
  qed
  then have "valid_str (concat (map (\<lambda>g. concat (map f g)) (py_chars s)))" by (intro valid_str_concat) auto
  then show ?thesis using concat_map_groups [of f "py_chars s"] by simp
qed

lemma byte_hex_digit: "n < 16 \<Longrightarrow> byte (hex_digit n) < 128"
  by (simp add: hex_digit_def of_char_of)

lemma repr_char_high: "byte q < 128 \<Longrightarrow> 128 \<le> byte c \<Longrightarrow> repr_char q c = [c]"
  by (auto simp: repr_char_def)

lemma repr_char_low: "byte c < 128 \<Longrightarrow> is_ascii (repr_char q c)"
  by (auto simp: repr_char_def byte_hex_digit)

lemma valid_quoted: "byte q < 128 \<Longrightarrow> valid_str s \<Longrightarrow> valid_str ([q] @ concat (map (repr_char q) s) @ [q])"
  by (intro valid_str_append valid_bytewise repr_char_high repr_char_low) (simp_all add: valid_str_ascii)

lemma valid_repr_str: "valid_str s \<Longrightarrow> valid_str (repr_str s)"
  unfolding repr_str_def Let_def by (intro valid_quoted) simp_all

lemma valid_repr:
  "wf_val v \<Longrightarrow> valid_str (py_repr v)"
  "wf_vals xs \<Longrightarrow> list_all valid_str (py_repr_items xs)"
  "wf_pairs d \<Longrightarrow> list_all valid_str (py_repr_pairs d)"
proof (induction v and xs and d rule: py_repr_py_repr_items_py_repr_pairs.induct)
  case (6 xs)
  then show ?case unfolding py_repr.simps
    by (intro valid_str_append valid_str_join) (auto simp: list_all_iff valid_str_ascii)
next
  case (7 d)
  then show ?case unfolding py_repr.simps
    by (intro valid_str_append valid_str_join) (auto simp: list_all_iff valid_str_ascii)
next
  case (11 k v d)
  then show ?case unfolding py_repr_pairs.simps list.pred_inject
    by (intro conjI valid_str_append) (simp_all add: valid_repr_str valid_str_ascii)
qed (simp_all add: valid_str_ascii show_float_ascii valid_repr_str)

lemma valid_py_str: "wf_val v \<Longrightarrow> valid_str (py_str v)"
  by (cases v) (simp_all del: py_repr.simps add: valid_repr)

section \<open>The combinators\<close>

lemma texty_lit [outcomes]: "valid_str s \<Longrightarrow> texty (Inr s)"
  by simp

lemma valued_index [outcomes]: "wf_val v \<Longrightarrow> valued (val_index v k)"
  by (cases v) (auto simp: dindex_def wf_dget split: option.splits)

lemma valued_get [outcomes]: "wf_val v \<Longrightarrow> wf_val x \<Longrightarrow> valued (val_get v k x)"
  by (cases v) (auto simp: dget_or_def wf_dget split: option.splits)

lemma texty_fld [outcomes]: "wf_val v \<Longrightarrow> texty (fld v k)"
  unfolding fld_def by (rule outcome_bind [OF valued_index]) (simp_all add: valid_py_str)

lemma texty_gfld [outcomes]: "wf_val v \<Longrightarrow> wf_val x \<Longrightarrow> texty (gfld v k x)"
  unfolding gfld_def by (rule outcome_bind [OF valued_get]) (simp_all add: valid_py_str)

lemma val_iter_outcome: "wf_val v \<Longrightarrow> outcome shape_error (list_all wf_val) (val_iter v)"
proof (cases v)
  case (PStr s)
  assume "wf_val v"
  then have "list_all valid_char (py_chars s)" using PStr by (simp add: valid_str_def)
  then have "list_all valid_str (py_chars s)" by (rule list.pred_mono_strong) (rule valid_str_char)
  then show ?thesis using PStr by (simp add: list_all_iff)
qed (auto simp: list_all_iff wf_vals_iff wf_pairs_iff)

lemma val_join_outcome: "is_ascii sep \<Longrightarrow> list_all wf_val vs \<Longrightarrow> texty (val_join sep vs)"
  using valid_str_ascii [of sep] by (auto simp: val_join_def list_all_iff valid_py_str intro!: valid_str_join)

lemma texty_comma [outcomes]: "valued r \<Longrightarrow> texty (comma r)"
  unfolding comma_def by (auto intro!: outcome_bind val_iter_outcome val_join_outcome)

lemma texty_comma_ticked [outcomes]: "valued r \<Longrightarrow> texty (comma_ticked r)"
proof -
  have t: "valued (ticked v)" if "wf_val v" for v
    using that valid_str_append [OF _ valid_str_append, of "''`''" _ "''`''"] by (cases v) (simp_all add: valid_str_ascii)
  assume "valued r"
  then show ?thesis unfolding comma_ticked_def
    by (auto simp: list_all_iff intro!: outcome_bind outcome_bind [OF outcome_mapR] val_iter_outcome val_join_outcome t)
qed

lemma texty_fstr [outcomes]: "list_all texty parts \<Longrightarrow> texty (fstr parts)"
  unfolding fstr_def
  by (rule outcome_bind [OF outcome_mapR]) (auto simp: list_all_iff intro!: valid_str_concat)

lemma lined_line [outcomes]: "list_all texty parts \<Longrightarrow> lined (line parts)"
  unfolding line_def by (rule outcome_bind [OF texty_fstr]) simp_all

lemma lined_section [outcomes]: "texty r \<Longrightarrow> lined (section_of r)"
  unfolding section_of_def by (rule outcome_bind) simp_all

lemma lined_rows [outcomes]: "(\<And>v. wf_val v \<Longrightarrow> texty (f v)) \<Longrightarrow> valued r \<Longrightarrow> lined (rows f r)"
  unfolding rows_def
  by (rule outcome_bind, assumption, rule outcome_bind [OF val_iter_outcome], assumption, rule outcome_mapR)
    (simp add: list_all_iff)

lemma texty_bullets [outcomes]: "wf_val v \<Longrightarrow> texty (bullet v)" "wf_val v \<Longrightarrow> texty (bullet_ticked v)"
  unfolding bullet_def bullet_ticked_def outcome_simps
  by (intro valid_str_append valid_py_str; simp add: valid_str_ascii)+

lemma lined_lit [outcomes]: "list_all valid_str ls \<Longrightarrow> lined (Inr ls)"
  by simp

lemma newline_valid: "valid_str [newline]"
  by (rule valid_str_ascii) simp

lemma texty_page [outcomes]: "list_all lined blocks \<Longrightarrow> texty (page blocks)"
  unfolding page_def
  by (rule outcome_bind [OF outcome_mapR]) (auto simp: list_all_iff newline_valid intro!: valid_str_join)

section \<open>The renderers\<close>

lemma or_empty_wf [simp]: "wf_val v \<Longrightarrow> wf_val (or_empty v)"
  by (simp add: or_empty_def)

lemma outcome_if [outcomes]: "(b \<Longrightarrow> outcome E T x) \<Longrightarrow> (\<not> b \<Longrightarrow> outcome E T y) \<Longrightarrow> outcome E T (if b then x else y)"
  by simp

lemma headings_valid: "valid_str meta_heading" "valid_str baseline_source"
  by code_simp+

text \<open>Blocks and parts are lists; these rules take them apart.\<close>

lemma parts_Nil [outcomes]: "list_all P []"
  and parts_Cons [outcomes]: "P x \<Longrightarrow> list_all P xs \<Longrightarrow> list_all P (x # xs)"
  by simp_all

lemmas value_bind [outcomes] = outcome_bind [where T = wf_val]

lemmas literals = valid_str_ascii headings_valid

lemma meta_texty [outcomes]: "wf_val inst \<Longrightarrow> texty (meta inst)"
  unfolding meta_def Let_def by (intro outcomes) (simp_all add: literals)

lemma links_texty [outcomes]: "wf_val inst \<Longrightarrow> texty (links_section inst)"
  unfolding links_section_def by (intro outcomes) (simp_all add: literals)

lemma approval_texty: "wf_val inst \<Longrightarrow> texty (approval_section inst)"
  unfolding approval_section_def
  by (intro outcomes outcome_bind [OF texty_gfld]) (simp_all add: literals)

lemma specification_texty: "wf_val inst \<Longrightarrow> texty (render_specification inst)"
  unfolding render_specification_def
  by (intro outcomes outcome_bind [OF lined_line] outcome_bind [OF lined_rows]) (simp_all add: literals)

lemma threat_model_texty: "wf_val inst \<Longrightarrow> texty (render_threat_model inst)"
  unfolding render_threat_model_def by (intro outcomes) (simp_all add: literals)

lemma plan_texty: "wf_val inst \<Longrightarrow> texty (render_plan inst)"
  unfolding render_plan_def by (intro outcomes) (simp_all add: literals)

lemma task_texty: "wf_val inst \<Longrightarrow> texty (render_task inst)"
  unfolding render_task_def by (intro outcomes outcome_bind [OF lined_rows]) (simp_all add: literals)

lemma review_texty: "wf_val inst \<Longrightarrow> texty (render_review inst)"
  unfolding render_review_def finding_row_def
  by (intro outcomes outcome_bind [OF lined_rows]) (simp_all add: literals)

lemma security_review_texty: "wf_val inst \<Longrightarrow> texty (render_security_review inst)"
  unfolding render_security_review_def disposition_row_def by (intro outcomes) (simp_all add: literals)

lemma policy_decision_texty: "wf_val inst \<Longrightarrow> texty (render_policy_decision inst)"
  unfolding render_policy_decision_def by (intro outcomes) (simp_all add: literals)

lemma evidence_record_texty: "wf_val inst \<Longrightarrow> texty (render_evidence_record inst)"
  unfolding render_evidence_record_def by (intro outcomes) (simp_all add: literals)

lemma waiver_texty: "wf_val inst \<Longrightarrow> texty (render_waiver inst)"
  unfolding render_waiver_def by (intro outcomes) (simp_all add: literals)

lemma baseline_texty: "wf_val inst \<Longrightarrow> texty (render_baseline inst)"
  unfolding render_baseline_def by (intro outcomes) (simp_all add: literals)

lemma outcome_parts: "list_all (outcome E T) parts \<Longrightarrow> outcome E (list_all T) (mapR id parts)"
  by (rule outcome_mapR) (simp add: list_all_iff)

lemma text_value: "texty r \<Longrightarrow> valued (bindR r (\<lambda>s. Inr (PStr s)))"
  by (rule outcome_bind) simp_all

lemma idea_texty: "wf_val inst \<Longrightarrow> texty (render_idea inst)"
  unfolding render_idea_def
  by (rule outcome_bind [where T = "list_all wf_val", OF outcome_parts], intro text_value outcomes)
    (simp_all add: literals val_join_outcome valued_index)

lemmas renderers_texty = idea_texty specification_texty threat_model_texty plan_texty task_texty review_texty
  security_review_texty policy_decision_texty evidence_record_texty waiver_texty baseline_texty

lemma renderer_texty: "dget RENDERERS t = Some r \<Longrightarrow> wf_val inst \<Longrightarrow> texty (r inst)"
  by (auto simp: RENDERERS_def renderers_texty split: if_splits)

lemma contains_outcome: "outcome shape_error (\<lambda>_. True) (val_contains k v)"
  by (cases v) simp_all

lemma rendered_type_valued: "wf_val inst \<Longrightarrow> valued (rendered_type inst)"
  unfolding rendered_type_def
  by (intro outcome_bind [OF contains_outcome] outcome_if valued_get) (simp_all add: literals)

lemma header_valid: "valid_str source \<Longrightarrow> valid_str (GENERATED_HEADER source)"
  unfolding GENERATED_HEADER_def by (intro valid_str_append) (simp_all add: literals)

lemma extras_valid: "valid_str a \<Longrightarrow> valid_str b \<Longrightarrow> valid_str (join [newline, newline] (filter (\<lambda>s. s \<noteq> []) [a, b]))"
  by (rule valid_str_join) (auto simp: literals simp del: filter.simps)

text \<open>
  C38: rendering is well typed. The type of a document decides: if it has a renderer, the result is the
  generated-file header that names the source, what this renderer makes of the document, possibly
  further sections, and a final newline, and the whole is a well-formed string; if it has none,
  the \<open>ValueError\<close> that names the type is raised. The only other exceptions are the three that report
  a document of the wrong shape. The document is any well-formed value whose integers are within
  the interpreter's digit limit, which holds for everything the JSON reader delivers; beyond the
  limit converting an integer to text would raise.
\<close>

theorem render_well_typed:
  assumes "wf_val inst" "ints_ok inst" "valid_str source"
  shows "case rendered_type inst of
      Inl e \<Rightarrow> shape_error e \<and> render_artifact inst source = Inl e
    | Inr ty \<Rightarrow> (case dget RENDERERS (py_str ty) of
          None \<Rightarrow> render_artifact inst source = Inl (ValueError (''no renderer for artifact_type='' @ py_repr ty))
        | Some renderer \<Rightarrow> (case render_artifact inst source of
              Inl e \<Rightarrow> shape_error e
            | Inr md \<Rightarrow> valid_str md \<and> (\<exists>body sections. renderer inst = Inr body
                \<and> md = GENERATED_HEADER source @ [newline, newline] @ body @ sections @ [newline])))"
proof (cases "rendered_type inst")
  case (Inl e)
  then show ?thesis using rendered_type_valued [OF assms(1)] by (simp add: render_artifact_def)
next
  case ty: (Inr ty)
  show ?thesis
  proof (cases "dget RENDERERS (py_str ty)")
    case None
    then show ?thesis using ty by (simp add: render_artifact_def)
  next
    case (Some r)
    let ?md = "\<lambda>body. GENERATED_HEADER source @ [newline, newline] @ body @ [newline]"
    have md: "valid_str body \<Longrightarrow> valid_str (?md body)" for body
      by (intro valid_str_append header_valid assms(3)) (simp_all add: literals)
    have body: "valid_str (if es = [] then b else b @ [newline, newline] @ join [newline, newline] es)"
      if "valid_str b" "valid_str (join [newline, newline] es)" for b es
      using that by (auto intro!: valid_str_append simp: literals simp del: append_Cons append.simps)
    have "outcome shape_error valid_str (render_artifact inst source)"
      unfolding render_artifact_def ty Some bindR_Inr option.case Let_def
      by (intro outcome_bind [OF renderer_texty [OF Some assms(1)]] outcome_bind [OF links_texty [OF assms(1)]]
          outcome_bind [OF approval_texty [OF assms(1)]])
        (intro md outcome_simps(2) [THEN iffD2] body extras_valid; assumption)
    moreover have "\<exists>b sections. r inst = Inr b \<and> shown = GENERATED_HEADER source @ [newline, newline] @ b @ sections @ [newline]"
      if "render_artifact inst source = Inr shown" for shown
    proof -
      from that obtain b es where "r inst = Inr b"
          "shown = ?md (if es = [] then b else b @ [newline, newline] @ join [newline, newline] es)"
        unfolding render_artifact_def ty Some bindR_Inr option.case Let_def bindR_eq_Inr by blast
      then show ?thesis
        by (intro exI [of _ b] exI [of _ "if es = [] then [] else [newline, newline] @ join [newline, newline] es"]) simp
    qed
    ultimately show ?thesis using ty Some by (auto simp: outcome_def split: sum.splits)
  qed
qed

definition demo_review :: pyval where
  "demo_review = PDict
     [(''artifact_type'', PStr ''review''), (''id'', PStr ''REV-1''), (''task_id'', PStr ''T-1''),
      (''subject_digest'', PStr ''d''), (''verdict'', PStr ''ok''), (''findings'', PList [])]"

theorem render_well_typed_witness:
  "\<exists>md body sections. render_artifact demo_review ''r.json'' = Inr md \<and> valid_str md \<and> render_review demo_review = Inr body
     \<and> md = GENERATED_HEADER ''r.json'' @ [newline, newline] @ body @ sections @ [newline]"
proof -
  have w: "wf_val demo_review" "ints_ok demo_review" "valid_str ''r.json''" by (simp_all add: demo_review_def dict_wf_def literals)
  have t: "rendered_type demo_review = Inr (PStr ''review'')" "dget RENDERERS ''review'' = Some render_review"
    by (simp_all add: rendered_type_def demo_review_def RENDERERS_def)
  obtain md where "render_artifact demo_review ''r.json'' = Inr md"
    by (simp add: render_artifact_def rendered_type_def RENDERERS_def render_review_def page_def line_def fstr_def fld_def
        gfld_def meta_def section_of_def rows_def links_section_def approval_section_def dindex_def dget_or_def demo_review_def
        or_empty_def Let_def)
  with render_well_typed [OF w] t show ?thesis by auto
qed

end
