(* ===== verification/Views.thy ===== *)
theory Views
  imports Render Pipeline
begin

text \<open>
  The documents that the control plane builds itself, seen through the renderer: policy decisions,
  evidence records and security reviews always have a Markdown view, and the view of a security
  review shows the verdict and one row per risk of the threat model.
\<close>

section \<open>The common parts of a document of the control plane\<close>

lemma page_Inr: "page (map Inr blocks) = Inr (join [newline] (concat blocks))"
proof -
  have "mapR id (map Inr blocks) = Inr blocks" by (induction blocks) simp_all
  then show ?thesis by (simp add: page_def)
qed

lemma fld_dict [simp]: "dget d k = Some v \<Longrightarrow> fld (PDict d) k = Inr (py_str v)"
  by (simp add: fld_def dindex_def)

lemma gfld_dict [simp]: "gfld (PDict d) k x = Inr (py_str (dget_or d k x))"
  by (simp add: gfld_def)

lemma line_simps [simp]: "fstr (map Inr ss) = Inr (concat ss)" "line (map Inr ss) = Inr [concat ss]"
proof -
  have "mapR id (map Inr ss) = Inr ss" by (induction ss) simp_all
  then show "fstr (map Inr ss) = Inr (concat ss)" by (simp add: fstr_def)
  then show "line (map Inr ss) = Inr [concat ss]" by (simp add: line_def)
qed

lemma mapR_id_Inr: "list_all (\<lambda>r. \<exists>x. r = Inr x) rs \<Longrightarrow> \<exists>xs. mapR id rs = Inr xs"
  by (induction rs) (auto simp: bindR_def split: sum.splits)

lemma page_total: "list_all (\<lambda>b. \<exists>ls. b = Inr ls) blocks \<Longrightarrow> \<exists>md. page blocks = Inr md"
  using mapR_id_Inr [of blocks] by (auto simp: page_def)

lemma line_total: "list_all (\<lambda>p. \<exists>s. p = Inr s) parts \<Longrightarrow> \<exists>ls. line parts = Inr ls"
  using mapR_id_Inr [of parts] by (auto simp: line_def fstr_def)

definition creator_ok :: "pydict \<Rightarrow> bool" where
  "creator_ok d = (\<forall>v. dget d ''created_by'' = Some v \<longrightarrow> is_dict v)"

lemma or_empty_dict: "or_empty (PDict d) = PDict d"
  by (auto simp: or_empty_def)

lemma creator_line:
  assumes "creator_ok d"
  shows "\<exists>c. or_empty (dget_or d ''created_by'' PNone) = PDict c"
proof (cases "dget d ''created_by''")
  case None
  then show ?thesis by (simp add: or_empty_def)
next
  case (Some v)
  with assms have "is_dict v" unfolding creator_ok_def by blast
  then obtain c where "v = PDict c" by (cases v) simp_all
  then show ?thesis using Some by (simp add: or_empty_dict)
qed

lemma truthy_get: "truthy (dget_or d k PNone) \<Longrightarrow> \<exists>v. dget d k = Some v"
  by (cases "dget d k") simp_all

lemma meta_total: "creator_ok d \<Longrightarrow> \<exists>m. meta (PDict d) = Inr m"
  unfolding meta_def Let_def
  by (rule page_total, drule creator_line)
    (auto intro!: line_total dest: truthy_get simp: Let_def)

definition links_ok :: "pydict \<Rightarrow> bool" where
  "links_ok d = (\<forall>v. dget d ''links'' = Some v \<longrightarrow>
     (\<exists>ls. v = PList (map PDict ls) \<and> list_all (\<lambda>l. dget l ''rel'' \<noteq> None \<and> dget l ''href'' \<noteq> None) ls))"

lemma fstr_total: "list_all (\<lambda>p. \<exists>s. p = Inr s) parts \<Longrightarrow> \<exists>s. fstr parts = Inr s"
  using mapR_id_Inr [of parts] by (auto simp: fstr_def)

lemma mapR_defined: "(\<And>x. x \<in> set xs \<Longrightarrow> \<exists>y. f x = Inr y) \<Longrightarrow> \<exists>ys. mapR f xs = Inr ys"
proof (induction xs)
  case (Cons x xs)
  then obtain ys y where "mapR f xs = Inr ys" "f x = Inr y" by (meson list.set_intros)
  then show ?case by simp
qed simp

lemma fld_defined: "dget d k \<noteq> None \<Longrightarrow> \<exists>s. fld (PDict d) k = Inr s"
  by auto

lemma links_total: "links_ok d \<Longrightarrow> \<exists>s. links_section (PDict d) = Inr s"
proof (cases "dget d ''links''")
  case (Some v)
  assume "links_ok d"
  then obtain ls where v: "v = PList (map PDict ls)"
    and ls: "list_all (\<lambda>l. dget l ''rel'' \<noteq> None \<and> dget l ''href'' \<noteq> None) ls"
    using Some unfolding links_ok_def by blast
  have "\<exists>ys. mapR (\<lambda>link. fstr [Inr ''| '', fld link ''rel'', Inr '' | `'', fld link ''href'', Inr ''` |'']) (map PDict ls) = Inr ys"
    using ls by (intro mapR_defined fstr_total) (auto simp: list_all_iff)
  then show ?thesis using Some v by (auto simp: links_section_def rows_def intro!: page_total)
qed (simp add: links_section_def)

lemma view_total:
  assumes "dget d ''artifact_type'' = Some (PStr t)" "dget RENDERERS t = Some r" "\<exists>body. r (PDict d) = Inr body"
    and "links_ok d" "dget d ''approval'' = None"
  shows "\<exists>md. render_artifact (PDict d) source = Inr md"
  using assms links_total [OF assms(4)]
  by (auto simp: render_artifact_def rendered_type_def approval_section_def Let_def)

lemma ticked_texts: "mapR ticked (map PStr ss) = Inr (map (\<lambda>s. PStr (''`'' @ s @ ''`'')) ss)"
  by (induction ss) simp_all

lemma comma_ticked_texts: "\<exists>s. comma_ticked (Inr (PList (map PStr ss))) = Inr s"
  by (simp add: comma_ticked_def ticked_texts val_join_def list_all_iff)

lemma decision_fields:
  "k \<noteq> ''links'' \<Longrightarrow> dget (build_policy_decision result aid t actor rid point links) k
     = dget (build_policy_decision result aid t actor rid point []) k"
  "dget (build_policy_decision result aid t actor rid point links) ''links''
     = (if links = [] then None else Some (PList (map PDict links)))"
  by (simp_all add: build_policy_decision_def Let_def)

lemma decision_renders:
  "\<exists>body. render_policy_decision (PDict (build_policy_decision result aid t actor rid point links)) = Inr body"
proof -
  let ?d = "build_policy_decision result aid t actor rid point links"
  have f: "dget ?d ''created_by'' = None" "dget ?d ''id'' = Some (PStr aid)" "dget ?d ''point'' = Some (PStr point)"
    "dget ?d ''decision'' = Some (PStr (if pr_allow result then ''allow'' else ''deny''))"
    "dget ?d ''reason_codes'' = Some (PList (map PStr (pr_reason_codes result)))"
    "dget ?d ''policy_bundle_version'' = Some (PStr (pr_bundle_version result))"
    "dget ?d ''input_digest'' = Some (PStr (pr_input_digest result))"
    by (simp_all add: build_policy_decision_def Let_def)
  obtain m where "meta (PDict ?d) = Inr m" using meta_total [of ?d] f(1) by (auto simp: creator_ok_def)
  then show ?thesis unfolding render_policy_decision_def
    by (intro page_total) (simp add: f section_of_def dindex_def line_total comma_ticked_texts)
qed

lemma dget_set_opt: "dget (set_opt k v d) k' = (if k = k' \<and> v \<noteq> None then map_option PStr v else dget d k')"
  by (cases v) (simp_all add: set_opt_def)

lemma evidence_body:
  assumes "creator_ok d" "dget d ''id'' = Some a" "dget d ''action'' = Some b" "dget d ''trust_tier'' = Some c"
    and "dget d ''sensitivity'' = Some e" "\<forall>v. dget d ''compression'' = Some v \<longrightarrow> is_dict v"
  shows "\<exists>body. render_evidence_record (PDict d) = Inr body"
proof -
  obtain m where m: "meta (PDict d) = Inr m" using meta_total [OF assms(1)] by blast
  have c: "dget_or d ''compression'' PNone = PNone \<or> (\<exists>c. dget_or d ''compression'' PNone = PDict c)"
  proof (cases "dget d ''compression''")
    case (Some v)
    with assms(6) show ?thesis by (cases v) auto
  qed simp
  show ?thesis unfolding render_evidence_record_def
    by (intro page_total) (use c in \<open>auto simp: assms(2-5) m section_of_def line_total dest: truthy_get\<close>)
qed

lemma evidence_renders:
  "\<exists>body. render_evidence_record (PDict (build_evidence_record aid t actor rid action tier sens dig ref pref cmp links)) = Inr body"
proof -
  let ?d = "build_evidence_record aid t actor rid action tier sens dig ref pref cmp links"
  have f: "dget ?d ''created_by'' = None" "dget ?d ''id'' = Some (PStr aid)" "dget ?d ''action'' = Some (PStr action)"
    "dget ?d ''trust_tier'' = Some (PStr (tier_value tier))" "dget ?d ''sensitivity'' = Some (PStr sens)"
    "dget ?d ''compression'' = map_option (\<lambda>c. PDict (compression_entry c)) cmp"
    by (cases cmp; simp add: build_evidence_record_def Let_def dget_set_opt)+
  show ?thesis by (rule evidence_body [OF _ f(2-5)]) (auto simp: creator_ok_def f(1) f(6))
qed

text \<open>
  The records that the control plane keeps of its own actions can always be shown. A policy
  decision and an evidence record built by it have a Markdown view, whatever the decision, the
  actor, the capture and the optional parts, provided the links given to it name their relation
  and their target.
\<close>

theorem own_records_have_view:
  assumes "list_all (\<lambda>l. dget l ''rel'' \<noteq> None \<and> dget l ''href'' \<noteq> None) links"
  shows "(\<exists>md. render_artifact (PDict (build_policy_decision result aid t actor rid point links)) source = Inr md)
    \<and> (\<exists>md. render_artifact (PDict (build_evidence_record aid t actor rid action tier sens dig ref pref cmp links)) source = Inr md)"
proof
  let ?d = "build_policy_decision result aid t actor rid point links"
  have "dget ?d ''artifact_type'' = Some (PStr ''policy-decision'')" "links_ok ?d" "dget ?d ''approval'' = None"
    using assms by (auto simp: build_policy_decision_def Let_def links_ok_def)
  then show "\<exists>md. render_artifact (PDict ?d) source = Inr md"
    using view_total [where r = render_policy_decision and d = ?d, OF _ _ decision_renders] by (simp add: RENDERERS_def)
next
  let ?d = "build_evidence_record aid t actor rid action tier sens dig ref pref cmp links"
  have "dget ?d ''artifact_type'' = Some (PStr ''evidence-record'')" "links_ok ?d" "dget ?d ''approval'' = None"
    using assms by (cases cmp; auto simp: build_evidence_record_def Let_def dget_set_opt links_ok_def)+
  then show "\<exists>md. render_artifact (PDict ?d) source = Inr md"
    using view_total [where r = render_evidence_record and d = ?d, OF _ _ evidence_renders] by (simp add: RENDERERS_def)
qed

theorem own_records_have_view_witness:
  "\<exists>md. render_artifact (PDict (build_evidence_record ''EV-1'' ''T'' [] ''R'' ''act'' UNTRUSTED ''internal'' None None None None
      [[(''rel'', PStr ''task''), (''href'', PStr ''specs/T.json'')]])) ''ev.json'' = Inr md"
  using own_records_have_view [of "[[(''rel'', PStr ''task''), (''href'', PStr ''specs/T.json'')]]"] by simp

section \<open>The security review\<close>

text \<open>The row that the view has for a risk of the threat model.\<close>

definition view_row :: "pydict \<Rightarrow> string" where
  "view_row d =
     ''| `'' @ py_str (dget_or d ''id'' PNone) @ ''` | '' @ py_str (dget_or d ''severity'' (PStr [])) @ '' | ''
     @ risk_disposition (py_str (dget_or d ''severity'' (PStr []))) (dget_or d ''verification_test'' PNone) (dget_or d ''waiver_id'' PNone)
     @ '' | `-` |''"

lemma entry_row:
  "risk_entry (PDict d) = Inr (disposition, entry) \<Longrightarrow> disposition_row (PDict entry) = Inr (view_row d)"
  by (auto simp: risk_entry_def Let_def disposition_row_def fld_def dindex_def dget_or_def view_row_def fstr_def)

lemma entry_rows:
  "mapR risk_entry (map PDict ds) = Inr entries \<Longrightarrow>
   mapR disposition_row (map (PDict \<circ> snd) entries) = Inr (map view_row ds)"
proof (induction ds arbitrary: entries)
  case (Cons d ds)
  then obtain x xs where x: "risk_entry (PDict d) = Inr x" "mapR risk_entry (map PDict ds) = Inr xs" "entries = x # xs"
    by (auto simp: bindR_eq_Inr)
  then show ?case using Cons.IH [OF x(2)] entry_row [of d "fst x" "snd x"] by simp
qed simp

text \<open>
  C20: The view of a security review shows what was reviewed. For a review built from a threat model
  the rendered text is exactly: the generated-file header, the title, the metadata, the threat
  model, the verdict, which is \<open>approved\<close> just if every risk is settled, one row per risk of
  the threat model in its order with its severity and disposition, and the link to the threat
  model. The waiver column is \<open>-\<close> in every row, also for a risk disposed of as \<open>waived_medium\<close>.
\<close>

theorem security_review_view:
  assumes "build_security_review feature_id tm aid t actor rid href = Inr document"
  shows "\<exists>risks m. val_iter (dget_or tm ''risks'' (PList [])) = Inr (map PDict risks) \<and> meta (PDict document) = Inr m
    \<and> render_artifact (PDict document) source = Inr (GENERATED_HEADER source @ [newline, newline]
        @ join [newline]
           ([''# Security Review: '' @ aid, [], m, [], ''Threat model: `'' @ py_str (dget_or tm ''id'' (PStr [])) @ ''`'', [],
             ''**Verdict: '' @ (if list_all settled risks then ''approved'' else ''changes_requested'') @ ''**'', [],
             ''## Risk dispositions'', ''| Risk | Severity | Disposition | Waiver |'', ''|---|---|---|---|'']
            @ map view_row risks)
        @ [newline, newline]
        @ join [newline] [''## Links'', [], ''| Relation | Reference |'', ''|---|---|'', ''| threat | `'' @ href @ ''` |'']
        @ [newline])"
proof -
  from assms obtain vs entries where e: "val_iter (dget_or tm ''risks'' (PList [])) = Inr vs" "mapR risk_entry vs = Inr entries"
      and doc: "document =
       [(''schema_version'', PStr ''1.0.0''), (''artifact_type'', PStr ''security-review''), (''id'', PStr aid),
        (''created_at'', PStr t), (''created_by'', PDict actor), (''run_id'', PStr rid),
        (''links'', PList [PDict [(''rel'', PStr ''threat''), (''href'', PStr href)]]),
        (''feature_id'', PStr feature_id), (''threat_model_id'', PStr (py_str (dget_or tm ''id'' (PStr [])))),
        (''verdict'', PStr (if list_ex (\<lambda>(disposition, entry). disposition = ''open_blocking'') entries
           then ''changes_requested'' else ''approved'')),
        (''risk_dispositions'', PList (map (PDict \<circ> snd) entries))]"
    unfolding build_security_review_def bindR_eq_Inr Let_def by auto
  from risk_entries [OF e(2)] obtain ds where ds: "vs = map PDict ds"
      "list_ex (\<lambda>(disposition, entry). disposition = ''open_blocking'') entries \<longleftrightarrow> \<not> list_all settled ds" by blast
  have rows: "mapR disposition_row (map (PDict \<circ> snd) entries) = Inr (map view_row ds)"
    using entry_rows e(2) ds(1) by simp
  obtain m where m: "meta (PDict document) = Inr m" using meta_total [of document] doc by (auto simp: creator_ok_def)
  have get: "dget document ''artifact_type'' = Some (PStr ''security-review'')" "dget document ''id'' = Some (PStr aid)"
    "dget document ''threat_model_id'' = Some (PStr (py_str (dget_or tm ''id'' (PStr []))))"
    "dget document ''verdict'' = Some (PStr (if list_all settled ds then ''approved'' else ''changes_requested''))"
    "dget document ''risk_dispositions'' = Some (PList (map (PDict \<circ> snd) entries))"
    "dget document ''links'' = Some (PList [PDict [(''rel'', PStr ''threat''), (''href'', PStr href)]])"
    "dget document ''approval'' = None"
    using ds(2) by (simp_all add: doc)
  let ?b = "join [newline]
     ([''# Security Review: '' @ aid, [], m, [], ''Threat model: `'' @ py_str (dget_or tm ''id'' (PStr [])) @ ''`'', [],
       ''**Verdict: '' @ (if list_all settled ds then ''approved'' else ''changes_requested'') @ ''**'', [],
       ''## Risk dispositions'', ''| Risk | Severity | Disposition | Waiver |'', ''|---|---|---|---|'']
      @ map view_row ds)"
  let ?l = "join [newline] [''## Links'', [], ''| Relation | Reference |'', ''|---|---|'', ''| threat | `'' @ href @ ''` |'']"
  have body: "render_security_review (PDict document) = Inr ?b"
    by (simp add: render_security_review_def get m rows section_of_def rows_def dindex_def page_def line_def fstr_def del: join.simps)
  have links: "links_section (PDict document) = Inr ?l"
    by (simp add: links_section_def get rows_def page_def fstr_def fld_def dindex_def dget_or_def)
  have "?l \<noteq> []" by simp
  then have "render_artifact (PDict document) source = Inr (GENERATED_HEADER source @ [newline, newline] @ ?b
      @ [newline, newline] @ ?l @ [newline])"
    by (simp add: render_artifact_def rendered_type_def get RENDERERS_def body links approval_section_def dget_or_def Let_def
        del: join.simps(3))
  then show ?thesis using e(1) ds(1) m by (intro exI [of _ ds] exI [of _ m] conjI) simp_all
qed

theorem security_review_view_witness:
  "\<exists>document md. build_security_review ''FEAT-1'' [(''risks'', PList [PDict [(''id'', PStr ''R''), (''severity'', PStr ''medium''),
        (''waiver_id'', PStr ''W-1'')]])] ''SECREV-1'' ''T'' [] ''RUN-1'' ''specs/TM-1.json'' = Inr document
     \<and> render_artifact (PDict document) ''s.json'' = Inr md"
proof -
  let ?tm = "[(''risks'', PList [PDict [(''id'', PStr ''R''), (''severity'', PStr ''medium''), (''waiver_id'', PStr ''W-1'')]])]"
  obtain document where d: "build_security_review ''FEAT-1'' ?tm ''SECREV-1'' ''T'' [] ''RUN-1'' ''specs/TM-1.json'' = Inr document"
    by (simp add: build_security_review_def risk_entry_def dget_or_def Let_def)
  obtain md where "render_artifact (PDict document) ''s.json'' = Inr md"
    using security_review_view [OF d, of "''s.json''"] by (elim exE conjE)
  with d show ?thesis by blast
qed

end
