(* ===== verification/Rfc3339.thy ===== *)
theory Rfc3339
  imports Waiver
begin

text \<open>
  How the command line prints a moment (\<open>_rfc3339\<close> in \<open>cli.py\<close>): in UTC, to the second. The date is
  recovered from its ordinal, the way \<open>datetime\<close> does; the conversion is exact on the whole range,
  and the printed text is read back by \<open>parse_timestamp\<close> as the same second.
\<close>

section \<open>Dates and times as text\<close>

text \<open>
  The year, month and day of an ordinal. The year comes from the cycles of the calendar: 146097
  days in 400 years, 36524 in 100, 1461 in 4; the last day of a cycle belongs to its last year.
\<close>

definition year_of :: "nat \<Rightarrow> nat" where
  "year_of n =
     (let m = n - 1; r400 = m mod 146097; n100 = r400 div 36524; r100 = r400 mod 36524; r4 = r100 mod 1461; n1 = r4 div 365;
          y = m div 146097 * 400 + 1 + n100 * 100 + r100 div 1461 * 4 + n1
      in if n1 = 4 \<or> n100 = 4 then y - 1 else y)"

definition month_of :: "nat \<Rightarrow> nat \<Rightarrow> nat" where
  "month_of y r = 1 + length (takeWhile (\<lambda>m. sum_list (take m (month_lengths y)) < r) [1..<12])"

definition ord2ymd :: "nat \<Rightarrow> nat \<times> nat \<times> nat" where
  "ord2ymd n =
     (let y = year_of n; r = n - days_before_year y; m = month_of y r
      in (y, m, r - sum_list (take (m - 1) (month_lengths y))))"

text \<open>The year is printed without padding, as the C library of Linux does. A moment without an offset is
  taken as UTC; the commands only print moments that have one.\<close>

definition rfc3339 :: "datetime \<Rightarrow> string result" where
  "rfc3339 moment =
     (let t = instant moment; day = t div micros_per_day; s = nat (t mod micros_per_day div micros_per_second)
      in if day < 1 \<or> int max_ordinal < day then Inl (OtherError ''OverflowError'')
         else
           (case ord2ymd (nat day) of (y, m, d) \<Rightarrow>
              Inr (dec_nat y @ ''-'' @ zero_pad 2 m @ ''-'' @ zero_pad 2 d @ ''T'' @ zero_pad 2 (s div 3600) @ '':''
                @ zero_pad 2 (s div 60 mod 60) @ '':'' @ zero_pad 2 (s mod 60) @ ''Z'')))"

section \<open>The calendar is exact\<close>

lemma dvd_mod0: "k dvd l \<Longrightarrow> (n :: nat) mod l = 0 \<Longrightarrow> n mod k = 0"
  using dvd_trans by (auto simp: mod_eq_0_iff_dvd)

lemma next_year_count:
  assumes "q4' = q4 + (if m4 then 1 else 0)" "q100' = q100 + (if m100 then 1 else 0)" "q400' = q400 + (if m400 then 1 else 0)"
    and "(q100 :: nat) \<le> q4" "m400 \<longrightarrow> m100" "m100 \<longrightarrow> m4"
  shows "(y + 1) * 365 + q4' - q100' + q400' = y * 365 + q4 - q100 + q400 + 365 + (if m4 \<and> (\<not> m100 \<or> m400) then 1 else 0)"
  using assms by (cases m4; cases m100; cases m400) simp_all

lemma year_length: "days_before_year (y + 2) = days_before_year (y + 1) + 365 + (if is_leap (y + 1) then 1 else 0)"
proof -
  have d: "(y + 1) div k = y div k + (if (y + 1) mod k = 0 then 1 else 0)" for k by (simp add: div_Suc)
  have "y div 100 \<le> y div 4" by (rule div_le_mono2) simp_all
  moreover have "(y + 1) mod 400 = 0 \<longrightarrow> (y + 1) mod 100 = 0" "(y + 1) mod 100 = 0 \<longrightarrow> (y + 1) mod 4 = 0"
    by (rule impI, rule dvd_mod0; simp)+
  ultimately have "(y + 1) * 365 + (y + 1) div 4 - (y + 1) div 100 + (y + 1) div 400
      = y * 365 + y div 4 - y div 100 + y div 400 + 365
        + (if (y + 1) mod 4 = 0 \<and> (\<not> (y + 1) mod 100 = 0 \<or> (y + 1) mod 400 = 0) then 1 else 0)"
    by (rule next_year_count [OF d d d])
  moreover have "y + 2 - 1 = y + 1" "y + 1 - 1 = y" by simp_all
  ultimately show ?thesis unfolding days_before_year_def Let_def is_leap_def by (simp only:)
qed

lemma cycles:
  assumes "b < 4" "c < 25" "d < 4"
  shows "days_before_year (400 * a + 100 * b + 4 * c + d + 1) = 146097 * a + 36524 * b + 1461 * c + 365 * d"
proof -
  have "400 * a + 100 * b + 4 * c + d = (100 * a + 25 * b + c) * 4 + d"
    "400 * a + 100 * b + 4 * c + d = (4 * a + b) * 100 + (4 * c + d)"
    "400 * a + 100 * b + 4 * c + d = a * 400 + (100 * b + 4 * c + d)" by simp_all
  then have "(400 * a + 100 * b + 4 * c + d) div 4 = 100 * a + 25 * b + c"
    "(400 * a + 100 * b + 4 * c + d) div 100 = 4 * a + b" "(400 * a + 100 * b + 4 * c + d) div 400 = a"
    using assms radix_div [of d 4] radix_div [of "4 * c + d" 100] radix_div [of "100 * b + 4 * c + d" 400] by simp_all
  then show ?thesis by (simp add: days_before_year_def Let_def)
qed

lemma days_before_mono:
  assumes "1 \<le> y" "y \<le> z"
  shows "days_before_year y \<le> days_before_year z"
proof -
  have "days_before_year (k + 1) \<le> days_before_year (k + 1 + j)" for k j
  proof (induction j)
    case (Suc j)
    then show ?case using year_length [of "k + j"] by simp
  qed simp
  from this [of "y - 1" "z - y"] assms show ?thesis by simp
qed

text \<open>The year of an ordinal is the one whose days include it.\<close>

lemma year_of_spec:
  assumes "1 \<le> n"
  shows "1 \<le> year_of n \<and> days_before_year (year_of n) < n
     \<and> n \<le> days_before_year (year_of n) + 365 + (if is_leap (year_of n) then 1 else 0)"
proof -
  define m a r400 b r100 c r4 d e where "m = n - 1" and "a = m div 146097" and "r400 = m mod 146097"
    and "b = r400 div 36524" and "r100 = r400 mod 36524" and "c = r100 div 1461" and "r4 = r100 mod 1461"
    and "d = r4 div 365" and "e = r4 mod 365"
  note defs = this
  have lt: "r400 < 146097" "r100 < 36524" "r4 < 1461" "e < 365" by (simp_all add: defs)
  have eqs: "m = 146097 * a + r400" "r400 = 36524 * b + r100" "r100 = 1461 * c + r4" "r4 = 365 * d + e" "n = m + 1"
    using assms by (simp_all add: defs(2-) mult_div_mod_eq) (simp add: defs(1))
  have bd: "b \<le> 4" "c \<le> 24" "d \<le> 4" using lt eqs by linarith+
  have y: "year_of n = (if d = 4 \<or> b = 4 then 400 * a + 100 * b + 4 * c + d else 400 * a + 100 * b + 4 * c + d + 1)"
    by (simp add: year_of_def Let_def defs)
  consider "b < 4" "d < 4" | "b < 4" "d = 4" | "b = 4" using bd by linarith
  then show ?thesis
  proof cases
    case 1
    then have "days_before_year (year_of n) = 146097 * a + 36524 * b + 1461 * c + 365 * d"
      using y bd cycles [of b c d a] by simp
    with 1 y lt eqs show ?thesis by simp
  next
    case 2
    then have "e = 0" "c < 24" using lt eqs by linarith+
    then have "days_before_year (year_of n) = 146097 * a + 36524 * b + 1461 * c + 1095"
      using 2 y cycles [of b c 3 a] by (simp add: ac_simps)
    moreover have "is_leap (year_of n)"
    proof -
      have "year_of n = (4 * a + b) * 100 + (4 * c + 4)" "4 * c + 4 < 100" using 2 y \<open>c < 24\<close> by simp_all
      then have "year_of n mod 100 = 4 * c + 4" by (metis radix_mod)
      moreover have "year_of n = (100 * a + 25 * b + c + 1) * 4 + 0" using 2 y by simp
      then have "year_of n mod 4 = 0" by (metis radix_mod zero_less_numeral)
      ultimately show ?thesis by (simp add: is_leap_def)
    qed
    ultimately show ?thesis using 2 y eqs \<open>e = 0\<close> by simp
  next
    case 3
    then have z: "r100 = 0" "c = 0" "d = 0" using lt eqs by linarith+
    then have yr: "year_of n = 400 * a + 100 * 3 + 4 * 24 + 3 + 1" using 3 y by simp
    have d0: "days_before_year (year_of n) = 146097 * a + 145731" unfolding yr by (subst cycles) simp_all
    have "year_of n = (a + 1) * 400 + 0" using yr by simp
    then have m: "year_of n mod 400 = 0" by (metis radix_mod zero_less_numeral)
    then have "is_leap (year_of n)" using dvd_mod0 [OF _ m, of 4] by (simp add: is_leap_def)
    with d0 yr 3 z eqs show ?thesis by simp
  qed
qed

lemma month_of_spec:
  assumes "1 \<le> r" "r \<le> 365 + (if is_leap y then 1 else 0)"
  shows "1 \<le> month_of y r \<and> month_of y r \<le> 12 \<and> sum_list (take (month_of y r - 1) (month_lengths y)) < r
     \<and> r - sum_list (take (month_of y r - 1) (month_lengths y)) \<le> month_lengths y ! (month_of y r - 1)"
proof -
  have u: "[1..<12] = [1, 2, 3, 4, 5, 6, 7, 8, 9, 10, 11 :: nat]" by (simp add: upt_rec)
  show ?thesis using assms unfolding month_of_def u month_lengths_def by (cases "is_leap y"; simp; intro conjI impI; linarith)
qed

text \<open>Every ordinal of the calendar is the ordinal of the date computed for it.\<close>

lemma ord2ymd_exact:
  assumes "1 \<le> n" "n \<le> max_ordinal" "ord2ymd n = (y, m, d)"
  shows "ymd2ord y m d = Some n"
proof -
  have y: "y = year_of n" and m: "m = month_of y (n - days_before_year y)"
    and d: "d = n - days_before_year y - sum_list (take (m - 1) (month_lengths y))"
    using assms(3) by (auto simp: ord2ymd_def Let_def)
  have s: "1 \<le> y" "days_before_year y < n" "n - days_before_year y \<le> 365 + (if is_leap y then 1 else 0)"
    using year_of_spec [OF assms(1)] unfolding y by linarith+
  have "y \<le> 9999"
  proof (rule ccontr)
    assume "\<not> y \<le> 9999"
    then have "days_before_year 10000 \<le> days_before_year y" by (intro days_before_mono) simp_all
    moreover have "days_before_year 10000 = max_ordinal" by (simp add: days_before_year_def max_ordinal_def)
    ultimately show False using s(2) assms(2) by simp
  qed
  moreover have "1 \<le> m \<and> m \<le> 12 \<and> sum_list (take (m - 1) (month_lengths y)) < n - days_before_year y
     \<and> d \<le> month_lengths y ! (m - 1)"
    unfolding d unfolding m using s by (intro month_of_spec) linarith+
  ultimately show ?thesis using s(1,2) d by (auto simp: ymd2ord_def)
qed

section \<open>Reading a printed moment\<close>

lemma is_digit_not: "is_digit c \<Longrightarrow> c \<noteq> CHR ''-'' \<and> c \<noteq> CHR ''W'' \<and> c \<noteq> CHR ''+'' \<and> c \<noteq> CHR ''Z'' \<and> c \<noteq> CHR '':''
    \<and> \<not> is_cont c \<and> \<not> is_zone_mark c \<and> 32 < byte c \<and> byte c < 128"
  by (auto simp: is_digit_def is_cont_def is_zone_mark_def)

lemma two_digits: "k < 100 \<Longrightarrow> \<exists>a b. zero_pad 2 k = [a, b] \<and> is_digit a \<and> is_digit b \<and> read_nat [a, b] = k"
proof (cases "k < 10")
  case True
  then show ?thesis by (simp add: zero_pad_def dec_nat.simps [of k] read_nat_def is_digit_def)
next
  case False
  assume "k < 100"
  with False have "k div 10 < 10" "k mod 10 < 10" by simp_all
  with False show ?thesis by (simp add: zero_pad_def dec_nat.simps [of k] dec_nat.simps [of "k div 10"] read_nat_def)
qed

lemma four_digits:
  assumes "1000 \<le> y" "y \<le> 9999"
  shows "\<exists>a b c d. dec_nat y = [a, b, c, d] \<and> is_digit a \<and> is_digit b \<and> is_digit c \<and> is_digit d \<and> read_nat [a, b, c, d] = y"
proof -
  have q: "y div 10 div 10 div 10 < 10" "\<not> y div 10 div 10 < 10" "\<not> y div 10 < 10" "\<not> y < 10" using assms by simp_all
  then obtain a b c d where e: "dec_nat y = [a, b, c, d]"
    by (simp add: dec_nat.simps [of y] dec_nat.simps [of "y div 10"] dec_nat.simps [of "y div 10 div 10"]
        dec_nat.simps [of "y div 10 div 10 div 10"])
  then show ?thesis using dec_nat_digits [of _ y] read_dec_nat [of y] by simp
qed

lemma parse_two: "is_digit a \<Longrightarrow> is_digit b \<Longrightarrow> parse_digits 2 (a # b # r) = Some (read_nat [a, b], r)"
  by (simp add: parse_digits_def numeral_2_eq_2)

lemma parse_four:
  "list_all is_digit [a, b, c, d] \<Longrightarrow> parse_digits 4 (a # b # c # d # r) = Some (read_nat [a, b, c, d], r)"
  by (simp add: parse_digits_def eval_nat_numeral)

lemma parse_iso:
  assumes "list_all is_digit [y1, y2, y3, y4, m1, m2, d1, d2, h1, h2, i1, i2, s1, s2]"
    and "ymd2ord (read_nat [y1, y2, y3, y4]) (read_nat [m1, m2]) (read_nat [d1, d2]) = Some n"
    and "read_nat [h1, h2] \<le> 23" "read_nat [i1, i2] \<le> 59" "read_nat [s1, s2] \<le> 59"
  shows "fromisoformat ([y1, y2, y3, y4, CHR ''-'', m1, m2, CHR ''-'', d1, d2, CHR ''T'', h1, h2, CHR '':'', i1, i2, CHR '':'', s1, s2]
      @ ''+00:00'') = Inr \<lparr>dt_local = int n * micros_per_day
        + ((int (read_nat [h1, h2]) * 60 + int (read_nat [i1, i2])) * 60 + int (read_nat [s1, s2])) * micros_per_second,
      dt_offset = Some 0\<rparr>"
proof -
  have dg: "is_digit y1" "is_digit y2" "is_digit y3" "is_digit y4" "is_digit m1" "is_digit m2" "is_digit d1" "is_digit d2"
    "is_digit h1" "is_digit h2" "is_digit i1" "is_digit i2" "is_digit s1" "is_digit s2" using assms(1) by simp_all
  note nd = dg [THEN is_digit_not]
  have date: "parse_date [y1, y2, y3, y4, CHR ''-'', m1, m2, CHR ''-'', d1, d2] = Some n"
    using dg nd assms(2) by (simp add: parse_date_def parse_two parse_four)
  have hms: "parse_hms [h1, h2, CHR '':'', i1, i2, CHR '':'', s1, s2] = Some ([read_nat [h1, h2], read_nat [i1, i2], read_nat [s1, s2], 0], False)"
    using dg parse_two [unfolded numeral_2_eq_2] by (simp add: parse_hms_def parse_comps.simps numeral_2_eq_2 Let_def)
  have zone: "parse_hms ''00:00'' = Some ([0, 0, 0, 0], False)" by code_simp
  have time: "parse_time ([h1, h2, CHR '':'', i1, i2, CHR '':'', s1, s2] @ ''+00:00'')
      = Some (((int (read_nat [h1, h2]) * 60 + int (read_nat [i1, i2])) * 60 + int (read_nat [s1, s2])) * micros_per_second, Some 0)"
    using nd assms(3-5) hms zone
    by (simp add: parse_time_def is_zone_mark_def valid_time_def micros_of_def micros_per_day_def micros_per_second_def)
  show ?thesis using nd date time by (simp add: fromisoformat_def find_separator_def Let_def)
qed

lemma day_of_month: "ymd2ord y m d = Some n \<Longrightarrow> y \<le> 9999 \<and> m < 100 \<and> d < 100"
proof -
  assume "ymd2ord y m d = Some n"
  then have b: "y \<le> 9999" "m \<le> 12" "1 \<le> m" "d \<le> month_lengths y ! (m - 1)" by (auto simp: ymd2ord_def split: if_splits)
  have "m - 1 < length (month_lengths y)" using b by (simp add: month_lengths_def)
  then have "month_lengths y ! (m - 1) \<in> set (month_lengths y)" by (rule nth_mem)
  then have "month_lengths y ! (m - 1) \<le> 31" by (auto simp: month_lengths_def split: if_splits)
  with b show ?thesis by simp
qed

lemma late_year:
  assumes "days_before_year 1000 < n" "ord2ymd n = (y, m, d)"
  shows "1000 \<le> y"
proof (rule ccontr)
  assume "\<not> 1000 \<le> y"
  moreover have "y = year_of n" using assms(2) by (auto simp: ord2ymd_def Let_def)
  ultimately have s: "1 \<le> y" "y + 1 \<le> 1000" "n \<le> days_before_year y + 365 + (if is_leap y then 1 else 0)"
    using year_of_spec [of n] assms(1) by simp_all
  then have "n \<le> days_before_year (y + 1)" using year_length [of "y - 1"] by simp
  also have "\<dots> \<le> days_before_year 1000" by (rule days_before_mono) (use s in simp_all)
  finally show False using assms(1) by simp
qed

lemma timestamp_text:
  assumes "list_all is_digit [y1, y2, y3, y4, m1, m2, d1, d2, h1, h2, i1, i2, s1, s2]"
  shows "parse_timestamp ([y1, y2, y3, y4, CHR ''-'', m1, m2, CHR ''-'', d1, d2, CHR ''T'', h1, h2, CHR '':'', i1, i2, CHR '':'', s1, s2] @ ''Z'')
    = bindR (fromisoformat ([y1, y2, y3, y4, CHR ''-'', m1, m2, CHR ''-'', d1, d2, CHR ''T'', h1, h2, CHR '':'', i1, i2, CHR '':'', s1, s2]
        @ ''+00:00'')) (\<lambda>parsed. Inr (if dt_offset parsed = None then replace_utc parsed else parsed))"
proof -
  let ?b = "[y1, y2, y3, y4, CHR ''-'', m1, m2, CHR ''-'', d1, d2, CHR ''T'', h1, h2, CHR '':'', i1, i2, CHR '':'', s1, s2]"
  have "is_ascii (?b @ ''Z'')" "32 < byte y1" using assms is_digit_not by auto
  then have "strip (?b @ ''Z'') = ?b @ ''Z''" by (intro strip_ascii_plain) simp_all
  moreover have "butlast (?b @ ''Z'') = ?b" by simp
  ultimately show ?thesis unfolding parse_timestamp_def Let_def by (simp only: ends_with_append if_True)
qed

lemma hms_sum: "(int (s div 3600) * 60 + int (s div 60 mod 60)) * 60 + int (s mod 60) = int s"
proof -
  have "s div 3600 = s div 60 div 60" by (simp add: div_mult2_eq [symmetric])
  moreover have "s div 60 div 60 * 60 + s div 60 mod 60 = s div 60" "s div 60 * 60 + s mod 60 = s" by (simp_all add: div_mult_mod_eq)
  ultimately have "(s div 3600 * 60 + s div 60 mod 60) * 60 + s mod 60 = s" by simp
  then show ?thesis by (metis of_nat_add of_nat_mult of_nat_numeral)
qed

lemma regroup: "a * (k * c) + b * k = (a * c + b) * (k :: int)"
  by (simp add: algebra_simps)

lemma int_div_less:
  assumes "x < c * k" "0 < (k :: int)"
  shows "x div k < c"
proof (rule ccontr)
  assume "\<not> x div k < c"
  then have "c * k \<le> x div k * k" using assms(2) by (simp add: mult_right_mono)
  also have "\<dots> \<le> x" using div_mult_mod_eq [of x k] pos_mod_sign [OF assms(2), of x] by linarith
  finally show False using assms(1) by simp
qed

lemma second_start:
  fixes x k c :: int
  assumes "0 < k" "0 < c"
  shows "x div (c * k) * (c * k) + x mod (c * k) div k * k = x div k * k"
proof -
  have m: "x mod (k * c) = k * (x div k mod c) + x mod k" using assms by (intro zmod_zmult2_eq) simp
  have d: "x div (k * c) = x div k div c" using assms by (intro zdiv_zmult2_eq) simp
  have "(k * (x div k mod c) + x mod k) div k = x div k mod c" using assms by simp
  then have "x div (c * k) * (c * k) + x mod (c * k) div k * k = x div k div c * (k * c) + (x div k mod c) * k"
    unfolding mult.commute [of c k] m d by (simp only:)
  also have "\<dots> = (x div k div c * c + x div k mod c) * k" by (rule regroup)
  finally show ?thesis by (simp only: div_mult_mod_eq)
qed

text \<open>A printed date and time of day, read back.\<close>

lemma stamp_reads_back:
  assumes n: "ymd2ord y m d = Some n" and y: "1000 \<le> y" and s: "s < 86400"
  shows "parse_timestamp (dec_nat y @ ''-'' @ zero_pad 2 m @ ''-'' @ zero_pad 2 d @ ''T''
      @ zero_pad 2 (s div 3600) @ '':'' @ zero_pad 2 (s div 60 mod 60) @ '':'' @ zero_pad 2 (s mod 60) @ ''Z'')
    = Inr \<lparr>dt_local = int n * micros_per_day + int s * micros_per_second, dt_offset = Some 0\<rparr>"
proof -
  have hb: "s div 3600 \<le> 23" "s div 60 mod 60 \<le> 59" "s mod 60 \<le> 59" using s by simp_all
  then have hb': "s div 3600 < 100" "s div 60 mod 60 < 100" "s mod 60 < 100" by linarith+
  obtain y1 y2 y3 y4 where Y: "dec_nat y = [y1, y2, y3, y4]" "is_digit y1" "is_digit y2" "is_digit y3" "is_digit y4"
      "read_nat [y1, y2, y3, y4] = y" using four_digits [OF y] day_of_month [OF n] by blast
  obtain m1 m2 where M: "zero_pad 2 m = [m1, m2]" "is_digit m1" "is_digit m2" "read_nat [m1, m2] = m"
    using two_digits day_of_month [OF n] by blast
  obtain d1 d2 where D: "zero_pad 2 d = [d1, d2]" "is_digit d1" "is_digit d2" "read_nat [d1, d2] = d"
    using two_digits day_of_month [OF n] by blast
  obtain h1 h2 where H: "zero_pad 2 (s div 3600) = [h1, h2]" "is_digit h1" "is_digit h2" "read_nat [h1, h2] = s div 3600"
    using two_digits [OF hb'(1)] by blast
  obtain i1 i2 where I: "zero_pad 2 (s div 60 mod 60) = [i1, i2]" "is_digit i1" "is_digit i2" "read_nat [i1, i2] = s div 60 mod 60"
    using two_digits [OF hb'(2)] by blast
  obtain s1 s2 where S: "zero_pad 2 (s mod 60) = [s1, s2]" "is_digit s1" "is_digit s2" "read_nat [s1, s2] = s mod 60"
    using two_digits [OF hb'(3)] by blast
  let ?b = "[y1, y2, y3, y4, CHR ''-'', m1, m2, CHR ''-'', d1, d2, CHR ''T'', h1, h2, CHR '':'', i1, i2, CHR '':'', s1, s2]"
  have dg: "list_all is_digit [y1, y2, y3, y4, m1, m2, d1, d2, h1, h2, i1, i2, s1, s2]" using Y M D H I S by simp
  have "fromisoformat (?b @ ''+00:00'') = Inr \<lparr>dt_local = int n * micros_per_day
        + ((int (s div 3600) * 60 + int (s div 60 mod 60)) * 60 + int (s mod 60)) * micros_per_second, dt_offset = Some 0\<rparr>"
    using parse_iso [OF dg] n hb unfolding Y(6) M(4) D(4) H(4) I(4) S(4) by blast
  then have "parse_timestamp (?b @ ''Z'') = Inr \<lparr>dt_local = int n * micros_per_day + int s * micros_per_second, dt_offset = Some 0\<rparr>"
    by (simp only: timestamp_text [OF dg] hms_sum bindR_Inr) simp
  then show ?thesis using Y(1) M(1) D(1) H(1) I(1) S(1) by simp
qed

text \<open>
  C39: A time stamp written by the command line is read back as the moment it was made from, to the
  second: for every moment from the year 1000 on whose text is printed, \<open>parse_timestamp\<close> accepts
  the text and returns an aware UTC moment at the start of the same second.
\<close>

theorem printed_time_reads_back:
  assumes "rfc3339 t = Inr text" "(int (days_before_year 1000) + 1) * micros_per_day \<le> instant t"
  shows "\<exists>t'. parse_timestamp text = Inr t' \<and> dt_offset t' = Some 0
     \<and> instant t' = instant t div micros_per_second * micros_per_second"
proof -
  define day where "day = instant t div micros_per_day"
  define s where "s = nat (instant t mod micros_per_day div micros_per_second)"
  have mp: "micros_per_day = 86400 * micros_per_second" "0 < micros_per_second" "0 < micros_per_day"
    by (simp_all add: micros_per_day_def micros_per_second_def)
  have low: "int (days_before_year 1000) + 1 \<le> day"
    unfolding day_def using zdiv_mono1 [OF assms(2) mp(3)] mp(3) by simp
  obtain y m d where o: "ord2ymd (nat day) = (y, m, d)" by (metis prod_cases3)
  have top: "day \<le> int max_ordinal" and tx: "text = dec_nat y @ ''-'' @ zero_pad 2 m @ ''-'' @ zero_pad 2 d @ ''T''
      @ zero_pad 2 (s div 3600) @ '':'' @ zero_pad 2 (s div 60 mod 60) @ '':'' @ zero_pad 2 (s mod 60) @ ''Z''"
    using assms(1) o by (auto simp: rfc3339_def Let_def day_def s_def split: if_splits)
  have n: "ymd2ord y m d = Some (nat day)" by (rule ord2ymd_exact [OF _ _ o]) (use low top in simp_all)
  have y: "1000 \<le> y" by (rule late_year [OF _ o]) (use low in simp)
  have r: "0 \<le> instant t mod micros_per_day" "instant t mod micros_per_day < 86400 * micros_per_second"
    using mp(3) pos_mod_bound [OF mp(3), of "instant t"] unfolding mp(1) by simp_all
  have sb: "int s = instant t mod micros_per_day div micros_per_second"
    unfolding s_def using r(1) pos_imp_zdiv_nonneg_iff [OF mp(2)] by simp
  have "s < 86400" using int_div_less [OF r(2) mp(2)] sb by linarith
  from stamp_reads_back [OF n y this] tx low
  have p: "parse_timestamp text = Inr \<lparr>dt_local = day * micros_per_day + int s * micros_per_second, dt_offset = Some 0\<rparr>" by simp
  have "day * micros_per_day + int s * micros_per_second = instant t div micros_per_second * micros_per_second"
    using second_start [OF mp(2), of 86400 "instant t"] unfolding sb day_def mp(1) by simp
  with p show ?thesis by (simp add: instant_def)
qed

theorem printed_time_reads_back_witness:
  "\<exists>text t'. rfc3339 (demo_now 739266) = Inr text \<and> parse_timestamp text = Inr t' \<and> instant t' = 739266 * 86400 * 1000000"
proof -
  have i: "instant (demo_now 739266) = 739266 * 86400 * 1000000" and l: "days_before_year 1000 = 364877"
    by (simp_all add: demo_now_def instant_def micros_per_day_def micros_per_second_def days_before_year_def)
  obtain u where t: "rfc3339 (demo_now 739266) = Inr u"
    by (cases "ord2ymd 739266") (simp add: rfc3339_def i micros_per_day_def micros_per_second_def max_ordinal_def)
  from printed_time_reads_back [OF t] obtain t' where "parse_timestamp u = Inr t'"
      "instant t' = instant (demo_now 739266) div micros_per_second * micros_per_second"
    by (auto simp: i l micros_per_day_def micros_per_second_def)
  with t show ?thesis by (simp add: i micros_per_second_def)
qed

end
