(* ===== verification/Cli.thy ===== *)
theory Cli
  imports Render Rfc3339 DeployVerify Waiver Traceability Mcp Vcs Commands
begin

text \<open>
  The command line (\<open>cli.py\<close>): the six commands on parsed arguments, with their exit codes, what
  they print and what they change. A command is a function from a state (the world and the texts
  written to the two standard streams) to an exit code or an exception and a new state, so what was
  printed or written before an exception is kept.

  The arguments of a command are those that \<open>argparse\<close> delivers for the parser of \<open>build_parser\<close>
  (\<open>CliMain\<close>).
  What the commands take from the process (the current directory, the clock, the environment
  variables, the random source, the network, subprocesses and the lines of standard input) is
  the record \<open>cli_env\<close>. Standard output is taken to encode strictly as UTF-8.
\<close>

section \<open>State and output\<close>

record cli_state =
  cs_world :: world
  cs_out :: "string list"
  cs_err :: "string list"

type_synonym 'a cli = "cli_state \<Rightarrow> 'a result \<times> cli_state"

definition returnC :: "'a \<Rightarrow> 'a cli" where
  "returnC x = (\<lambda>c. (Inr x, c))"

definition bindC :: "'a cli \<Rightarrow> ('a \<Rightarrow> 'b cli) \<Rightarrow> 'b cli" where
  "bindC m f = (\<lambda>c. case m c of (Inl e, c') \<Rightarrow> (Inl e, c') | (Inr x, c') \<Rightarrow> f x c')"

definition liftC :: "'a result \<Rightarrow> 'a cli" where
  "liftC r = (\<lambda>c. (r, c))"

definition readC :: "(fs \<Rightarrow> 'a result) \<Rightarrow> 'a cli" where
  "readC f = (\<lambda>c. (f (w_fs (cs_world c)), c))"

text \<open>Text to standard output; \<open>print\<close> adds a line end.\<close>

definition write_out :: "string \<Rightarrow> unit cli" where
  "write_out s = (\<lambda>c. if has_surrogate s then (Inl UnicodeEncodeError, c) else (Inr (), c\<lparr>cs_out := cs_out c @ [s]\<rparr>))"

definition print_out :: "string \<Rightarrow> unit cli" where
  "print_out s = write_out (s @ [newline])"

text \<open>Standard error never rejects a text.\<close>

definition print_err :: "string \<Rightarrow> unit cli" where
  "print_err s = (\<lambda>c. (Inr (), c\<lparr>cs_err := cs_err c @ [s @ [newline]]\<rparr>))"

fun print_errs :: "string list \<Rightarrow> unit cli" where
  "print_errs [] = returnC ()"
| "print_errs (s # ss) = bindC (print_err s) (\<lambda>_. print_errs ss)"

definition updateC :: "(fs \<Rightarrow> fs result) \<Rightarrow> unit cli" where
  "updateC f = (\<lambda>c. case f (w_fs (cs_world c)) of
     Inl e \<Rightarrow> (Inl e, c)
   | Inr fs' \<Rightarrow> (Inr (), c\<lparr>cs_world := (cs_world c)\<lparr>w_fs := fs'\<rparr>\<rparr>))"

text \<open>\<open>path.write_text(text, encoding="utf-8")\<close>: the file is emptied before the text is encoded.\<close>

definition write_text :: "path \<Rightarrow> string \<Rightarrow> unit cli" where
  "write_text p text =
     bindC (updateC (\<lambda>fs. write_bytes fs p [])) (\<lambda>_.
     bindC (liftC (encode_utf8 text)) (\<lambda>data. updateC (\<lambda>fs. write_bytes fs p data)))"

section \<open>Paths\<close>

text \<open>\<open>str(Path(s))\<close> and \<open>Path(s).name\<close>.\<close>

definition path_text :: "string \<Rightarrow> string" where
  "path_text s =
     (let root = (if starts_with ''//'' s \<and> \<not> starts_with ''///'' s then ''//'' else if is_absolute s then ''/'' else []);
          t = root @ join ''/'' (path_parts s)
      in if t = [] then ''.'' else t)"

definition path_name :: "string \<Rightarrow> string" where
  "path_name s = (if path_parts s = [] then [] else last (path_parts s))"

section \<open>The process\<close>

record cli_env =
  ce_cwd :: path
  ce_schema :: schema_env
  ce_now :: datetime
  ce_urlopen :: "http_request \<Rightarrow> http_outcome"
  ce_rglob :: "fs \<Rightarrow> path \<Rightarrow> path list"
  ce_set_order :: "path list \<Rightarrow> path list"
  ce_environ :: "string \<Rightarrow> string option"
  ce_urandom :: string
  ce_uuid :: string
  ce_time :: int
  ce_run :: run_callable
  ce_proc :: "ext_call list \<Rightarrow> string list \<Rightarrow> path \<Rightarrow> fs \<Rightarrow> proc_outcome \<times> fs"
  ce_github :: "http_request \<Rightarrow> gh_outcome"
  ce_iter_errors :: iter_errors
  ce_zlib_size :: "string \<Rightarrow> nat"
  ce_stdin :: "(tick \<times> string) list"

definition cli_repo_root :: "cli_env \<Rightarrow> path cli" where
  "cli_repo_root env = readC (\<lambda>fs. find_repo_root fs (se_module_file (ce_schema env)))"

definition cli_path :: "cli_env \<Rightarrow> string \<Rightarrow> path" where
  "cli_path env raw = path_join (ce_cwd env) raw"

section \<open>Times\<close>

definition cli_now :: "cli_env \<Rightarrow> string option \<Rightarrow> datetime result" where
  "cli_now env given = (case given of None \<Rightarrow> Inr (ce_now env) | Some s \<Rightarrow> if s = [] then Inr (ce_now env) else parse_timestamp s)"

section \<open>Validate, render, waiver\<close>

fun validate_paths :: "cli_env \<Rightarrow> path \<Rightarrow> string list \<Rightarrow> nat \<Rightarrow> nat cli" where
  "validate_paths env root [] failures = returnC failures"
| "validate_paths env root (raw # raws) failures = (\<lambda>c.
     (let p = cli_path env raw; shown = path_text raw
      in if \<not> is_file (w_fs (cs_world c)) p
         then bindC (print_err (''SKIP '' @ shown @ '': not a file'')) (\<lambda>_. validate_paths env root raws (failures + 1)) c
         else
           bindC (readC (\<lambda>fs. validate_file (ce_schema env) fs shown p (Some root))) (\<lambda>errors.
             if errors \<noteq> []
             then bindC (print_err (''INVALID '' @ shown)) (\<lambda>_.
                  bindC (print_errs (map (\<lambda>e. ''  - '' @ e) errors)) (\<lambda>_.
                    validate_paths env root raws (failures + 1)))
             else bindC (print_out (''OK      '' @ shown)) (\<lambda>_. validate_paths env root raws failures)) c))"

definition cmd_validate :: "cli_env \<Rightarrow> string list \<Rightarrow> int cli" where
  "cmd_validate env paths =
     bindC (cli_repo_root env) (\<lambda>root.
     bindC (validate_paths env root paths 0) (\<lambda>failures.
       returnC (if failures \<noteq> 0 then 1 else 0)))"

definition cmd_render :: "cli_env \<Rightarrow> string \<Rightarrow> string option \<Rightarrow> int cli" where
  "cmd_render env raw output =
     bindC (readC (\<lambda>fs. read_json fs (cli_path env raw))) (\<lambda>inst.
     bindC (liftC (render_artifact inst (path_name raw))) (\<lambda>markdown.
     bindC (case output of
              Some target \<Rightarrow>
                (if target \<noteq> []
                 then bindC (write_text (cli_path env target) markdown) (\<lambda>_. print_out (''wrote '' @ target))
                 else write_out markdown)
            | None \<Rightarrow> write_out markdown) (\<lambda>_.
       returnC 0)))"

text \<open>\<open>validate_artifact\<close> on a value of unknown type: it asks for \<open>artifact_type\<close> by \<open>get\<close>.\<close>

fun validate_value :: "schema_env \<Rightarrow> fs \<Rightarrow> pyval \<Rightarrow> path option \<Rightarrow> string list result" where
  "validate_value env fs (PDict d) root = validate_artifact env fs d root"
| "validate_value env fs _ root = Inl AttributeError"

definition report_block :: "string \<Rightarrow> string list \<Rightarrow> int cli" where
  "report_block heading reasons =
     bindC (print_err heading) (\<lambda>_. bindC (print_errs (map (\<lambda>r. ''  - '' @ r) reasons)) (\<lambda>_. returnC 1))"

definition cmd_waiver :: "cli_env \<Rightarrow> string \<Rightarrow> string option \<Rightarrow> int cli" where
  "cmd_waiver env raw given_now = (\<lambda>c.
     (let p = cli_path env raw; shown = path_text raw
      in if \<not> is_file (w_fs (cs_world c)) p then report_block (''SKIP '' @ shown @ '': not a file'') [] c
         else
           bindC (readC (\<lambda>fs. read_json fs p)) (\<lambda>inst.
           bindC (cli_repo_root env) (\<lambda>root.
           bindC (readC (\<lambda>fs. validate_value (ce_schema env) fs inst (Some root))) (\<lambda>schema_errors.
             if schema_errors \<noteq> [] then report_block (''INVALID '' @ shown) schema_errors
             else
               bindC (liftC (cli_now env given_now)) (\<lambda>now.
               bindC (liftC (bindR (val_dict inst) (\<lambda>d. check_waiver d now))) (\<lambda>check.
                 if wc_valid check then bindC (print_out (''OK      '' @ shown @ '' (active)'')) (\<lambda>_. returnC 0)
                 else report_block (''BLOCKED '' @ shown @ '' state='' @ wc_state check) (wc_reason_codes check)))))) c))"

section \<open>Release verification\<close>

text \<open>\<open>json.dumps(value, indent=2, ensure_ascii=False)\<close>, at a depth of nesting.\<close>

definition indent :: "nat \<Rightarrow> string" where
  "indent n = newline # replicate (2 * n) CHR '' ''"

fun pretty :: "nat \<Rightarrow> pyval \<Rightarrow> string"
  and pretty_items :: "nat \<Rightarrow> pyval list \<Rightarrow> string list"
  and pretty_pairs :: "nat \<Rightarrow> (string \<times> pyval) list \<Rightarrow> string list" where
  "pretty n (PList xs) =
     (if xs = [] then ''[]''
      else ''['' @ indent (n + 1) @ join ('','' @ indent (n + 1)) (pretty_items (n + 1) xs) @ indent n @ '']'')"
| "pretty n (PDict d) =
     (if d = [] then ''{}''
      else ''{'' @ indent (n + 1) @ join ('','' @ indent (n + 1)) (pretty_pairs (n + 1) d) @ indent n @ ''}'')"
| "pretty n v = json_dumps opts_unicode v"
| "pretty_items n [] = []"
| "pretty_items n (x # xs) = pretty n x # pretty_items n xs"
| "pretty_pairs n [] = []"
| "pretty_pairs n ((k, v) # d) = (esc_str opts_unicode k @ '': '' @ pretty n v) # pretty_pairs n d"

definition dumps_pretty :: "pyval \<Rightarrow> string result" where
  "dumps_pretty v = (if ints_ok v then Inr (pretty 0 v) else Inl (ValueError []))"

record deploy_args =
  da_path :: string
  da_opa_url :: string
  da_bundle_version :: string
  da_run_id :: string
  da_now :: "string option"
  da_output_dir :: "string option"
  da_bundle_id :: string
  da_decision_id :: string
  da_actor_id :: string
  da_actor_role :: string

text \<open>The namespace of a command line that gives the path only.\<close>

definition deploy_defaults :: "string \<Rightarrow> deploy_args" where
  "deploy_defaults p =
     \<lparr>da_path = p, da_opa_url = ''http://localhost:8181'', da_bundle_version = ''unknown'', da_run_id = ''RUN-deploy-verify'',
      da_now = None, da_output_dir = None, da_bundle_id = ''EB-0001'', da_decision_id = ''PD-0001'',
      da_actor_id = ''deploy-verify'', da_actor_role = ''release-approver''\<rparr>"

definition write_release :: "path \<Rightarrow> release_verification \<Rightarrow> unit cli" where
  "write_release output v =
     bindC (updateC (\<lambda>fs. mkdirs fs output)) (\<lambda>_.
     bindC (liftC (dumps_pretty (PDict (rv_bundle v)))) (\<lambda>bundle.
     bindC (write_text (output @ [''evidence-bundle.json'']) (bundle @ [newline])) (\<lambda>_.
     bindC (liftC (dumps_pretty (PDict (rv_decision v)))) (\<lambda>decision.
       write_text (output @ [''policy-decision.json'']) (decision @ [newline])))))"

text \<open>\<open>load_candidate\<close>, with its one handled exception as a value.\<close>

definition candidate_of :: "cli_env \<Rightarrow> string \<Rightarrow> path \<Rightarrow> fs \<Rightarrow> (string + pydict) result" where
  "candidate_of env raw root fs =
     (case load_candidate (ce_schema env) fs (path_text raw) (cli_path env raw) (Some root) of
        Inl (CandidateError message) \<Rightarrow> Inr (Inl message)
      | Inl e \<Rightarrow> Inl e
      | Inr d \<Rightarrow> Inr (Inr d))"

definition ask_release :: "cli_env \<Rightarrow> deploy_args \<Rightarrow> path \<Rightarrow> pydict \<Rightarrow> release_verification cli" where
  "ask_release env a root candidate =
     bindC (liftC (cli_now env (da_now a))) (\<lambda>now.
     bindC (liftC (rfc3339 now)) (\<lambda>created_at.
       readC (\<lambda>fs. verify_release (ce_schema env) fs
         (evaluate (ce_urlopen env) (new_policy_client (da_opa_url a) (da_bundle_version a)))
         (PDict candidate) (da_bundle_id a) (da_decision_id a) created_at
         [(''type'', PStr ''ci''), (''id'', PStr (da_actor_id a)), (''role'', PStr (da_actor_role a))]
         (da_run_id a) (Some root))))"

text \<open>What a release command does once the candidate is verified.\<close>

definition conclude :: "cli_env \<Rightarrow> deploy_args \<Rightarrow> release_verification \<Rightarrow> int cli" where
  "conclude env a v =
     bindC (case da_output_dir a of
              Some dir \<Rightarrow> (if dir \<noteq> [] then write_release (cli_path env dir) v else returnC ())
            | None \<Rightarrow> returnC ()) (\<lambda>_.
       if rv_allow v then bindC (print_out (''ALLOW   '' @ path_text (da_path a))) (\<lambda>_. returnC 0)
       else report_block (''DENY    '' @ path_text (da_path a)) (rv_reason_codes v))"

definition cmd_deploy_verify :: "cli_env \<Rightarrow> deploy_args \<Rightarrow> int cli" where
  "cmd_deploy_verify env a = (\<lambda>c.
     (let raw = da_path a; shown = path_text raw
      in if \<not> is_file (w_fs (cs_world c)) (cli_path env raw) then report_block (''SKIP '' @ shown @ '': not a file'') [] c
         else
           bindC (cli_repo_root env) (\<lambda>root.
           bindC (readC (candidate_of env raw root)) (\<lambda>loaded.
             case loaded of
               Inl message \<Rightarrow> report_block (''INVALID '' @ shown) [message]
             | Inr candidate \<Rightarrow>
                 bindC (ask_release env a root candidate) (conclude env a))) c))"

section \<open>Traceability\<close>

definition node_dict :: "trace_node \<Rightarrow> pydict" where
  "node_dict n =
     [(''artifact_id'', PStr (tn_artifact_id n)), (''artifact_type'', PStr (tn_artifact_type n)),
      (''path'', PStr (tn_path n)), (''feature_id'', tn_feature_id n)]"

text \<open>\<open>asdict(report)\<close>.\<close>

definition report_dict :: "traceability \<Rightarrow> pydict" where
  "report_dict r =
     [(''feature_id'', PStr (tr_feature_id r)), (''nodes'', PList (map (PDict \<circ> node_dict) (tr_nodes r))),
      (''ordered_types'', PList (map PStr (tr_ordered_types r))), (''missing_types'', PList (map PStr (tr_missing_types r))),
      (''dangling'', PList (map PStr (tr_dangling r)))]"

definition cmd_trace :: "cli_env \<Rightarrow> string \<Rightarrow> string option \<Rightarrow> bool \<Rightarrow> int cli" where
  "cmd_trace env feature repo_root as_json =
     bindC (case repo_root of
              Some raw \<Rightarrow> (if raw \<noteq> [] then readC (\<lambda>fs. resolve fs (cli_path env raw)) else cli_repo_root env)
            | None \<Rightarrow> cli_repo_root env) (\<lambda>root.
     bindC (readC (\<lambda>fs. bindR (discover (ce_rglob env fs) fs root ''specs'') (trace_feature (ce_set_order env) root feature)))
       (\<lambda>report.
     bindC (if as_json
            then bindC (liftC (dumps_pretty (PDict (report_dict report)))) print_out
            else print_out (format_report report)) (\<lambda>_.
       returnC (if tr_complete report then 0 else 1))))"

section \<open>The bridge\<close>

text \<open>\<open>bytes.fromhex\<close>: pairs of digits, with ASCII whitespace between the pairs.\<close>

definition hex_space :: "char \<Rightarrow> bool" where
  "hex_space c \<longleftrightarrow> c = CHR '' '' \<or> 9 \<le> byte c \<and> byte c \<le> 13"

definition nibble :: "char \<Rightarrow> nat option" where
  "nibble c =
     (if is_digit c then Some (byte c - 48)
      else if 97 \<le> byte c \<and> byte c \<le> 102 then Some (byte c - 87)
      else if 65 \<le> byte c \<and> byte c \<le> 70 then Some (byte c - 55) else None)"

fun fromhex :: "string \<Rightarrow> string option" where
  "fromhex [] = Some []"
| "fromhex (a # s) =
     (if hex_space a then fromhex s
      else
        (case s of
           [] \<Rightarrow> None
         | b # rest \<Rightarrow>
             (case (nibble a, nibble b) of
                (Some x, Some y) \<Rightarrow> map_option ((#) (char_of (16 * x + y))) (fromhex rest)
              | _ \<Rightarrow> None)))"

record mcp_args =
  ma_opa_url :: string
  ma_artifacts_dir :: string
  ma_evidence_dir :: string
  ma_root :: string

definition mcp_defaults :: mcp_args where
  "mcp_defaults =
     \<lparr>ma_opa_url = ''http://localhost:8181'', ma_artifacts_dir = ''specs/artifacts'', ma_evidence_dir = ''specs/evidence'',
      ma_root = ''.''\<rparr>"

definition DEFAULT_ACTOR_JSON :: string where
  "DEFAULT_ACTOR_JSON = ''{\"type\": \"agent\", \"id\": \"opencode\", \"role\": \"implementer\"}''"

text \<open>The secret of the registry: from the environment if it is set there, else random.\<close>

definition mcp_secret :: "cli_env \<Rightarrow> string option" where
  "mcp_secret env =
     (case ce_environ env ''SDLC_MCP_SECRET'' of
        Some h \<Rightarrow> (if h \<noteq> [] then fromhex h else Some (ce_urandom env))
      | None \<Rightarrow> Some (ce_urandom env))"

definition mcp_actor :: "cli_env \<Rightarrow> pyval option result" where
  "mcp_actor env =
     (case json_loads (case ce_environ env ''SDLC_ACTOR_JSON'' of None \<Rightarrow> DEFAULT_ACTOR_JSON | Some s \<Rightarrow> s) of
        Inl e \<Rightarrow> (if e = JSONDecodeError then Inr None else Inl e)
      | Inr v \<Rightarrow> Inr (Some v))"

text \<open>
  \<open>dict(actor)\<close>: a mapping is copied, anything else must iterate over pairs. A first component that
  is not a string is refused here; the interpreter would accept a number or \<open>None\<close> as a key.
\<close>

fun dict_pair :: "pyval list \<Rightarrow> (string \<times> pyval) result" where
  "dict_pair [PStr k, v] = Inr (k, v)"
| "dict_pair [_, v] = Inl TypeError"
| "dict_pair _ = Inl (ValueError [])"

fun dict_of :: "pyval \<Rightarrow> pydict result" where
  "dict_of (PDict d) = Inr d"
| "dict_of v =
     bindR (val_iter v) (\<lambda>items. bindR (mapR (\<lambda>item. bindR (val_iter item) dict_pair) items) (\<lambda>pairs.
       Inr (dupdate [] pairs)))"

text \<open>The tools of the bridge; pull requests only with a token.\<close>

definition mcp_tools :: "cli_env \<Rightarrow> mcp_args \<Rightarrow> fs \<Rightarrow> tool_registry result" where
  "mcp_tools env a fs =
     bindR (register_artifact_tools (ce_schema env) (cli_path env (ma_artifacts_dir a)) []) (\<lambda>t1.
     bindR (register_file_tools fs (cli_path env (ma_root a)) t1) (\<lambda>t2.
     bindR (register_test_tools fs (cli_path env (ma_root a)) DEFAULT_ALLOWED_PROGRAMS (ce_run env) t2) (\<lambda>t3.
       case ce_environ env ''SDLC_GITHUB_TOKEN'' of
         Some token \<Rightarrow>
           (if token \<noteq> []
            then register_vcs_tools fs (cli_path env (ma_root a)) (run_git (ce_proc env))
                   (\<lambda>_. open_github_pull_request (ce_environ env) (ce_github env)) t3
            else Inr t3)
       | None \<Rightarrow> Inr t3)))"

definition mcp_executor :: "cli_env \<Rightarrow> mcp_args \<Rightarrow> run_registry \<Rightarrow> tool_registry \<Rightarrow> executor" where
  "mcp_executor env a capabilities tools =
     \<lparr>ex_policy = evaluate (ce_urlopen env) (new_policy_client (ma_opa_url a) ''unknown''), ex_capabilities = capabilities,
      ex_tools = tools, ex_store = cli_path env (ma_evidence_dir a), ex_iter_errors = ce_iter_errors env,
      ex_zlib_size = ce_zlib_size env\<rparr>"

definition serve_all :: "cli_env \<Rightarrow> run_registry \<Rightarrow> tool_registry \<Rightarrow> string \<Rightarrow> mcp_server \<Rightarrow> unit cli" where
  "serve_all env capabilities tools run_id srv = (\<lambda>c.
     case serve_stdio capabilities tools run_id (ce_stdin env) srv (cs_world c) of
       (responses, srv', w') \<Rightarrow> (Inr (), c\<lparr>cs_world := w', cs_out := cs_out c @ responses\<rparr>))"

definition cmd_mcp :: "cli_env \<Rightarrow> mcp_args \<Rightarrow> int cli" where
  "cmd_mcp env a =
     (case mcp_secret env of
        None \<Rightarrow> report_block ''SDLC_MCP_SECRET must be hex-encoded'' []
      | Some secret \<Rightarrow>
          bindC (liftC (mcp_actor env)) (\<lambda>parsed.
            case parsed of
              None \<Rightarrow> report_block ''SDLC_ACTOR_JSON must be valid JSON'' []
            | Some actor \<Rightarrow>
                bindC (liftC (dict_of actor)) (\<lambda>d.
                let (run, capabilities) = reg_start d (ce_environ env ''SDLC_RUN_ID'') (ce_uuid env) (ce_time env) (new_registry secret)
                in bindC (readC (mcp_tools env a)) (\<lambda>tools.
                   let srv = new_mcp_server (mcp_executor env a capabilities tools) tools
                   in bindC (serve_all env capabilities tools (r_run_id run) srv) (\<lambda>_. returnC 0)))))"

section \<open>Dispatch\<close>

datatype command =
    Validate "string list"
  | RenderFile string "string option"
  | CheckWaiver string "string option"
  | DeployVerify deploy_args
  | TraceFeature string "string option" bool
  | ServeMcp mcp_args

fun main :: "cli_env \<Rightarrow> command \<Rightarrow> int cli" where
  "main env (Validate paths) = cmd_validate env paths"
| "main env (RenderFile p output) = cmd_render env p output"
| "main env (CheckWaiver p now) = cmd_waiver env p now"
| "main env (DeployVerify a) = cmd_deploy_verify env a"
| "main env (TraceFeature feature repo_root as_json) = cmd_trace env feature repo_root as_json"
| "main env (ServeMcp a) = cmd_mcp env a"

section \<open>Running commands\<close>

lemmas cli_defs = returnC_def liftC_def readC_def

lemma bindC_Inr: "bindC m f c = (Inr y, c') \<longleftrightarrow> (\<exists>x c1. m c = (Inr x, c1) \<and> f x c1 = (Inr y, c'))"
  by (auto simp: bindC_def split: prod.splits sum.splits)

lemma cli_simps [simp]:
  "returnC x c = (Inr y, c') \<longleftrightarrow> y = x \<and> c' = c"
  "liftC r c = (r1, c') \<longleftrightarrow> r = r1 \<and> c' = c"
  "readC f c = (r2, c') \<longleftrightarrow> f (w_fs (cs_world c)) = r2 \<and> c' = c"
  "print_err s c = (r3, c') \<longleftrightarrow> r3 = Inr () \<and> c' = c\<lparr>cs_err := cs_err c @ [s @ [newline]]\<rparr>"
  by (auto simp: cli_defs print_err_def)

lemma print_out_Inr [simp]:
  "print_out s c = (Inr u, c') \<longleftrightarrow> \<not> has_surrogate (s @ [newline]) \<and> c' = c\<lparr>cs_out := cs_out c @ [s @ [newline]]\<rparr>"
  by (auto simp: print_out_def write_out_def)

lemma print_errs_eq: "print_errs ss c = (Inr (), c\<lparr>cs_err := cs_err c @ map (\<lambda>s. s @ [newline]) ss\<rparr>)"
  by (induction ss arbitrary: c) (simp_all add: returnC_def bindC_def print_err_def)

lemma report_block_eq:
  "report_block h rs c = (Inr 1, c\<lparr>cs_err := cs_err c @ [h @ [newline]] @ map (\<lambda>r. ''  - '' @ r @ [newline]) rs\<rparr>)"
  by (simp add: report_block_def bindC_def print_err_def print_errs_eq returnC_def comp_def)

section \<open>Validation\<close>

text \<open>When a path counts as valid.\<close>

definition path_valid :: "cli_env \<Rightarrow> path \<Rightarrow> fs \<Rightarrow> string \<Rightarrow> bool" where
  "path_valid env root fs raw \<longleftrightarrow> is_file fs (cli_path env raw)
     \<and> validate_file (ce_schema env) fs (path_text raw) (cli_path env raw) (Some root) = Inr []"

definition ok_line :: "string \<Rightarrow> string" where
  "ok_line raw = ''OK      '' @ path_text raw @ [newline]"

lemma validate_paths_Inr:
  "validate_paths env root raws n c = (Inr m, c') \<Longrightarrow>
   cs_world c' = cs_world c
   \<and> m = n + length (filter (\<lambda>raw. \<not> path_valid env root (w_fs (cs_world c)) raw) raws)
   \<and> cs_out c' = cs_out c @ map ok_line (filter (path_valid env root (w_fs (cs_world c))) raws)"
proof (induction raws arbitrary: n c)
  case (Cons raw raws)
  show ?case
  proof (cases "path_valid env root (w_fs (cs_world c)) raw")
    case True
    with Cons.prems have "validate_paths env root raws n (c\<lparr>cs_out := cs_out c @ [ok_line raw]\<rparr>) = (Inr m, c')"
      by (auto simp: path_valid_def Let_def bindC_Inr ok_line_def)
    from Cons.IH [OF this] show ?thesis using True by simp
  next
    case False
    with Cons.prems obtain c1 where "validate_paths env root raws (n + 1) c1 = (Inr m, c')"
      "cs_world c1 = cs_world c" "cs_out c1 = cs_out c"
      by (auto simp: path_valid_def Let_def bindC_Inr print_errs_eq split: if_splits)
    with Cons.IH [OF this(1)] show ?thesis using False by simp
  qed
qed simp

text \<open>
  \<open>sdlc validate\<close> reports exactly the valid files. When the command returns it has changed
  nothing; its exit code is 0 if every path named is a file whose document meets its schema,
  1 otherwise; and its output is one line per valid path, in the order of the arguments.
\<close>

theorem validate_exit_code:
  assumes "cmd_validate env paths c = (Inr code, c')"
  shows "\<exists>root. find_repo_root (w_fs (cs_world c)) (se_module_file (ce_schema env)) = Inr root
     \<and> code = (if list_all (path_valid env root (w_fs (cs_world c))) paths then 0 else 1)
     \<and> cs_world c' = cs_world c
     \<and> cs_out c' = cs_out c @ map ok_line (filter (path_valid env root (w_fs (cs_world c))) paths)"
proof -
  from assms obtain root m where r: "find_repo_root (w_fs (cs_world c)) (se_module_file (ce_schema env)) = Inr root"
      "validate_paths env root paths 0 c = (Inr m, c')" "code = (if m \<noteq> 0 then 1 else 0)"
    by (auto simp: cmd_validate_def cli_repo_root_def bindC_Inr)
  from validate_paths_Inr [OF r(2)] have "m = 0 \<longleftrightarrow> list_all (path_valid env root (w_fs (cs_world c))) paths"
    by (simp add: filter_empty_conv list_all_iff)
  with r validate_paths_Inr [OF r(2)] show ?thesis by auto
qed

text \<open>A document that cannot be judged at all, by malformed JSON or for want of a type, ends the
  command with an exception: the paths after it are not looked at.\<close>

lemma validate_stops_at_exception:
  assumes "is_file (w_fs (cs_world c)) (cli_path env raw)"
    and "validate_file (ce_schema env) (w_fs (cs_world c)) (path_text raw) (cli_path env raw) (Some root) = Inl e"
  shows "validate_paths env root (raw # raws) n c = (Inl e, c)"
  using assms by (simp add: Let_def bindC_def readC_def)

section \<open>Waivers\<close>

text \<open>
  C24: \<open>sdlc waiver\<close> accepts exactly the waivers in force. When the command returns, its exit code is 0
  just if the path names a file with a document that meets its schema and is, at the given
  time, in force by the rule for waivers; nothing is changed.
\<close>

theorem waiver_exit_code:
  assumes "cmd_waiver env raw given c = (Inr code, c')"
  shows "cs_world c' = cs_world c \<and> code \<in> {0, 1}
    \<and> (code = 0 \<longleftrightarrow> (\<exists>d root now. is_file (w_fs (cs_world c)) (cli_path env raw)
        \<and> read_json (w_fs (cs_world c)) (cli_path env raw) = Inr (PDict d)
        \<and> find_repo_root (w_fs (cs_world c)) (se_module_file (ce_schema env)) = Inr root
        \<and> validate_artifact (ce_schema env) (w_fs (cs_world c)) d (Some root) = Inr []
        \<and> cli_now env given = Inr now \<and> in_force d now))"
proof (cases "is_file (w_fs (cs_world c)) (cli_path env raw)")
  case False
  with assms show ?thesis by (auto simp: cmd_waiver_def Let_def report_block_eq)
next
  case f: True
  with assms obtain inst root errors where j: "read_json (w_fs (cs_world c)) (cli_path env raw) = Inr inst"
      "find_repo_root (w_fs (cs_world c)) (se_module_file (ce_schema env)) = Inr root"
      "validate_value (ce_schema env) (w_fs (cs_world c)) inst (Some root) = Inr errors"
    and rest: "(if errors \<noteq> [] then report_block (''INVALID '' @ path_text raw) errors
       else bindC (liftC (cli_now env given)) (\<lambda>now.
            bindC (liftC (bindR (val_dict inst) (\<lambda>d. check_waiver d now))) (\<lambda>check.
              if wc_valid check then bindC (print_out (''OK      '' @ path_text raw @ '' (active)'')) (\<lambda>_. returnC 0)
              else report_block (''BLOCKED '' @ path_text raw @ '' state='' @ wc_state check) (wc_reason_codes check)))) c = (Inr code, c')"
    by (auto simp: cmd_waiver_def cli_repo_root_def Let_def bindC_Inr simp del: append.simps)
  from j(3) obtain d where d: "inst = PDict d" "validate_artifact (ce_schema env) (w_fs (cs_world c)) d (Some root) = Inr errors"
    by (cases inst) simp_all
  show ?thesis
  proof (cases "errors = []")
    case False
    with rest f j d show ?thesis by (auto simp: report_block_eq)
  next
    case True
    with rest d obtain now check where n: "cli_now env given = Inr now" "check_waiver d now = Inr check"
        and out: "(if wc_valid check then bindC (print_out (''OK      '' @ path_text raw @ '' (active)'')) (\<lambda>_. returnC 0)
           else report_block (''BLOCKED '' @ path_text raw @ '' state='' @ wc_state check) (wc_reason_codes check)) c = (Inr code, c')"
      by (auto simp: bindC_Inr simp del: append.simps)
    from out have "cs_world c' = cs_world c \<and> code = (if wc_valid check then 0 else 1)"
      by (auto simp: bindC_Inr report_block_eq split: if_splits)
    with check_waiver_valid_iff [OF n(2)] f j(1,2) d True n(1) show ?thesis by auto
  qed
qed

section \<open>Traceability\<close>

lemma dumps_pretty_Inr: "dumps_pretty v = Inr t \<longleftrightarrow> ints_ok v \<and> t = pretty 0 v"
  by (auto simp: dumps_pretty_def)

text \<open>
  \<open>sdlc trace\<close> reports the traceability of the feature. When the command returns, the
  documents under \<open>specs\<close> of the repository were read and traced; the exit code is 0 just if the
  chain is complete; the output is one text, the report in the chosen format; nothing is changed.
\<close>

theorem trace_exit_code:
  assumes "cmd_trace env feature repo_root as_json c = (Inr code, c')"
  shows "\<exists>root index report.
      (case repo_root of
         Some raw \<Rightarrow> if raw \<noteq> [] then resolve (w_fs (cs_world c)) (cli_path env raw) = Inr root
                   else find_repo_root (w_fs (cs_world c)) (se_module_file (ce_schema env)) = Inr root
       | None \<Rightarrow> find_repo_root (w_fs (cs_world c)) (se_module_file (ce_schema env)) = Inr root)
    \<and> discover (ce_rglob env (w_fs (cs_world c))) (w_fs (cs_world c)) root ''specs'' = Inr index
    \<and> trace_feature (ce_set_order env) root feature index = Inr report
    \<and> code = (if tr_complete report then 0 else 1)
    \<and> cs_world c' = cs_world c \<and> cs_err c' = cs_err c
    \<and> cs_out c' = cs_out c @ [(if as_json then pretty 0 (PDict (report_dict report)) else format_report report) @ [newline]]"
proof -
  from assms obtain root c1 report where root: "(case repo_root of
              Some raw \<Rightarrow> (if raw \<noteq> [] then readC (\<lambda>fs. resolve fs (cli_path env raw)) else cli_repo_root env)
            | None \<Rightarrow> cli_repo_root env) c = (Inr root, c1)"
      and rep: "bindR (discover (ce_rglob env (w_fs (cs_world c1))) (w_fs (cs_world c1)) root ''specs'')
          (trace_feature (ce_set_order env) root feature) = Inr report"
      and out: "bindC (if as_json then bindC (liftC (dumps_pretty (PDict (report_dict report)))) print_out
            else print_out (format_report report)) (\<lambda>_. returnC (if tr_complete report then 0 else 1)) c1 = (Inr code, c')"
    unfolding cmd_trace_def bindC_Inr by auto
  from root have r: "c1 = c" "(case repo_root of
         Some raw \<Rightarrow> if raw \<noteq> [] then resolve (w_fs (cs_world c)) (cli_path env raw) = Inr root
                   else find_repo_root (w_fs (cs_world c)) (se_module_file (ce_schema env)) = Inr root
       | None \<Rightarrow> find_repo_root (w_fs (cs_world c)) (se_module_file (ce_schema env)) = Inr root)"
    by (auto simp: cli_repo_root_def split: option.splits if_splits)
  from rep obtain index where "discover (ce_rglob env (w_fs (cs_world c1))) (w_fs (cs_world c1)) root ''specs'' = Inr index"
      "trace_feature (ce_set_order env) root feature index = Inr report" unfolding bindR_eq_Inr by blast
  moreover from out have "code = (if tr_complete report then 0 else 1)"
    "c' = c1\<lparr>cs_out := cs_out c1 @ [(if as_json then pretty 0 (PDict (report_dict report)) else format_report report) @ [newline]]\<rparr>"
    unfolding bindC_Inr by (auto simp: bindC_Inr dumps_pretty_Inr split: if_splits)
  ultimately show ?thesis using r by (intro exI [of _ root] exI [of _ index] exI [of _ report]) simp
qed

section \<open>What commands leave alone\<close>

text \<open>An operation that keeps the world, whatever its outcome.\<close>

definition quiet :: "'a cli \<Rightarrow> bool" where
  "quiet m \<longleftrightarrow> (\<forall>c. cs_world (snd (m c)) = cs_world c)"

lemma quiet_bind: "quiet m \<Longrightarrow> (\<And>x. quiet (f x)) \<Longrightarrow> quiet (bindC m f)"
  unfolding quiet_def bindC_def by (auto split: prod.splits sum.splits) (metis snd_conv)+

lemma quiet_basic [simp]: "quiet (returnC x)" "quiet (liftC r)" "quiet (readC f)" "quiet (write_out s)" "quiet (print_out s)"
    "quiet (print_err s)" "quiet (print_errs ss)" "quiet (report_block h rs)" "quiet (cli_repo_root env)"
  by (simp_all add: quiet_def cli_defs write_out_def print_out_def print_err_def print_errs_eq report_block_eq cli_repo_root_def)

lemma quiet_validate_paths: "quiet (validate_paths env root raws n)"
proof (induction raws arbitrary: n)
  case (Cons raw raws)
  then have "quiet (bindC (print_err s) (\<lambda>_. validate_paths env root raws k))"
    "quiet (bindC (readC (\<lambda>fs. validate_file (ce_schema env) fs t p (Some root))) (\<lambda>errors.
             if errors \<noteq> []
             then bindC (print_err s) (\<lambda>_. bindC (print_errs (map (\<lambda>e. ''  - '' @ e) errors)) (\<lambda>_.
                    validate_paths env root raws k))
             else bindC (print_out s') (\<lambda>_. validate_paths env root raws n)))" for s s' t p k
    by (auto intro!: quiet_bind)
  then show ?case by (auto simp: quiet_def Let_def)
qed simp

fun read_only :: "command \<Rightarrow> bool" where
  "read_only (Validate _) = True"
| "read_only (RenderFile _ output) = (output = None)"
| "read_only (CheckWaiver _ _) = True"
| "read_only (TraceFeature _ _ _) = True"
| "read_only _ = False"

text \<open>
  Checking changes nothing. \<open>validate\<close>, \<open>waiver\<close>, \<open>trace\<close> and \<open>render\<close> to standard output leave
  the file system as it is and make no external call, whatever they return or raise.
\<close>

theorem checking_changes_nothing:
  assumes "read_only cmd" "main env cmd c = (r, c')"
  shows "cs_world c' = cs_world c"
proof -
  have w: "quiet (cmd_waiver env p given)" for p given
  proof -
    have "quiet (bindC (readC (\<lambda>fs. read_json fs q)) (\<lambda>inst. bindC (cli_repo_root env) (\<lambda>root.
           bindC (readC (\<lambda>fs. validate_value (ce_schema env) fs inst (Some root))) (\<lambda>schema_errors.
             if schema_errors \<noteq> [] then report_block h schema_errors
             else bindC (liftC (cli_now env given)) (\<lambda>now.
               bindC (liftC (bindR (val_dict inst) (\<lambda>d. check_waiver d now))) (\<lambda>check.
                 if wc_valid check then bindC (print_out s) (\<lambda>_. returnC 0)
                 else report_block (b check) (wc_reason_codes check)))))))" for q h s b
      by (intro quiet_bind) (auto intro!: quiet_bind)
    then show ?thesis by (auto simp: quiet_def cmd_waiver_def Let_def report_block_eq)
  qed
  have "quiet (main env cmd)" using assms(1) w
    by (cases cmd) (auto simp: cmd_validate_def cmd_render_def cmd_trace_def intro!: quiet_bind quiet_validate_paths
        split: option.splits if_splits)
  with assms(2) show ?thesis unfolding quiet_def by (metis snd_conv)
qed

section \<open>Releases\<close>

text \<open>The verification that a release command asks for, if it gets that far.\<close>

definition release_asked :: "cli_env \<Rightarrow> deploy_args \<Rightarrow> fs \<Rightarrow> release_verification \<Rightarrow> bool" where
  "release_asked env a fs v \<longleftrightarrow> is_file fs (cli_path env (da_path a))
     \<and> (\<exists>root d now t. find_repo_root fs (se_module_file (ce_schema env)) = Inr root
        \<and> load_candidate (ce_schema env) fs (path_text (da_path a)) (cli_path env (da_path a)) (Some root) = Inr d
        \<and> cli_now env (da_now a) = Inr now \<and> rfc3339 now = Inr t
        \<and> verify_release (ce_schema env) fs
            (evaluate (ce_urlopen env) (new_policy_client (da_opa_url a) (da_bundle_version a)))
            (PDict d) (da_bundle_id a) (da_decision_id a) t
            [(''type'', PStr ''ci''), (''id'', PStr (da_actor_id a)), (''role'', PStr (da_actor_role a))]
            (da_run_id a) (Some root) = Inr v)"

definition deny_lines :: "deploy_args \<Rightarrow> release_verification \<Rightarrow> string list" where
  "deny_lines a v = (''DENY    '' @ path_text (da_path a) @ [newline]) # map (\<lambda>r. ''  - '' @ r @ [newline]) (rv_reason_codes v)"

lemma updateC_Inr: "updateC f c = (Inr u, c') \<longleftrightarrow> (\<exists>fs'. f (w_fs (cs_world c)) = Inr fs' \<and> c' = c\<lparr>cs_world := (cs_world c)\<lparr>w_fs := fs'\<rparr>\<rparr>)"
  by (auto simp: updateC_def split: sum.splits)

lemma write_text_Inr:
  assumes "write_text p text c = (Inr u, c')"
  shows "read_bytes (w_fs (cs_world c')) p = Inr text \<and> w_calls (cs_world c') = w_calls (cs_world c)
    \<and> cs_out c' = cs_out c \<and> cs_err c' = cs_err c"
  using assms read_written(2) by (auto simp: write_text_def bindC_Inr updateC_Inr)

lemma write_release_Inr:
  assumes "write_release output v c = (Inr u, c')"
  shows "read_bytes (w_fs (cs_world c')) (output @ [''policy-decision.json'']) = Inr (pretty 0 (PDict (rv_decision v)) @ [newline])
    \<and> w_calls (cs_world c') = w_calls (cs_world c) \<and> cs_out c' = cs_out c \<and> cs_err c' = cs_err c"
proof -
  from assms obtain c1 c2 where "updateC (\<lambda>fs. mkdirs fs output) c = (Inr (), c1)"
      "write_text (output @ [''evidence-bundle.json'']) (pretty 0 (PDict (rv_bundle v)) @ [newline]) c1 = (Inr (), c2)"
      "write_text (output @ [''policy-decision.json'']) (pretty 0 (PDict (rv_decision v)) @ [newline]) c2 = (Inr u, c')"
    unfolding write_release_def bindC_Inr by (auto simp: dumps_pretty_Inr)
  from this(1) write_text_Inr [OF this(2)] write_text_Inr [OF this(3)] show ?thesis by (auto simp: updateC_Inr)
qed

lemma conclude_Inr:
  assumes "conclude env a v c = (Inr code, c')"
  shows "code = (if rv_allow v then 0 else 1) \<and> w_calls (cs_world c') = w_calls (cs_world c)
    \<and> cs_err c' = cs_err c @ (if rv_allow v then [] else deny_lines a v)
    \<and> (\<forall>dir. da_output_dir a = Some dir \<and> dir \<noteq> [] \<longrightarrow>
         read_bytes (w_fs (cs_world c')) (cli_path env dir @ [''policy-decision.json'']) = Inr (pretty 0 (PDict (rv_decision v)) @ [newline]))"
proof -
  from assms obtain u c1 where w: "(case da_output_dir a of
              Some dir \<Rightarrow> (if dir \<noteq> [] then write_release (cli_path env dir) v else returnC ())
            | None \<Rightarrow> returnC ()) c = (Inr u, c1)"
      and out: "(if rv_allow v then bindC (print_out (''ALLOW   '' @ path_text (da_path a))) (\<lambda>_. returnC 0)
       else report_block (''DENY    '' @ path_text (da_path a)) (rv_reason_codes v)) c1 = (Inr code, c')"
    unfolding conclude_def bindC_Inr by blast
  from w have "w_calls (cs_world c1) = w_calls (cs_world c) \<and> cs_err c1 = cs_err c
    \<and> (\<forall>dir. da_output_dir a = Some dir \<and> dir \<noteq> [] \<longrightarrow>
         read_bytes (w_fs (cs_world c1)) (cli_path env dir @ [''policy-decision.json'']) = Inr (pretty 0 (PDict (rv_decision v)) @ [newline]))"
    by (auto split: option.splits if_splits dest: write_release_Inr)
  moreover from out have "code = (if rv_allow v then 0 else 1) \<and> cs_world c' = cs_world c1
      \<and> cs_err c' = cs_err c1 @ (if rv_allow v then [] else deny_lines a v)"
    by (auto simp: bindC_Inr report_block_eq deny_lines_def split: if_splits)
  ultimately show ?thesis by simp
qed

lemma deploy_verify_Inr:
  assumes "cmd_deploy_verify env a c = (Inr code, c')"
  obtains (asked) v where "release_asked env a (w_fs (cs_world c)) v" "conclude env a v c = (Inr code, c')"
  | (refused) "\<nexists>v. release_asked env a (w_fs (cs_world c)) v" "code = 1" "cs_world c' = cs_world c"
proof (cases "is_file (w_fs (cs_world c)) (cli_path env (da_path a))")
  case False
  then show thesis using assms refused by (auto simp: cmd_deploy_verify_def Let_def report_block_eq release_asked_def)
next
  case f: True
  with assms obtain root loaded where r: "find_repo_root (w_fs (cs_world c)) (se_module_file (ce_schema env)) = Inr root"
      "candidate_of env (da_path a) root (w_fs (cs_world c)) = Inr loaded"
      and rest: "(case loaded of
               Inl message \<Rightarrow> report_block (''INVALID '' @ path_text (da_path a)) [message]
             | Inr candidate \<Rightarrow> bindC (ask_release env a root candidate) (conclude env a)) c = (Inr code, c')"
    by (auto simp: cmd_deploy_verify_def Let_def bindC_Inr cli_repo_root_def simp del: append.simps)
  show thesis
  proof (cases loaded)
    case (Inl message)
    then have "\<nexists>v. release_asked env a (w_fs (cs_world c)) v"
      using r by (auto simp: release_asked_def candidate_of_def split: sum.splits py_error.splits)
    then show thesis using refused rest Inl by (auto simp: report_block_eq)
  next
    case (Inr d)
    with r have l: "load_candidate (ce_schema env) (w_fs (cs_world c)) (path_text (da_path a)) (cli_path env (da_path a)) (Some root) = Inr d"
      by (auto simp: candidate_of_def split: sum.splits py_error.splits)
    from rest Inr obtain v c1 where v: "ask_release env a root d c = (Inr v, c1)" "conclude env a v c1 = (Inr code, c')"
      by (auto simp: bindC_Inr)
    from v(1) have "c1 = c" by (auto simp: ask_release_def bindC_Inr)
    moreover from v(1) f r(1) l have "release_asked env a (w_fs (cs_world c)) v"
      unfolding release_asked_def ask_release_def bindC_Inr by auto
    ultimately show thesis using v(2) asked by simp
  qed
qed

text \<open>
  C28: \<open>sdlc deploy-verify\<close> releases exactly what the policy allows. When the command returns, its exit
  code is 0 just if the candidate was loaded and the verification allowed it; a verification that
  denies is reported with every reason code; and whenever an output directory is given, the file
  \<open>policy-decision.json\<close> in it holds the decision of the verification. No external program is run.
\<close>

theorem release_exit_code:
  assumes "cmd_deploy_verify env a c = (Inr code, c')"
  shows "code \<in> {0, 1} \<and> w_calls (cs_world c') = w_calls (cs_world c)
    \<and> (code = 0 \<longleftrightarrow> (\<exists>v. release_asked env a (w_fs (cs_world c)) v \<and> rv_allow v))
    \<and> (\<forall>v. release_asked env a (w_fs (cs_world c)) v \<longrightarrow>
         cs_err c' = cs_err c @ (if rv_allow v then [] else deny_lines a v)
       \<and> (\<forall>dir. da_output_dir a = Some dir \<and> dir \<noteq> [] \<longrightarrow>
            read_bytes (w_fs (cs_world c')) (cli_path env dir @ [''policy-decision.json''])
              = Inr (pretty 0 (PDict (rv_decision v)) @ [newline])))"
  using assms
proof (cases rule: deploy_verify_Inr)
  case (asked v)
  have e: "release_asked env a (w_fs (cs_world c)) v' \<longleftrightarrow> v' = v" for v'
    using asked(1) unfolding release_asked_def by auto
  show ?thesis unfolding e using conclude_Inr [OF asked(2)] by simp
next
  case refused
  then show ?thesis by auto
qed

end
