(* ===== verification/CliSession.thy ===== *)
theory CliSession
  imports Cli
begin

text \<open>
  What a session of the bridge can reach. The handlers of the registered tools bound the external
  calls of an executor, hence of every message, every line and the whole session. The bound is
  the interface \<open>guarded_executor\<close>; the executor that \<open>sdlc mcp\<close> sets up is an instance of it.
\<close>

section \<open>Operations whose calls all satisfy a predicate\<close>

named_theorems calls_intros

definition calls_only :: "(ext_call \<Rightarrow> bool) \<Rightarrow> 'a io \<Rightarrow> bool" where
  "calls_only P m \<longleftrightarrow> (\<forall>w r w'. m w = (r, w') \<longrightarrow> (\<exists>l. w_calls w' = w_calls w @ l \<and> list_all P l))"

definition grew :: "(ext_call \<Rightarrow> bool) \<Rightarrow> world \<Rightarrow> world \<Rightarrow> bool" where
  "grew P w w' \<longleftrightarrow> (\<exists>l. w_calls w' = w_calls w @ l \<and> list_all P l)"

lemma grew_same [simp]: "w_calls w' = w_calls w \<Longrightarrow> grew P w w'"
  by (simp add: grew_def)

lemma grew_trans: "grew P w w1 \<Longrightarrow> grew P w1 w2 \<Longrightarrow> grew P w w2"
  unfolding grew_def by (metis append_assoc list_all_append)

lemma calls_onlyD: "calls_only P m \<Longrightarrow> m w = (r, w') \<Longrightarrow> grew P w w'"
  unfolding calls_only_def grew_def by blast

lemma calls_onlyI: "(\<And>w r w'. m w = (r, w') \<Longrightarrow> grew P w w') \<Longrightarrow> calls_only P m"
  unfolding calls_only_def grew_def by blast

lemma calls_bind [calls_intros]:
  assumes "calls_only P m" "\<And>x. calls_only P (f x)"
  shows "calls_only P (bindW m f)"
proof (rule calls_onlyI)
  fix w r w' assume b: "bindW m f w = (r, w')"
  obtain r1 w1 where m: "m w = (r1, w1)" by fastforce
  from calls_onlyD [OF assms(1) m] have g: "grew P w w1" .
  show "grew P w w'"
  proof (cases r1)
    case (Inl e)
    with b m g show ?thesis by (simp add: bindW_def)
  next
    case (Inr x)
    with b m have "f x w1 = (r, w')" by (simp add: bindW_def)
    with g grew_trans calls_onlyD [OF assms(2)] show ?thesis by blast
  qed
qed

lemma calls_basic [calls_intros]:
  "calls_only P (returnW x)" "calls_only P (raiseW e)" "calls_only P (liftW r)" "calls_only P (readW f)" "calls_only P (updateW g)"
  by (rule calls_onlyI, auto simp: io_defs split: sum.splits)+

lemma calls_if [calls_intros]: "calls_only P a \<Longrightarrow> calls_only P b \<Longrightarrow> calls_only P (if c then a else b)"
  by simp

lemma calls_follows:
  assumes "follows plans m" "\<And>plan. plan \<in> plans \<Longrightarrow> list_all P plan"
  shows "calls_only P m"
proof (rule calls_onlyI)
  fix w r w' assume "m w = (r, w')"
  from followsD [OF assms(1) this] obtain l plan where l: "w_calls w' = w_calls w @ l" "plan \<in> plans" "prefix l plan" by blast
  have "list_all P l" using assms(2) [OF l(2)] l(3) by (auto simp: prefix_def)
  with l(1) show "grew P w w'" by (auto simp: grew_def)
qed

section \<open>The handlers\<close>

lemma art_write_calls [calls_intros]: "calls_only P (art_write root document)"
  unfolding art_write_def by (cases "dget_or document ''id'' PNone") (simp_all only: pyval.case; intro calls_intros)+

lemma artifact_handlers_calls:
  "calls_only P (read_handler root args)" "calls_only P (write_handler env root args)" "calls_only P (list_handler ls root args)"
  unfolding read_handler_def write_handler_def list_handler_def by (intro calls_intros)+

lemma write_file_calls: "calls_only P (write_file_handler root args)"
  unfolding write_file_handler_def writer_write_def by (intro calls_intros)

lemma run_tests_calls:
  assumes "\<And>argv dir place. argv_ok (cr_allow cr) argv \<Longrightarrow> dir = cr_root cr \<or> prefix (cr_root cr) dir \<and> place = Inr dir
    \<Longrightarrow> P (RunProgram argv dir place)"
  shows "calls_only P (run_tests_handler cr args)"
proof -
  have "grew P w w'" if x: "cmd_execute cr argv cwd w = (r, w')" for argv cwd w r w'
    using cmd_execute_cases [of cr argv cwd w]
  proof
    assume "\<exists>e. cmd_execute cr argv cwd w = (Inl e, w)"
    with x show ?thesis by auto
  next
    assume "\<exists>ss dir. argv = PList (map PStr ss) \<and> argv_ok (cr_allow cr) ss \<and> resolve_cwd (cr_root cr) cwd (w_fs w) = Inr dir
      \<and> cmd_execute cr argv cwd w = bindW (run_program cr ss dir) (\<lambda>c. returnW (run_result c)) w"
    then obtain ss dir where a: "argv_ok (cr_allow cr) ss" "resolve_cwd (cr_root cr) cwd (w_fs w) = Inr dir"
        and y: "bindW (run_program cr ss dir) (\<lambda>c. returnW (run_result c)) w = (r, w')"
      using x by metis
    have s: "dir = cr_root cr \<or> prefix (cr_root cr) dir \<and> os_path (w_fs w) dir = Inr dir"
      using resolve_cwd_confined [OF a(2)] by (auto simp: confined_cwd_def split: if_splits)
    from y have "w_calls w' = w_calls w @ [RunProgram ss dir (os_path (w_fs w) dir)]"
      by (auto simp: bindW_def run_program_def returnW_def split: prod.splits sum.splits)
    then show ?thesis using assms [OF a(1) s] by (auto simp: grew_def)
  qed
  then have "calls_only P (cmd_execute cr argv cwd)" for argv cwd by (rule calls_onlyI)
  then show ?thesis unfolding run_tests_handler_def by (intro calls_intros)
qed

lemma open_pr_calls:
  assumes "\<And>argv. P (RunGit argv (pr_root t))" "\<And>payload. P (OpenPullRequest payload)"
  shows "calls_only P (open_pr t args)"
proof -
  have "calls_only P (open_pr_after t args rq)" for rq
    by (rule calls_follows [OF open_pr_after_follows]) (use assms in \<open>auto simp: commit_calls_def\<close>)
  then show ?thesis unfolding open_pr_def by (intro calls_intros)
qed

section \<open>The executor and the bridge\<close>

lemma recording_makes_no_calls:
  "w_calls (snd (run_handler ex call spec actor decision w)) = w_calls (snd (ts_handler spec (tc_args call) w))"
proof -
  obtain r w' where run: "run_handler ex call spec actor decision w = (r, w')" by fastforce
  obtain h w1 where h: "ts_handler spec (tc_args call) w = (h, w1)" by fastforce
  show ?thesis
    using run h by (auto simp: run_handler_def bindW_def liftW_def returnW_def split: sum.splits prod.splits if_splits
        dest!: deny_world record_call_world evidence_only_calls)
qed

locale guarded_executor =
  fixes ex :: executor and P :: "ext_call \<Rightarrow> bool"
  assumes handlers: "tool_get (ex_tools ex) n = Inr spec \<Longrightarrow> calls_only P (ts_handler spec args)"
begin

lemma run_handler_calls:
  assumes "tool_get (ex_tools ex) n = Inr spec"
  shows "calls_only P (run_handler ex call spec actor decision)"
proof (rule calls_onlyI)
  fix w r w' assume run: "run_handler ex call spec actor decision w = (r, w')"
  obtain h w1 where h: "ts_handler spec (tc_args call) w = (h, w1)" by fastforce
  have "grew P w w1" by (rule calls_onlyD [OF handlers [OF assms] h])
  moreover have "w_calls w' = w_calls w1" using recording_makes_no_calls [of ex call spec actor decision w] run h by simp
  ultimately show "grew P w w'" by (auto simp: grew_def)
qed

lemma execute_calls: "calls_only P (execute ex clock call)"
proof (rule calls_onlyI)
  fix w r w' assume x: "execute ex clock call w = (r, w')"
  show "grew P w w'"
  proof (cases rule: execute_cases [of ex clock call w])
    case (raised e)
    with x show ?thesis by simp
  next
    case (refused why run pr)
    with x show ?thesis using evidence_only_calls [OF deny_world] by auto
  next
    case (ran run pr spec)
    then have "tool_get (ex_tools ex) (tc_tool call) = Inr spec" by (simp add: gates_passed_def)
    from run_handler_calls [OF this] show ?thesis using ran(2) x by (intro calls_onlyD [where m = "run_handler ex call spec (r_actor run) (decision_of call (r_actor run) pr)" and r = r]) simp_all
  qed
qed

lemma handle_calls:
  assumes "ms_executor srv = ex" "mcp_handle tk message srv w = (r, srv', w')"
  shows "grew P w w'"
  using assms(2)
proof (cases rule: mcp_handle_cases)
  case (call params)
  show ?thesis
  proof (cases rule: mcp_call_cases [of tk srv params "dget_or message ''id'' PNone" w])
    case (refused m)
    with call(4) show ?thesis by simp
  next
    case (executed c)
    then have "w' = snd (execute ex (tk_check tk) c w)" using call(4) assms(1) by simp
    then show ?thesis using calls_onlyD [OF execute_calls] by (metis prod.collapse)
  qed
qed simp

lemma serve_line_calls:
  assumes "ms_executor srv = ex" "serve_line capabilities tools run_id tk ln srv w = (response, srv', w')"
  shows "grew P w w' \<and> ms_executor srv' = ex"
  using assms handle_calls [OF assms(1)] handle_counters
  by (fastforce simp: serve_line_def handle_line_def split: sum.splits option.splits prod.splits)

lemma serve_calls:
  "serve_stdio capabilities tools run_id lines srv w = (responses, srv', w') \<Longrightarrow> ms_executor srv = ex \<Longrightarrow> grew P w w'"
proof (induction capabilities tools run_id lines srv w arbitrary: responses srv' w' rule: serve_stdio.induct)
  case (2 capabilities tools run_id tk ln lines srv w)
  show ?case
  proof (cases "strip ln = []")
    case True
    then show ?thesis using 2 by simp
  next
    case False
    obtain response srv1 w1 where l: "serve_line capabilities tools run_id tk (strip ln) srv w = (response, srv1, w1)"
      by (metis prod_cases3)
    obtain rs srv2 w2 where t: "serve_stdio capabilities tools run_id lines srv1 w1 = (rs, srv2, w2)" by (metis prod_cases3)
    from serve_line_calls [OF 2(4) l] have "grew P w w1" "ms_executor srv1 = ex" by simp_all
    moreover have "grew P w1 w2" by (rule 2(2) [OF False l [symmetric] refl t \<open>ms_executor srv1 = ex\<close>])
    moreover have "w' = w2" using 2(3) False l t by simp
    ultimately show ?thesis using grew_trans by simp
  qed
qed simp

end

section \<open>The session of the command line\<close>

definition token_set :: "cli_env \<Rightarrow> bool" where
  "token_set env \<longleftrightarrow> (case ce_environ env ''SDLC_GITHUB_TOKEN'' of None \<Rightarrow> False | Some token \<Rightarrow> token \<noteq> [])"

text \<open>
  The calls that a session may make in a workspace. A program starts in the root or in a directory
  inside it that the system enters without following a link.
\<close>

fun bridge_call :: "bool \<Rightarrow> path \<Rightarrow> ext_call \<Rightarrow> bool" where
  "bridge_call published root (RunProgram argv dir place) =
     (argv_ok DEFAULT_ALLOWED_PROGRAMS argv \<and> (dir = root \<or> prefix root dir \<and> place = Inr dir))"
| "bridge_call published root (RunGit argv dir) = (published \<and> dir = root)"
| "bridge_call published root (OpenPullRequest payload) = published"
| "bridge_call published root (AskModel a b c) = False"

definition guarded :: "bool \<Rightarrow> path \<Rightarrow> tool_registry \<Rightarrow> bool" where
  "guarded published root tools \<longleftrightarrow>
     (\<forall>n spec args. dget tools n = Some spec \<longrightarrow> calls_only (bridge_call published root) (ts_handler spec args))"

lemma guarded_register:
  assumes "tool_register spec tools = Inr tools'" "guarded b root tools" "\<And>args. calls_only (bridge_call b root) (ts_handler spec args)"
  shows "guarded b root tools'"
  using assms by (auto simp: tool_register_def guarded_def split: if_splits)

lemma mcp_tools_guarded:
  assumes "mcp_tools env a fs = Inr tools"
  shows "\<exists>root. resolve fs (cli_path env (ma_root a)) = Inr root \<and> guarded (token_set env) root tools"
proof -
  let ?b = "token_set env"
  from assms obtain t1 t2 t3 where t: "register_artifact_tools (ce_schema env) (cli_path env (ma_artifacts_dir a)) [] = Inr t1"
      "register_file_tools fs (cli_path env (ma_root a)) t1 = Inr t2"
      "register_test_tools fs (cli_path env (ma_root a)) DEFAULT_ALLOWED_PROGRAMS (ce_run env) t2 = Inr t3"
      "(case ce_environ env ''SDLC_GITHUB_TOKEN'' of
         Some token \<Rightarrow> (if token \<noteq> [] then register_vcs_tools fs (cli_path env (ma_root a)) (run_git (ce_proc env))
                   (\<lambda>_. open_github_pull_request (ce_environ env) (ce_github env)) t3 else Inr t3)
       | None \<Rightarrow> Inr t3) = Inr tools"
    unfolding mcp_tools_def bindR_eq_Inr by blast
  have v: "if ?b then register_vcs_tools fs (cli_path env (ma_root a)) (run_git (ce_proc env))
          (\<lambda>_. open_github_pull_request (ce_environ env) (ce_github env)) t3 = Inr tools else t3 = tools"
    using t(4) by (cases "ce_environ env ''SDLC_GITHUB_TOKEN''") (simp_all add: token_set_def split: if_splits)
  from t(2) obtain root where root: "resolve fs (cli_path env (ma_root a)) = Inr root"
    unfolding register_file_tools_def bindR_eq_Inr by blast
  have "guarded ?b root []" by (simp add: guarded_def)
  then have "guarded ?b root t1" using t(1) unfolding register_artifact_tools_def
    by (auto simp: bindR_eq_Inr artifact_handlers_calls elim!: guarded_register)
  then have "guarded ?b root t2" using t(2) root unfolding register_file_tools_def
    by (auto simp: write_file_calls elim: guarded_register)
  then have g: "guarded ?b root t3" using t(3) root unfolding register_test_tools_def new_command_runner_def
    by (auto elim!: guarded_register intro!: run_tests_calls)
  have "guarded ?b root tools"
  proof (cases ?b)
    case True
    then show ?thesis using v g root unfolding register_vcs_tools_def new_open_pr_tool_def
      by (auto elim!: guarded_register intro!: open_pr_calls)
  qed (use v g in simp)
  with root show ?thesis by blast
qed

text \<open>The tools and the root of a session, empty if setting them up fails.\<close>

definition session_tools :: "cli_env \<Rightarrow> mcp_args \<Rightarrow> fs \<Rightarrow> tool_registry" where
  "session_tools env a fs = (case mcp_tools env a fs of Inl e \<Rightarrow> [] | Inr tools \<Rightarrow> tools)"

definition session_root :: "cli_env \<Rightarrow> mcp_args \<Rightarrow> fs \<Rightarrow> path" where
  "session_root env a fs = (case resolve fs (cli_path env (ma_root a)) of Inl e \<Rightarrow> [] | Inr root \<Rightarrow> root)"

interpretation bridge: guarded_executor "mcp_executor env a capabilities (session_tools env a fs)"
    "bridge_call (token_set env) (session_root env a fs)" for env a capabilities fs
proof
  fix n spec args
  assume "tool_get (ex_tools (mcp_executor env a capabilities (session_tools env a fs))) n = Inr spec"
  then have d: "dget (session_tools env a fs) n = Some spec" by (simp add: mcp_executor_def tool_get_def split: option.splits)
  then obtain tools where "mcp_tools env a fs = Inr tools" "session_tools env a fs = tools"
    by (cases "mcp_tools env a fs") (simp_all add: session_tools_def)
  with mcp_tools_guarded [of env a fs tools] d
  show "calls_only (bridge_call (token_set env) (session_root env a fs)) (ts_handler spec args)"
    by (auto simp: guarded_def session_root_def)
qed

lemma cmd_mcp_cases:
  assumes "cmd_mcp env a c = (r, c')"
  shows "cs_world c' = cs_world c \<or> (\<exists>capabilities tools run_id. mcp_tools env a (w_fs (cs_world c)) = Inr tools
      \<and> serve_all env capabilities tools run_id (new_mcp_server (mcp_executor env a capabilities tools) tools) c = (Inr (), c'))"
proof (cases "\<exists>secret actor d tools. mcp_secret env = Some secret \<and> mcp_actor env = Inr (Some actor) \<and> dict_of actor = Inr d
    \<and> mcp_tools env a (w_fs (cs_world c)) = Inr tools")
  case True
  then obtain secret actor d tools where s: "mcp_secret env = Some secret" "mcp_actor env = Inr (Some actor)" "dict_of actor = Inr d"
      "mcp_tools env a (w_fs (cs_world c)) = Inr tools" by blast
  obtain run capabilities where g: "reg_start d (ce_environ env ''SDLC_RUN_ID'') (ce_uuid env) (ce_time env) (new_registry secret)
      = (run, capabilities)" by fastforce
  obtain c1 where v: "serve_all env capabilities tools (r_run_id run)
      (new_mcp_server (mcp_executor env a capabilities tools) tools) c = (Inr (), c1)"
    by (cases "serve_stdio capabilities tools (r_run_id run) (ce_stdin env)
        (new_mcp_server (mcp_executor env a capabilities tools) tools) (cs_world c)") (simp add: serve_all_def)
  then have "c' = c1" using assms s g by (simp add: cmd_mcp_def bindC_def liftC_def readC_def returnC_def Let_def)
  with v s(4) show ?thesis by blast
next
  case False
  then show ?thesis using assms
    by (cases "mcp_secret env"; cases "mcp_actor env")
      (auto simp: cmd_mcp_def report_block_eq bindC_def liftC_def readC_def Let_def split: option.splits sum.splits prod.splits)
qed

text \<open>
  C9: a session of the bridge stays in its workspace. Whatever lines the agent sends, and whatever the
  started programs do to the file system meanwhile, \<open>sdlc mcp\<close> starts only allow-listed programs, each in
  the workspace root or in a directory inside it that the system enters at that very place,
  without following a link; only if a GitHub token is configured, git commands in that root and pull
  requests. Without a token nothing is pushed or published, and no session asks a language model.
  The questions to the policy service, which come before every call, are not counted here.
\<close>

theorem session_stays_in_workspace:
  assumes "cmd_mcp env a c = (r, c')"
  shows "\<exists>l. w_calls (cs_world c') = w_calls (cs_world c) @ l
    \<and> list_all (bridge_call (token_set env) (session_root env a (w_fs (cs_world c)))) l"
proof -
  let ?P = "bridge_call (token_set env) (session_root env a (w_fs (cs_world c)))"
  have served: "grew ?P (cs_world c) (cs_world c')"
    if "serve_all env capabilities tools run_id (new_mcp_server (mcp_executor env a capabilities tools) tools) c = (u, c')"
      "mcp_tools env a (w_fs (cs_world c)) = Inr tools" for capabilities tools run_id u
    using that bridge.serve_calls [of capabilities tools run_id "ce_stdin env"]
    by (auto simp: serve_all_def session_tools_def new_mcp_server_def split: prod.splits)
  from cmd_mcp_cases [OF assms] have "cs_world c' = cs_world c \<or> (\<exists>capabilities tools run_id. mcp_tools env a (w_fs (cs_world c)) = Inr tools
      \<and> serve_all env capabilities tools run_id (new_mcp_server (mcp_executor env a capabilities tools) tools) c = (Inr (), c'))" .
  then have "grew ?P (cs_world c) (cs_world c')" using served by fastforce
  then show ?thesis unfolding grew_def .
qed

end
