(* ===== verification/SessionRun.thy ===== *)
theory SessionRun
  imports CliSession
begin

text \<open>
  A session of the bridge from its first line to its effect: a request that names a tool and its
  arguments and nothing else is given a capability, passes the gates and reaches the handler. The
  session run here starts a program through a link of the workspace.
\<close>

section \<open>A bare request reaches its handler\<close>

lemma empty_token_rejected: "reg_check reg [] tool scope now clock = Inr check \<Longrightarrow> chk_run_id check = None"
  by (auto simp: reg_check_def decode_token_def)

theorem bare_call_runs:
  assumes line: "json_loads ln = Inr (PDict message)" "printable opts_default (PDict message)"
      "dget message ''jsonrpc'' = Some (PStr JSONRPC_VERSION)" "dget message ''method'' = Some (PStr ''tools/call'')"
      "dget message ''params'' = Some (PDict [(''name'', PStr name), (''arguments'', PDict args)])" "name \<noteq> []"
    and tool: "tool_get tools name = Inr spec" "ts_scope spec \<noteq> []"
    and run: "reg_get capabilities run_id = Some run" "\<not> r_finished run" "run_id \<noteq> []"
      "cap_ok (granted run_id name (ts_scope spec) (tk_issue tk))" "tk_check tk \<le> tk_issue tk + DEFAULT_TTL_SECONDS"
    and ex: "ms_executor srv = ex" "ex_capabilities ex = capabilities" "ex_tools ex = tools"
      "\<And>call. tc_tool call = name \<Longrightarrow> tc_args call = args \<Longrightarrow> tc_scope call = ts_scope spec \<Longrightarrow> tc_resource call = []
         \<Longrightarrow> \<exists>pr. ex_policy ex POLICY_POINT (policy_payload call (r_actor run)) = Inr pr \<and> pr_allow pr"
      "validate_instance (ex_iter_errors ex) (PDict args) (ts_args_schema spec) = Inr []"
  shows "w_calls (snd (snd (serve_line capabilities tools run_id tk ln srv w))) = w_calls (snd (ts_handler spec args w))"
proof -
  let ?p = "[(''name'', PStr name), (''arguments'', PDict args)]"
  have f: "\<not> list_all (has_text ?p) CAPABILITY_FIELDS" "dget ?p ''name'' = Some (PStr name)"
    by (simp_all add: CAPABILITY_FIELDS_def has_text_def)
  have "active capabilities run_id" using run(1,2) by (simp add: active_def)
  from injected_call_authorised [OF line(1,2,4,5) f tool(1) this run(4)] obtain line' params' token where
      l: "inject_capability ln capabilities tools run_id (tk_issue tk) = Inr line'"
        "json_loads line' = Inr (PDict (dset ''params'' (PDict params') message))"
      and p: "\<And>k. dget params' k = (case dget ?p k of Some v \<Rightarrow> Some v | None \<Rightarrow>
          (if k = ''run_id'' then Some (PStr run_id) else if k = ''scope'' then Some (PStr (ts_scope spec))
           else if k = ''token'' then Some (PStr token) else None))"
      and c: "\<And>now. \<exists>check. reg_check capabilities token name (ts_scope spec) None now = Inr check
          \<and> (chk_valid check \<longleftrightarrow> now \<le> tk_issue tk + DEFAULT_TTL_SECONDS) \<and> chk_run_id check = Some run_id"
    by blast
  have t: "token \<noteq> []" using c [of 0] empty_token_rejected by fastforce
  define call where "call = \<lparr>tc_run_id = run_id, tc_token = token, tc_tool = name, tc_args = args, tc_scope = ts_scope spec,
      tc_created_at = tk_now tk, tc_decision_id = next_decision_id srv, tc_evidence_id = next_evidence_id srv, tc_resource = []\<rparr>"
  have "call_of tk srv params' = Inr call"
    unfolding call_of_Inr carries_call_def using line(6) tool(2) run(3) t by (simp add: call_def p dget_or_def)
  moreover obtain pr where "ex_policy ex POLICY_POINT (policy_payload call (r_actor run)) = Inr pr" "pr_allow pr"
    using ex(4) [of call] by (auto simp: call_def)
  then have "gates_passed ex (tk_check tk) call run pr spec"
    using c [of "tk_check tk"] run(1,5) tool(1) ex(2,3,5) by (auto simp: gates_passed_def call_def)
  then have "snd (execute ex (tk_check tk) call w)
      = snd (run_handler ex call spec (r_actor run) (decision_of call (r_actor run) pr) w)" by (simp add: execute_gates)
  then have "w_calls (snd (execute ex (tk_check tk) call w)) = w_calls (snd (ts_handler spec args w))"
    by (simp add: recording_makes_no_calls call_def)
  ultimately have "w_calls (snd (snd (mcp_call tk i params' srv w))) = w_calls (snd (ts_handler spec args w))" for i
    using ex(1) by (cases "execute ex (tk_check tk) call w") (auto simp: mcp_call_def split: sum.splits)
  moreover have "mcp_handle tk (dset ''params'' (PDict params') message) srv w
      = mcp_call tk (dget_or message ''id'' PNone) params' srv w"
    using line(3,4) by (simp add: mcp_handle_def dget_or_def Let_def)
  ultimately show ?thesis
    using l by (auto simp: serve_line_def handle_line_def parse_line_def split: prod.splits sum.splits) (metis snd_conv)+
qed

section \<open>A session\<close>

definition session_message :: pydict where
  "session_message = rpc_request (PInt 1) ''tools/call'' (Some [(''name'', PStr ''run_tests''),
     (''arguments'', PDict [(''argv'', PList [PStr ''pytest'']), (''cwd'', PStr ''in'')])])"

definition session_env :: cli_env where
  "session_env = \<lparr>ce_cwd = [''ws''],
     ce_schema = \<lparr>se_module_file = [''ws''], se_listdir = (\<lambda>fs p. []), se_ref_errors = (\<lambda>schema resources v. Inr [])\<rparr>,
     ce_now = demo_now 739266, ce_urlopen = (\<lambda>_. HttpBody demo_allow), ce_rglob = (\<lambda>_ _. []), ce_set_order = id,
     ce_environ = (\<lambda>_. None), ce_urandom = ''0123456789abcdef0123456789abcdef'', ce_uuid = ''1'', ce_time = 0,
     ce_run = (\<lambda>_ _ _ fs. (Inr \<lparr>cp_returncode = 0, cp_stdout = None, cp_stderr = None\<rparr>, fs)),
     ce_proc = (\<lambda>_ _ _ fs. (ProcFailed [], fs)), ce_github = (\<lambda>_. GhUnavailable []),
     ce_iter_errors = (\<lambda>_ _. Inr []), ce_zlib_size = length,
     ce_stdin = [(demo_tick, json_dumps opts_default (PDict session_message))]\<rparr>"

definition session_start :: cli_state where
  "session_start = \<lparr>cs_world = \<lparr>w_fs = linked_fs, w_calls = []\<rparr>, cs_out = [], cs_err = []\<rparr>"

lemma session_line:
  "printable opts_default (PDict session_message)"
  "json_loads (json_dumps opts_default (PDict session_message)) = Inr (PDict session_message)"
  "strip (json_dumps opts_default (PDict session_message)) = json_dumps opts_default (PDict session_message)"
proof -
  show p: "printable opts_default (PDict session_message)"
    by (simp add: session_message_def rpc_request_def dict_wf_def str_ok_ascii int_ok_def max_int_digits_def dec_nat.simps JSONRPC_VERSION_def)
  show "json_loads (json_dumps opts_default (PDict session_message)) = Inr (PDict session_message)"
    using json_roundtrip [OF p] by (simp add: canon_def opts_default_def)
  have "ascii_val (PDict session_message)" by (simp add: session_message_def rpc_request_def JSONRPC_VERSION_def)
  then have "is_ascii (json_dumps opts_default (PDict session_message))" by (rule ascii_dumps(1))
  then show "strip (json_dumps opts_default (PDict session_message)) = json_dumps opts_default (PDict session_message)"
    by (rule strip_ascii_plain) (simp add: dump_members_def)
qed

definition session_runner :: command_runner where
  "session_runner = \<lparr>cr_root = [''ws''], cr_allow = DEFAULT_ALLOWED_PROGRAMS, cr_run = ce_run session_env\<rparr>"

lemma session_setup:
  obtains tools spec where "mcp_tools session_env mcp_defaults linked_fs = Inr tools" "tool_get tools ''run_tests'' = Inr spec"
    "ts_scope spec = ''workspace''" "ts_handler spec = run_tests_handler session_runner"
proof -
  have r: "resolve linked_fs (cli_path session_env (ma_root mcp_defaults)) = Inr [''ws'']" by code_simp
  have e: "ce_environ session_env ''SDLC_GITHUB_TOKEN'' = None" by (simp add: session_env_def)
  have "\<exists>tools spec. mcp_tools session_env mcp_defaults linked_fs = Inr tools \<and> tool_get tools ''run_tests'' = Inr spec
      \<and> ts_scope spec = ''workspace'' \<and> ts_handler spec = run_tests_handler session_runner"
    by (simp add: mcp_tools_def e r register_artifact_tools_def register_file_tools_def register_test_tools_def
        new_command_runner_def tool_register_def tool_get_def session_runner_def)
  then show thesis using that by blast
qed

lemma session_handler:
  "w_calls (snd (run_tests_handler session_runner [(''argv'', PList [PStr ''pytest'']), (''cwd'', PStr ''in'')]
     \<lparr>w_fs = linked_fs, w_calls = []\<rparr>)) = [RunProgram [''pytest''] [''ws'', ''sub''] (Inr [''ws'', ''sub''])]"
  by code_simp

lemma session_policy:
  assumes "tc_tool call = ''run_tests''" "tc_args call = [(''argv'', PList [PStr ''pytest'']), (''cwd'', PStr ''in'')]"
    and "tc_scope call = ''workspace''" "tc_resource call = []" "ascii_pairs actor" "ints_ok_pairs actor"
  shows "\<exists>pr. evaluate (\<lambda>_. HttpBody demo_allow) client POLICY_POINT (policy_payload call actor) = Inr pr \<and> pr_allow pr"
proof -
  let ?p = "policy_payload call actor"
  have "ascii_val (PDict ?p)" "ints_ok (PDict ?p)" "ascii_val (PDict [(''input'', PDict ?p)])" "ints_ok (PDict [(''input'', PDict ?p)])"
    using assms by (simp_all add: policy_payload_def derive_resource_def dget_or_def Let_def)
  then obtain dg rq where "compute_input_digest ?p = Inr dg" "build_request client POLICY_POINT ?p = Inr rq"
    by (simp add: compute_input_digest_def build_request_def dumps_def ascii_encodes encode_utf8_def
        del: json_dumps.simps ascii_val.simps ints_ok.simps)
  then show ?thesis by (simp add: evaluate_def parse_def demo_allow_parsed)
qed

definition session_actor :: pydict where
  "session_actor = [(''type'', PStr ''agent''), (''id'', PStr ''opencode''), (''role'', PStr ''implementer'')]"

lemma session_actor_read: "json_loads DEFAULT_ACTOR_JSON = Inr (PDict session_actor)" by code_simp

theorem session_stays_in_workspace_witness:
  "\<exists>c'. cmd_mcp session_env mcp_defaults session_start = (Inr 0, c')
     \<and> w_calls (cs_world c') = [RunProgram [''pytest''] [''ws'', ''sub''] (Inr [''ws'', ''sub''])]
     \<and> list_all (bridge_call False [''ws'']) (w_calls (cs_world c'))"
proof -
  let ?w = "\<lparr>w_fs = linked_fs, w_calls = []\<rparr>" and ?ln = "json_dumps opts_default (PDict session_message)"
  let ?args = "[(''argv'', PList [PStr ''pytest'']), (''cwd'', PStr ''in'')]"
  obtain tools spec where t: "mcp_tools session_env mcp_defaults linked_fs = Inr tools" "tool_get tools ''run_tests'' = Inr spec"
      "ts_scope spec = ''workspace''" "ts_handler spec = run_tests_handler session_runner" by (rule session_setup)
  define run where "run = \<lparr>r_run_id = ''RUN-1'', r_actor = session_actor, r_created_at = 0, r_finished = False\<rparr>"
  define capabilities where "capabilities = \<lparr>reg_secret = ce_urandom session_env, reg_runs = [(''RUN-1'', run)]\<rparr>"
  have g: "reg_start session_actor None ''1'' 0 (new_registry (ce_urandom session_env)) = (run, capabilities)"
    by (simp add: reg_start_def new_registry_def run_def capabilities_def Let_def)
  let ?ex = "mcp_executor session_env mcp_defaults capabilities tools"
  let ?srv = "new_mcp_server ?ex tools"
  have m: "dget session_message ''jsonrpc'' = Some (PStr JSONRPC_VERSION)" "dget session_message ''method'' = Some (PStr ''tools/call'')"
    "dget session_message ''params'' = Some (PDict [(''name'', PStr ''run_tests''), (''arguments'', PDict ?args)])"
    by (simp_all add: session_message_def rpc_request_def)
  have s: "w_calls (snd (snd (serve_line capabilities tools ''RUN-1'' demo_tick ?ln ?srv ?w))) = w_calls (snd (ts_handler spec ?args ?w))"
  proof (rule bare_call_runs [OF session_line(2,1) m _ t(2)])
    show "cap_ok (granted ''RUN-1'' ''run_tests'' (ts_scope spec) (tk_issue demo_tick))"
      by (simp add: t demo_tick_def granted_def cap_ok_def token_text_def valid_str_ascii no_surrogate_ascii int_ok_def max_int_digits_def
          dec_nat.simps DEFAULT_TTL_SECONDS_def)
    show "\<exists>pr. ex_policy ?ex POLICY_POINT (policy_payload call (r_actor run)) = Inr pr \<and> pr_allow pr"
      if "tc_tool call = ''run_tests''" "tc_args call = ?args" "tc_scope call = ts_scope spec" "tc_resource call = []" for call
      using session_policy [OF that(1,2) that(3) [unfolded t(3)] that(4), of session_actor]
      by (simp add: mcp_executor_def session_env_def run_def session_actor_def)
  qed (simp_all add: t run_def capabilities_def reg_get_def new_mcp_server_def mcp_executor_def validate_instance_ok session_env_def
      demo_tick_def DEFAULT_TTL_SECONDS_def)
  obtain response srv' w' where l: "serve_line capabilities tools ''RUN-1'' demo_tick ?ln ?srv ?w = (response, srv', w')"
    by (metis prod_cases3)
  have w': "w_calls w' = [RunProgram [''pytest''] [''ws'', ''sub''] (Inr [''ws'', ''sub''])]"
    using s l session_handler by (simp add: t(4))
  have "ce_stdin session_env = [(demo_tick, ?ln)]" "ce_environ session_env = (\<lambda>_. None)" "ce_uuid session_env = ''1''" "ce_time session_env = 0"
    by (simp_all add: session_env_def)
  moreover have "?ln \<noteq> []" by (simp add: dump_members_def)
  ultimately obtain c' where c: "cmd_mcp session_env mcp_defaults session_start = (Inr 0, c')" "cs_world c' = w'"
    using t(1) g l session_line(3) session_actor_read
    by (simp add: cmd_mcp_def mcp_secret_def mcp_actor_def bindC_def liftC_def readC_def returnC_def serve_all_def session_start_def run_def
        del: json_dumps.simps)
  have "session_root session_env mcp_defaults linked_fs = [''ws'']" "token_set session_env = False" by code_simp+
  with session_stays_in_workspace [OF c(1)] c w' show ?thesis by (auto simp: session_start_def)
qed

end
