(* ===== verification/Argparse.thy ===== *)
theory Argparse
  imports PyValue
begin

text \<open>
  The standard library's \<open>argparse\<close>, as far as the command line uses it (\<open>ArgumentParser.parse_args\<close> of
  Python 3.12): options that store a value or set a flag, the help option, at most one positional
  argument per parser (one value, or one or more), and a parser of sub-commands. Abbreviated long
  options, values attached by \<open>=\<close> or to a short option, groups of short flags, the separator \<open>--\<close> and
  arguments that look like negative numbers are treated as the library treats them.

  A parse ends with the values of the namespace, or it ends the process with an exit status: 0 after
  printing the help, 2 after printing a usage error. The printed texts are not part of the model.
\<close>

section \<open>Parsers\<close>

datatype action = Store | StoreTrue | Help

record argument =
  arg_strings :: "string list"
  arg_dest :: string
  arg_action :: action
  arg_default :: pyval
  arg_required :: bool

datatype nargs = Single | OneOrMore | Subcommand

record parser =
  ap_options :: "argument list"
  ap_positional :: "(string \<times> nargs) option"

datatype 'a outcome = Exit int | Parsed 'a

fun bindO :: "'a outcome \<Rightarrow> ('a \<Rightarrow> 'b outcome) \<Rightarrow> 'b outcome" where
  "bindO (Exit n) f = Exit n"
| "bindO (Parsed x) f = f x"

text \<open>\<open>add_argument\<close> derives the attribute from the first long option, or else from the first short one.\<close>

definition dest_of :: "string list \<Rightarrow> string" where
  "dest_of names =
     (let long = filter (starts_with ''--'') names; name = (if long \<noteq> [] then hd long else hd names)
      in replace_char CHR ''-'' CHR ''_'' (dropWhile (\<lambda>c. c = CHR ''-'') name))"

definition store :: "string list \<Rightarrow> pyval \<Rightarrow> argument" where
  "store names v =
     \<lparr>arg_strings = names, arg_dest = dest_of names, arg_action = Store, arg_default = v, arg_required = False\<rparr>"

definition help_argument :: argument where
  "help_argument = \<lparr>arg_strings = [''-h'', ''--help''], arg_dest = ''help'', arg_action = Help, arg_default = PNone, arg_required = False\<rparr>"

definition takes_value :: "argument \<Rightarrow> bool" where
  "takes_value a \<longleftrightarrow> arg_action a = Store"

definition option_strings :: "parser \<Rightarrow> (string \<times> argument) list" where
  "option_strings p = concat (map (\<lambda>a. map (\<lambda>s. (s, a)) (arg_strings a)) (ap_options p))"

definition find_option :: "parser \<Rightarrow> string \<Rightarrow> argument option" where
  "find_option p s = map_of (option_strings p) s"

section \<open>Options and arguments\<close>

text \<open>The value given within an option's own string; the flag tells that it follows a \<open>=\<close>.\<close>

datatype explicit = NoValue | Value bool string

datatype kind = Plain | Dashes | Unknown | Option argument string explicit

type_synonym token = "string \<times> kind"

text \<open>The characters that \<open>\d\<close> matches: the decimal digits of Unicode 15, in runs from zero to nine.\<close>

definition zero_points :: "nat list" where
  "zero_points =
     [48, 1632, 1776, 1984, 2406, 2534, 2662, 2790, 2918, 3046, 3174, 3302, 3430, 3558, 3664, 3792, 3872,
      4160, 4240, 6112, 6160, 6470, 6608, 6784, 6800, 6992, 7088, 7232, 7248, 42528, 43216, 43264, 43472,
      43504, 43600, 44016, 65296, 66720, 68912, 69734, 69872, 69942, 70096, 70384, 70736, 70864, 71248, 71360,
      71472, 71904, 72016, 72784, 73040, 73120, 73552, 92768, 92864, 93008, 120782, 120792, 120802, 120812,
      120822, 123200, 123632, 124144, 125264, 130032]"

definition decimal_char :: "string \<Rightarrow> bool" where
  "decimal_char g \<longleftrightarrow> list_ex (\<lambda>z. z \<le> py_ord g \<and> py_ord g < z + 10) zero_points"

text \<open>\<open>-\d+$|-\d*\.\d+$\<close>; the dollar also matches before a final line end.\<close>

definition looks_negative :: "string \<Rightarrow> bool" where
  "looks_negative s =
     (let cs = py_chars (tl s); body = (if cs \<noteq> [] \<and> last cs = [newline] then butlast cs else cs);
          rest = dropWhile decimal_char body
      in s \<noteq> [] \<and> hd s = CHR ''-''
         \<and> (body \<noteq> [] \<and> rest = [] \<or> rest \<noteq> [] \<and> hd rest = ''.'' \<and> tl rest \<noteq> [] \<and> list_all decimal_char (tl rest)))"

definition before_eq :: "string \<Rightarrow> string" where
  "before_eq s = takeWhile (\<lambda>c. c \<noteq> CHR ''='') s"

definition after_eq :: "string \<Rightarrow> explicit" where
  "after_eq s = (case dropWhile (\<lambda>c. c \<noteq> CHR ''='') s of [] \<Rightarrow> NoValue | _ # v \<Rightarrow> Value True v)"

text \<open>The options that an unknown string can stand for.\<close>

definition option_tuples :: "parser \<Rightarrow> string \<Rightarrow> kind list" where
  "option_tuples p s =
     (if starts_with ''--'' s
      then map (\<lambda>(t, a). Option a t (after_eq s)) (filter (\<lambda>(t, a). starts_with (before_eq s) t) (option_strings p))
      else List.map_filter (\<lambda>(t, a).
             if t = take 2 s then Some (Option a t (Value False (drop 2 s)))
             else if starts_with s t then Some (Option a t NoValue) else None) (option_strings p))"

text \<open>How one string is read; \<open>None\<close> if it is ambiguous.\<close>

definition parse_optional :: "parser \<Rightarrow> string \<Rightarrow> kind option" where
  "parse_optional p s =
     (if \<not> starts_with ''-'' s then Some Plain
      else case find_option p s of
        Some a \<Rightarrow> Some (Option a s NoValue)
      | None \<Rightarrow>
          if length s = 1 then Some Plain
          else case (find_option p (before_eq s), after_eq s) of
            (Some a, Value b v) \<Rightarrow> Some (Option a (before_eq s) (Value b v))
          | _ \<Rightarrow>
              (case option_tuples p s of
                 [] \<Rightarrow> Some (if looks_negative s \<or> List.member s CHR '' '' then Plain else Unknown)
               | [k] \<Rightarrow> Some k
               | _ \<Rightarrow> None))"

fun classify :: "parser \<Rightarrow> string list \<Rightarrow> token list option" where
  "classify p [] = Some []"
| "classify p (s # ss) =
     (if s = ''--'' then Some ((s, Dashes) # map (\<lambda>t. (t, Plain)) ss)
      else case parse_optional p s of
        None \<Rightarrow> None
      | Some k \<Rightarrow> map_option ((#) (s, k)) (classify p ss))"

section \<open>Consuming\<close>

text \<open>
  The actions that an option calls for, whether its string holds an unknown flag, and the tokens
  that are left. A flag with letters attached is a group of short options.
\<close>

definition attached :: "string \<Rightarrow> explicit" where
  "attached w = (case w of [] \<Rightarrow> NoValue | c # v \<Rightarrow> if c = CHR ''='' then Value True v else Value False w)"

function consume_optional ::
    "parser \<Rightarrow> argument \<Rightarrow> string \<Rightarrow> explicit \<Rightarrow> token list \<Rightarrow> (argument \<times> string list) list
     \<Rightarrow> ((argument \<times> string list) list \<times> bool \<times> token list) outcome" where
  "consume_optional p a t NoValue ts acc =
     (if takes_value a
      then (case ts of (v, Plain) # ts' \<Rightarrow> Parsed (acc @ [(a, [v])], False, ts') | _ \<Rightarrow> Exit 2)
      else Parsed (acc @ [(a, [])], False, ts))"
| "consume_optional p a t (Value eq v) ts acc =
     (if takes_value a then Parsed (acc @ [(a, [v])], False, ts)
      else if starts_with ''--'' t \<or> v = [] then Exit 2
      else if eq \<or> hd v = CHR ''-'' then Exit 2
      else case find_option p [CHR ''-'', hd v] of
        None \<Rightarrow> Parsed (acc @ [(a, [])], True, ts)
      | Some a' \<Rightarrow> consume_optional p a' [CHR ''-'', hd v] (attached (tl v)) ts (acc @ [(a, [])]))"
  by pat_completeness auto
termination
proof (relation "measure (\<lambda>(p, a, t, e, ts, acc). case e of NoValue \<Rightarrow> 0 | Value b v \<Rightarrow> Suc (length v))")
  fix p a t b ts acc a' and v :: string
  assume "\<not> (starts_with ''--'' t \<or> v = [])"
  then obtain c w where "v = c # w" by (cases v) auto
  then show "((p, a', [CHR ''-'', hd v], attached (tl v), ts, acc @ [(a, [])]), p, a, t, Value b v, ts, acc)
      \<in> measure (\<lambda>(p, a, t, e, ts, acc). case e of NoValue \<Rightarrow> 0 | Value b v \<Rightarrow> Suc (length v))"
    by (cases w) (auto simp: attached_def)
qed simp

fun take_actions :: "(argument \<times> string list) list \<Rightarrow> pydict \<Rightarrow> pydict outcome" where
  "take_actions [] ns = Parsed ns"
| "take_actions ((a, vs) # rest) ns =
     (case arg_action a of
        Help \<Rightarrow> Exit 0
      | StoreTrue \<Rightarrow> take_actions rest (dset (arg_dest a) (PBool True) ns)
      | Store \<Rightarrow> take_actions rest (dset (arg_dest a) (PStr (hd vs)) ns))"

text \<open>How many tokens the positional argument takes from here, none if it cannot start here.\<close>

definition positional_count :: "nargs \<Rightarrow> token list \<Rightarrow> nat" where
  "positional_count n ts =
     (let d = length (takeWhile (\<lambda>(s, k). k = Dashes) ts); rest = drop d ts
      in if rest = [] \<or> snd (hd rest) \<noteq> Plain then 0
         else case n of
           Single \<Rightarrow> d + 1 + length (takeWhile (\<lambda>(s, k). k = Dashes) (tl rest))
         | OneOrMore \<Rightarrow> d + 1 + length (takeWhile (\<lambda>(s, k). k = Dashes \<or> k = Plain) (tl rest))
         | Subcommand \<Rightarrow> length ts)"

text \<open>The first separator among the values of a positional argument is dropped.\<close>

definition positional_values :: "nargs \<Rightarrow> token list \<Rightarrow> string list" where
  "positional_values n ts = (if n = Subcommand then map fst ts else remove1 ''--'' (map fst ts))"

record parse_state =
  pa_namespace :: pydict
  pa_seen :: "string list"
  pa_values :: "string list option"
  pa_extras :: bool

definition initial_state :: "parser \<Rightarrow> parse_state" where
  "initial_state p =
     \<lparr>pa_namespace = map (\<lambda>a. (arg_dest a, arg_default a)) (filter (\<lambda>a. arg_action a \<noteq> Help) (ap_options p)),
      pa_seen = [], pa_values = None, pa_extras = False\<rparr>"

lemma consume_optional_shorter:
  "consume_optional p a t e ts acc = Parsed (acts, extra, ts') \<Longrightarrow> length ts' \<le> length ts"
  by (induction p a t e ts acc rule: consume_optional.induct) (auto split: if_splits list.splits kind.splits option.splits)

text \<open>An option with the actions it calls for, and the positional argument where it can start; a value that
  no argument takes is extra.\<close>

definition take_option :: "parser \<Rightarrow> argument \<Rightarrow> string \<Rightarrow> explicit \<Rightarrow> token list \<Rightarrow> parse_state \<Rightarrow> (token list \<times> parse_state) outcome" where
  "take_option p a t e ts st =
     bindO (consume_optional p a t e ts []) (\<lambda>(acts, extra, ts').
     bindO (take_actions acts (pa_namespace st)) (\<lambda>ns.
       Parsed (ts', st\<lparr>pa_namespace := ns, pa_seen := map (arg_dest \<circ> fst) acts @ pa_seen st, pa_extras := pa_extras st \<or> extra\<rparr>)))"

definition take_positional :: "parser \<Rightarrow> token list \<Rightarrow> parse_state \<Rightarrow> token list \<times> parse_state" where
  "take_positional p ts st =
     (case (ap_positional p, pa_values st) of
        (Some (dest, n), None) \<Rightarrow>
          (let c = positional_count n ts
           in if c = 0 then (tl ts, st\<lparr>pa_extras := True\<rparr>)
              else (drop c ts, st\<lparr>pa_values := Some (positional_values n (take c ts))\<rparr>))
      | _ \<Rightarrow> (tl ts, st\<lparr>pa_extras := True\<rparr>))"

lemma bindO_Parsed: "bindO m f = Parsed y \<longleftrightarrow> (\<exists>x. m = Parsed x \<and> f x = Parsed y)"
  by (cases m) auto

lemma bindO_Exit: "bindO m f = Exit n \<longleftrightarrow> m = Exit n \<or> (\<exists>x. m = Parsed x \<and> f x = Exit n)"
  by (cases m) auto

lemma take_option_shorter: "take_option p a t e ts st = Parsed (ts', st') \<Longrightarrow> length ts' \<le> length ts"
  by (auto simp: take_option_def bindO_Parsed dest: consume_optional_shorter)

lemma take_positional_shorter: "take_positional p (tok # ts) st = (ts', st') \<Longrightarrow> length ts' \<le> length ts"
  by (auto simp: take_positional_def Let_def split: option.splits if_splits)

function scan :: "parser \<Rightarrow> token list \<Rightarrow> parse_state \<Rightarrow> parse_state outcome" where
  "scan p [] st = Parsed st"
| "scan p ((s, Unknown) # ts) st = scan p ts (st\<lparr>pa_extras := True\<rparr>)"
| "scan p ((s, Option a t e) # ts) st =
     (case take_option p a t e ts st of Exit n \<Rightarrow> Exit n | Parsed (ts', st') \<Rightarrow> scan p ts' st')"
| "scan p ((s, Plain) # ts) st = (case take_positional p ((s, Plain) # ts) st of (ts', st') \<Rightarrow> scan p ts' st')"
| "scan p ((s, Dashes) # ts) st = (case take_positional p ((s, Dashes) # ts) st of (ts', st') \<Rightarrow> scan p ts' st')"
  by pat_completeness auto
termination
proof (relation "measure (\<lambda>(p, ts, st). length ts)")
  show "((p, ts', st'), p, (s, Option a t e) # ts, st) \<in> measure (\<lambda>(p, ts, st). length ts)"
    if "take_option p a t e ts st = Parsed x" "(ts', st') = x" for p s a t e ts st x ts' st'
    using take_option_shorter [of p a t e ts st ts' st'] that by auto
  show "((p, ts', st'), p, (s, Plain) # ts, st) \<in> measure (\<lambda>(p, ts, st). length ts)"
    if "(ts', st') = take_positional p ((s, Plain) # ts) st" for p s ts st ts' st'
    using take_positional_shorter [OF that [symmetric]] by simp
  show "((p, ts', st'), p, (s, Dashes) # ts, st) \<in> measure (\<lambda>(p, ts, st). length ts)"
    if "(ts', st') = take_positional p ((s, Dashes) # ts) st" for p s ts st ts' st'
    using take_positional_shorter [OF that [symmetric]] by simp
qed simp_all

definition complete :: "parser \<Rightarrow> parse_state \<Rightarrow> bool" where
  "complete p st \<longleftrightarrow> (ap_positional p \<noteq> None \<longrightarrow> pa_values st \<noteq> None)
     \<and> list_all (\<lambda>a. arg_required a \<longrightarrow> List.member (pa_seen st) (arg_dest a)) (ap_options p)"

definition parse_known :: "parser \<Rightarrow> string list \<Rightarrow> parse_state outcome" where
  "parse_known p argv =
     (case classify p argv of
        None \<Rightarrow> Exit 2
      | Some ts \<Rightarrow> bindO (scan p ts (initial_state p)) (\<lambda>st. if complete p st then Parsed st else Exit 2))"

text \<open>A parser with sub-commands: the rest of the line goes to the parser of the command named.\<close>

definition positional_entry :: "parser \<Rightarrow> string list \<Rightarrow> pydict" where
  "positional_entry p values =
     (case ap_positional p of
        Some (dest, Single) \<Rightarrow> [(dest, PStr (hd values))]
      | Some (dest, OneOrMore) \<Rightarrow> [(dest, PList (map PStr values))]
      | _ \<Rightarrow> [])"

definition namespace_of :: "parser \<Rightarrow> parse_state \<Rightarrow> pydict" where
  "namespace_of p st = (case pa_values st of None \<Rightarrow> [] | Some vs \<Rightarrow> positional_entry p vs) @ pa_namespace st"

definition parse_sub :: "parser dict \<Rightarrow> parse_state \<Rightarrow> (string \<times> pydict) outcome" where
  "parse_sub subs st =
     (case pa_values st of
        Some (name # rest) \<Rightarrow>
          (case dget subs name of
             None \<Rightarrow> Exit 2
           | Some p \<Rightarrow>
               bindO (parse_known p rest) (\<lambda>st'.
                 if pa_extras st \<or> pa_extras st' then Exit 2 else Parsed (name, namespace_of p st')))
      | _ \<Rightarrow> Exit 2)"

definition parse_args :: "parser \<Rightarrow> parser dict \<Rightarrow> string list \<Rightarrow> (string \<times> pydict) outcome" where
  "parse_args main_parser subs argv = bindO (parse_known main_parser argv) (parse_sub subs)"

section \<open>Reading a line from its start\<close>

text \<open>Classifying a line and consuming it, as one step.\<close>

definition run_line :: "parser \<Rightarrow> string list \<Rightarrow> parse_state \<Rightarrow> parse_state outcome" where
  "run_line p ss st = (case classify p ss of None \<Rightarrow> Exit 2 | Some ts \<Rightarrow> scan p ts st)"

lemma parse_known_run:
  "parse_known p argv = bindO (run_line p argv (initial_state p)) (\<lambda>st. if complete p st then Parsed st else Exit 2)"
  by (simp add: parse_known_def run_line_def split: option.split)

lemma run_line_Nil [simp]: "run_line p [] st = Parsed st"
  by (simp add: run_line_def)

lemma starts_with_dash: "starts_with ''-'' s \<longleftrightarrow> s \<noteq> [] \<and> hd s = CHR ''-''"
  by (cases s) (auto simp: starts_with_def)

lemma classify_texts: "classify p argv = Some ts \<Longrightarrow> map fst ts = argv"
  by (induction p argv arbitrary: ts rule: classify.induct) (auto split: if_splits option.splits simp: comp_def)

lemma starts_with_dashes: "starts_with ''--'' s \<longleftrightarrow> (\<exists>r. s = CHR ''-'' # CHR ''-'' # r)"
  by (cases s; cases "tl s") (auto simp: starts_with_def)

text \<open>A long option with its value after \<open>=\<close>, whatever the value.\<close>

definition given :: "string \<Rightarrow> string \<Rightarrow> string" where
  "given name v = name @ ''='' @ v"

definition value_option :: "parser \<Rightarrow> string \<Rightarrow> argument \<Rightarrow> bool" where
  "value_option p name a \<longleftrightarrow> find_option p name = Some a \<and> takes_value a \<and> starts_with ''--'' name \<and> CHR ''='' \<notin> set name
     \<and> list_all (\<lambda>(t, a). CHR ''='' \<notin> set t) (option_strings p)"

lemma eq_parts: "CHR ''='' \<notin> set name \<Longrightarrow> before_eq (given name v) = name \<and> after_eq (given name v) = Value True v"
proof -
  assume n: "CHR ''='' \<notin> set name"
  then have "takeWhile (\<lambda>c. c \<noteq> CHR ''='') (name @ ''='' @ v) = name" "dropWhile (\<lambda>c. c \<noteq> CHR ''='') (name @ ''='' @ v) = ''='' @ v"
    by (auto simp: takeWhile_append dropWhile_append)
  then show ?thesis by (simp add: before_eq_def after_eq_def given_def)
qed

lemma parse_optional_given:
  assumes "value_option p name a"
  shows "parse_optional p (given name v) = Some (Option a name (Value True v))"
proof -
  have n: "find_option p name = Some a" "starts_with ''--'' name" "CHR ''='' \<notin> set name"
      "list_all (\<lambda>(t, a). CHR ''='' \<notin> set t) (option_strings p)" using assms by (simp_all add: value_option_def)
  have "given name v \<notin> fst ` set (option_strings p)" using n(4) by (force simp: list_all_iff given_def)
  then have "find_option p (given name v) = None" by (simp add: find_option_def map_of_eq_None_iff)
  moreover have "length (given name v) \<noteq> 1" "starts_with ''-'' (given name v)"
    using n(2) by (auto simp: given_def starts_with_dashes starts_with_dash)
  ultimately show ?thesis using n(1) eq_parts [OF n(3), of v] by (simp add: parse_optional_def)
qed

definition stored_option :: "argument \<Rightarrow> pyval \<Rightarrow> parse_state \<Rightarrow> parse_state" where
  "stored_option a v st =
     st\<lparr>pa_namespace := dset (arg_dest a) v (pa_namespace st), pa_seen := arg_dest a # pa_seen st\<rparr>"

lemma run_given:
  assumes "value_option p name a"
  shows "run_line p (given name v # ss) st = run_line p ss (stored_option a (PStr v) st)"
proof -
  have "given name v \<noteq> ''--''" using assms by (auto simp: given_def value_option_def starts_with_dashes)
  moreover have "arg_action a = Store" using assms by (simp add: value_option_def takes_value_def)
  ultimately show ?thesis
    using parse_optional_given [OF assms] by (auto simp: run_line_def stored_option_def takes_value_def take_option_def split: option.split)
qed

lemma run_flag:
  assumes "find_option p s = Some a" "arg_action a = StoreTrue" "starts_with ''-'' s" "s \<noteq> ''--''"
  shows "run_line p (s # ss) st = run_line p ss (stored_option a (PBool True) st)"
proof -
  have "parse_optional p s = Some (Option a s NoValue)" using assms by (simp add: parse_optional_def)
  then show ?thesis using assms(2,4) by (auto simp: run_line_def stored_option_def takes_value_def take_option_def split: option.split)
qed

text \<open>After the separator everything belongs to the positional argument.\<close>

lemma takeWhile_plain: "takeWhile (\<lambda>(s, k). k = Dashes \<or> k = Plain) (map (\<lambda>t. (t, Plain)) ss) = map (\<lambda>t. (t, Plain)) ss"
  by (induction ss) auto

lemma run_separated_single:
  assumes "ap_positional p = Some (dest, Single)" "pa_values st = None"
  shows "run_line p [''--'', v] st = Parsed (st\<lparr>pa_values := Some [v]\<rparr>)"
  using assms by (simp add: run_line_def take_positional_def positional_count_def positional_values_def Let_def)

lemma run_separated_many:
  assumes "ap_positional p = Some (dest, OneOrMore)" "pa_values st = None" "vs \<noteq> []"
  shows "run_line p (''--'' # vs) st = Parsed (st\<lparr>pa_values := Some vs\<rparr>)"
proof -
  obtain v ws where vs: "vs = v # ws" using assms(3) by (cases vs) auto
  have "positional_count OneOrMore ((''--'', Dashes) # map (\<lambda>t. (t, Plain)) vs) = Suc (length vs)"
    by (simp add: positional_count_def Let_def vs takeWhile_plain)
  then show ?thesis
    using assms(1,2) by (simp add: run_line_def take_positional_def positional_values_def Let_def comp_def)
qed

text \<open>Arguments that do not start with a dash are values.\<close>

lemma classify_plain: "list_all (\<lambda>s. \<not> starts_with ''-'' s) ss \<Longrightarrow> classify p ss = Some (map (\<lambda>t. (t, Plain)) ss)"
  by (induction ss) (auto simp: parse_optional_def starts_with_dash)

lemma run_plain_many:
  assumes "ap_positional p = Some (dest, OneOrMore)" "pa_values st = None" "vs \<noteq> []" "list_all (\<lambda>s. \<not> starts_with ''-'' s) vs"
  shows "run_line p vs st = Parsed (st\<lparr>pa_values := Some vs\<rparr>)"
proof -
  obtain v ws where vs: "vs = v # ws" using assms(3) by (cases vs) auto
  have "positional_count OneOrMore (map (\<lambda>t. (t, Plain)) vs) = length vs"
    by (simp add: positional_count_def Let_def vs takeWhile_plain)
  moreover have "''--'' \<notin> set vs" using assms(4) by (auto simp: list_all_iff starts_with_def)
  ultimately show ?thesis
    using assms(1,2) classify_plain [OF assms(4)] vs
    by (simp add: run_line_def take_positional_def positional_values_def Let_def comp_def remove1_idem)
qed

section \<open>Values are never empty\<close>

text \<open>A classified line has at most one separator, and after it only values.\<close>

fun separated :: "token list \<Rightarrow> bool" where
  "separated [] = True"
| "separated ((s, k) # ts) = (if k = Dashes then list_all (\<lambda>t. snd t = Plain) ts else s \<noteq> ''--'' \<and> separated ts)"

lemma parse_optional_not_dashes: "parse_optional p s \<noteq> Some Dashes"
proof -
  have "k \<noteq> Dashes" if "k \<in> set (option_tuples p s)" for k
    using that by (auto simp: option_tuples_def List.map_filter_def split: if_splits)
  then show ?thesis by (auto simp: parse_optional_def split: option.splits list.splits explicit.splits if_splits)
qed

lemma classify_separated: "classify p ss = Some ts \<Longrightarrow> separated ts"
  by (induction p ss arbitrary: ts rule: classify.induct)
    (auto simp: parse_optional_not_dashes list_all_iff split: if_splits option.splits)

lemma consume_optional_separated:
  "consume_optional p a t e ts acc = Parsed (acts, extra, ts') \<Longrightarrow> separated ts \<Longrightarrow> separated ts'"
  by (induction p a t e ts acc rule: consume_optional.induct) (auto split: if_splits list.splits kind.splits option.splits)

lemma remove1_ne: "2 \<le> length xs \<Longrightarrow> remove1 x xs \<noteq> []"
  by (cases xs rule: remdups_adj.cases) auto

lemma positional_values_ne:
  assumes "separated ts" "positional_count n ts \<noteq> 0"
  shows "positional_values n (take (positional_count n ts) ts) \<noteq> []"
proof (cases ts)
  case Nil
  then show ?thesis using assms(2) by (simp add: positional_count_def)
next
  case (Cons tok rest)
  obtain s k where tok: "tok = (s, k)" by (cases tok)
  show ?thesis
  proof (cases "k = Dashes")
    case True
    then have "list_all (\<lambda>t. snd t = Plain) rest" using assms(1) Cons tok by simp
    then have "takeWhile (\<lambda>(s, k). k = Dashes) rest = []" by (cases rest) auto
    then have "2 \<le> length (take (positional_count n ts) ts) \<or> n = Subcommand"
      using assms(2) Cons tok True by (cases rest) (auto simp: positional_count_def Let_def split: nargs.splits if_splits)
    then show ?thesis using assms(2) Cons by (auto simp: positional_values_def intro!: remove1_ne)
  next
    case False
    then have "s \<noteq> ''--''" using assms(1) Cons tok by simp
    then show ?thesis using assms(2) Cons tok by (cases "positional_count n ts") (auto simp: positional_values_def)
  qed
qed

lemma count_zero_dashes: "separated ((s, Dashes) # ts) \<Longrightarrow> positional_count n ((s, Dashes) # ts) = 0 \<Longrightarrow> ts = []"
  by (cases ts) (auto simp: positional_count_def Let_def split: nargs.splits if_splits)

definition values_ok :: "parser \<Rightarrow> token list \<Rightarrow> parse_state \<Rightarrow> bool" where
  "values_ok p ts st \<longleftrightarrow> (ap_positional p \<noteq> None \<longrightarrow> pa_values st = None \<longrightarrow> separated ts) \<and> pa_values st \<noteq> Some []"

lemma take_positional_ok:
  assumes "take_positional p ((s, k) # ts) st = (ts', st')" "k = Plain \<or> k = Dashes" "values_ok p ((s, k) # ts) st"
  shows "values_ok p ts' st'"
proof -
  have "values_ok p ts (st\<lparr>pa_extras := True\<rparr>)" if "positional_count n ((s, k) # ts) = 0" for n
    using that assms(2,3) count_zero_dashes [of s ts n] by (auto simp: values_ok_def)
  moreover have "values_ok p ts (st\<lparr>pa_extras := True\<rparr>)" if "pa_values st \<noteq> None \<or> ap_positional p = None"
    using that assms(3) by (auto simp: values_ok_def)
  ultimately show ?thesis
    using assms(1,3) positional_values_ne [of "(s, k) # ts"]
    by (auto simp: take_positional_def Let_def values_ok_def split: option.splits if_splits)
qed

lemma take_option_ok:
  assumes "take_option p a t e ts st = Parsed (ts', st')" "values_ok p ((s, Option a t e) # ts) st"
  shows "values_ok p ts' st'"
  using assms consume_optional_separated [of p a t e ts "[]"]
  by (auto simp: take_option_def bindO_Parsed values_ok_def)

lemma scan_values_ok: "scan p ts st = Parsed st' \<Longrightarrow> values_ok p ts st \<Longrightarrow> pa_values st' \<noteq> Some []"
proof (induction p ts st rule: scan.induct)
  case (3 p s a t e ts st)
  then show ?case using take_option_ok by (fastforce split: outcome.splits prod.splits)
next
  case (4 p s ts st)
  then show ?case using take_positional_ok [of p s Plain] by (fastforce split: prod.splits)
next
  case (5 p s ts st)
  then show ?case using take_positional_ok [of p s Dashes] by (fastforce split: prod.splits)
qed (auto simp: values_ok_def)

lemma parse_known_values: "parse_known p argv = Parsed st \<Longrightarrow> pa_values st \<noteq> Some []"
  using scan_values_ok [of p _ "initial_state p" st] classify_separated [of p argv]
  by (auto simp: parse_known_def bindO_Parsed values_ok_def initial_state_def split: option.splits if_splits)

section \<open>Exit statuses\<close>

text \<open>Only a string that starts like the help option can end the process with status 0, in a parser whose
  only short flag is the help option.\<close>

definition asks_help :: "string \<Rightarrow> bool" where
  "asks_help s \<longleftrightarrow> starts_with ''-h'' s \<or> starts_with ''--h'' s"

definition help_only :: "parser \<Rightarrow> bool" where
  "help_only p \<longleftrightarrow> list_all (\<lambda>(t, a). (arg_action a = Help \<longrightarrow> t = ''-h'' \<or> t = ''--help'')
     \<and> (\<not> takes_value a \<and> \<not> starts_with ''--'' t \<longrightarrow> arg_action a = Help)) (option_strings p)"

lemma before_eq_dashes: "before_eq (CHR ''-'' # CHR ''-'' # r) = CHR ''-'' # CHR ''-'' # before_eq r"
  by (simp add: before_eq_def)

lemma before_eq_prefix: "starts_with (before_eq s) s"
  unfolding before_eq_def by (metis starts_with_append takeWhile_dropWhile_id)

lemma after_eq_NoValue: "after_eq s = NoValue \<Longrightarrow> before_eq s = s"
  by (auto simp: after_eq_def before_eq_def split: list.splits)

lemma option_tuples_help:
  assumes "Option a t e \<in> set (option_tuples p s)" "starts_with ''-'' s" "length s \<noteq> 1" "s \<noteq> ''--''"
  shows "(t, a) \<in> set (option_strings p)"
    and "t = ''-h'' \<or> t = ''--help'' \<Longrightarrow> e = NoValue \<or> \<not> starts_with ''--'' t \<Longrightarrow> asks_help s"
proof -
  show "(t, a) \<in> set (option_strings p)"
    using assms(1) by (auto simp: option_tuples_def List.map_filter_def split: if_splits)
  assume t: "t = ''-h'' \<or> t = ''--help''" and e: "e = NoValue \<or> \<not> starts_with ''--'' t"
  show "asks_help s"
  proof (cases "starts_with ''--'' s")
    case True
    then obtain r where r: "s = CHR ''-'' # CHR ''-'' # r" using starts_with_dashes by blast
    have m: "starts_with (before_eq s) t" "e = after_eq s" using assms(1) True by (auto simp: option_tuples_def)
    then have "t = ''--help''" using t r by (auto simp: before_eq_dashes starts_with_def)
    moreover from this have "before_eq s = s" using e m(2) after_eq_NoValue by (auto simp: starts_with_def)
    ultimately have "starts_with s ''--help''" using m(1) by simp
    then show ?thesis using r assms(4) by (cases r) (auto simp: starts_with_def asks_help_def)
  next
    case False
    have "t = take 2 s \<or> starts_with s t" using assms(1) False by (auto simp: option_tuples_def List.map_filter_def split: if_splits)
    then show ?thesis using t False assms(2,3)
      by (cases s; cases "tl s") (auto simp: starts_with_def asks_help_def)
  qed
qed

lemma parse_optional_help:
  assumes "parse_optional p s = Some (Option a t e)" "s \<noteq> ''--''" "help_only p"
  shows "(t, a) \<in> set (option_strings p)"
    and "arg_action a = Help \<Longrightarrow> e = NoValue \<or> \<not> starts_with ''--'' t \<Longrightarrow> asks_help s"
proof -
  consider (exact) "find_option p s = Some a" "t = s"
    | (eq) "find_option p (before_eq s) = Some a" "t = before_eq s" "e \<noteq> NoValue"
    | (abbrev) "starts_with ''-'' s" "length s \<noteq> 1" "option_tuples p s = [Option a t e]"
    using assms(1) unfolding parse_optional_def
    by (cases "find_option p s"; cases "find_option p (before_eq s)"; cases "after_eq s"; cases "option_tuples p s" rule: remdups_adj.cases)
      (auto split: if_splits dest: sym [of "Value _ _"])
  then have "(t, a) \<in> set (option_strings p) \<and>
      ((t = ''-h'' \<or> t = ''--help'') \<longrightarrow> (e = NoValue \<or> \<not> starts_with ''--'' t) \<longrightarrow> asks_help s)"
  proof cases
    case exact
    then show ?thesis by (auto simp: find_option_def asks_help_def starts_with_def dest: map_of_SomeD)
  next
    case eq
    have "starts_with ''-h'' s" if "t = ''-h''" using before_eq_prefix [of s] eq(2) that by simp
    moreover have "starts_with ''--'' ''--help''" by (simp add: starts_with_def)
    moreover have "(t, a) \<in> set (option_strings p)" using eq by (simp add: find_option_def map_of_SomeD)
    ultimately show ?thesis using eq(3) by (auto simp: asks_help_def)
  next
    case abbrev
    then have "Option a t e \<in> set (option_tuples p s)" by simp
    from option_tuples_help [OF this abbrev(1,2) assms(2)] show ?thesis by blast
  qed
  moreover from this have "arg_action a = Help \<Longrightarrow> t = ''-h'' \<or> t = ''--help''"
    using assms(3) by (auto simp: help_only_def list_all_iff)
  ultimately show "(t, a) \<in> set (option_strings p)"
    "arg_action a = Help \<Longrightarrow> e = NoValue \<or> \<not> starts_with ''--'' t \<Longrightarrow> asks_help s" by blast+
qed

text \<open>What is known of a classified line.\<close>

definition help_marked :: "parser \<Rightarrow> token list \<Rightarrow> bool" where
  "help_marked p ts \<longleftrightarrow> (\<forall>s a t e. (s, Option a t e) \<in> set ts \<longrightarrow> (t, a) \<in> set (option_strings p)
     \<and> (arg_action a = Help \<longrightarrow> e = NoValue \<or> \<not> starts_with ''--'' t \<longrightarrow> asks_help s))"

lemma classify_marked: "classify p ss = Some ts \<Longrightarrow> help_only p \<Longrightarrow> help_marked p ts"
proof (induction p ss arbitrary: ts rule: classify.induct)
  case (2 p s ss)
  show ?case
  proof (cases "s = ''--''")
    case True
    then show ?thesis using 2(2) by (auto simp: help_marked_def)
  next
    case False
    then obtain k ts' where k: "parse_optional p s = Some k" "classify p ss = Some ts'" "ts = (s, k) # ts'"
      using 2(2) by (auto split: option.splits)
    from 2(1) [OF False k(1,2) 2(3)] show ?thesis
      using k(1,3) parse_optional_help [OF _ False 2(3)] by (auto simp: help_marked_def)
  qed
qed (simp add: help_marked_def)

lemma consume_optional_Exit: "consume_optional p a t e ts acc = Exit n \<Longrightarrow> n = 2"
  by (induction p a t e ts acc rule: consume_optional.induct) (auto split: if_splits list.splits kind.splits option.splits)

lemma consume_optional_suffix:
  "consume_optional p a t e ts acc = Parsed (acts, extra, ts') \<Longrightarrow> set ts' \<subseteq> set ts"
  by (induction p a t e ts acc rule: consume_optional.induct) (auto split: if_splits list.splits kind.splits option.splits)

lemma take_actions_Exit: "take_actions acts ns = Exit n \<Longrightarrow> n = 0 \<and> list_ex (\<lambda>(a, vs). arg_action a = Help) acts"
  by (induction acts ns rule: take_actions.induct) (auto split: action.splits)

lemma consume_optional_help:
  assumes "consume_optional p a t e ts [] = Parsed (acts, extra, ts')" "list_ex (\<lambda>(a, vs). arg_action a = Help) acts"
    and "help_only p" "(t, a) \<in> set (option_strings p)"
  shows "arg_action a = Help \<and> (e = NoValue \<or> \<not> starts_with ''--'' t)"
  using assms by (cases e) (auto simp: help_only_def list_all_iff takes_value_def split: if_splits list.splits kind.splits)

lemma take_option_Exit:
  assumes "take_option p a t e ts st = Exit n" "help_only p" "help_marked p ((s, Option a t e) # ts)"
  shows "n = 2 \<or> n = 0 \<and> asks_help s"
proof -
  have m: "(t, a) \<in> set (option_strings p)" "arg_action a = Help \<Longrightarrow> e = NoValue \<or> \<not> starts_with ''--'' t \<Longrightarrow> asks_help s"
    using assms(3) by (auto simp: help_marked_def)
  from assms(1) consider "consume_optional p a t e ts [] = Exit n"
    | acts extra ts' where "consume_optional p a t e ts [] = Parsed (acts, extra, ts')" "take_actions acts (pa_namespace st) = Exit n"
    by (auto simp: take_option_def bindO_Exit)
  then show ?thesis
  proof cases
    case 1
    then show ?thesis using consume_optional_Exit by blast
  next
    case (2 acts extra ts')
    then show ?thesis using take_actions_Exit consume_optional_help [OF 2(1) _ assms(2) m(1)] m(2) by blast
  qed
qed

lemma take_option_suffix: "take_option p a t e ts st = Parsed (ts', st') \<Longrightarrow> set ts' \<subseteq> set ts"
  using consume_optional_suffix by (fastforce simp: take_option_def bindO_Parsed)

lemma take_positional_suffix:
  assumes "take_positional p ts st = (ts', st')"
  shows "set ts' \<subseteq> set ts"
proof -
  have "ts' = tl ts \<or> (\<exists>c. ts' = drop c ts)"
    using assms by (auto simp: take_positional_def Let_def split: option.splits if_splits)
  then show ?thesis by (auto dest: in_set_dropD) (metis list.sel(2) list.set_sel(2))
qed

lemma help_marked_subset: "help_marked p ts \<Longrightarrow> set ts' \<subseteq> set ts \<Longrightarrow> help_marked p ts'"
  by (auto simp: help_marked_def)

lemma scan_Exit:
  "scan p ts st = Exit n \<Longrightarrow> help_only p \<Longrightarrow> help_marked p ts \<Longrightarrow> n = 2 \<or> n = 0 \<and> (\<exists>s \<in> fst ` set ts. asks_help s)"
proof (induction p ts st rule: scan.induct)
  case (2 p s ts st)
  then show ?case using help_marked_subset [OF 2(4), of ts] by auto
next
  case (3 p s a t e ts st)
  show ?case
  proof (cases "take_option p a t e ts st")
    case (Exit m)
    then show ?thesis using 3(2-4) take_option_Exit by fastforce
  next
    case (Parsed x)
    obtain ts' st' where x: "x = (ts', st')" by (cases x)
    then have sub: "set ts' \<subseteq> set ts" using Parsed take_option_suffix by blast
    have "help_marked p ts'" using help_marked_subset [OF 3(4), of ts'] sub by auto
    from 3(1) [OF Parsed x [symmetric] _ 3(3) this] 3(2) Parsed x sub show ?thesis by auto
  qed
next
  case (4 p s ts st)
  obtain ts' st' where x: "take_positional p ((s, Plain) # ts) st = (ts', st')" by force
  note sub = take_positional_suffix [OF x]
  from 4(1) [OF x [symmetric] _ 4(3) help_marked_subset [OF 4(4) sub]] 4(2) x sub show ?case by auto
next
  case (5 p s ts st)
  obtain ts' st' where x: "take_positional p ((s, Dashes) # ts) st = (ts', st')" by force
  note sub = take_positional_suffix [OF x]
  from 5(1) [OF x [symmetric] _ 5(3) help_marked_subset [OF 5(4) sub]] 5(2) x sub show ?case by auto
qed simp

lemma parse_known_Exit:
  assumes "parse_known p argv = Exit n" "help_only p"
  shows "n = 2 \<or> n = 0 \<and> (\<exists>s \<in> set argv. asks_help s)"
proof (cases "classify p argv")
  case (Some ts)
  have "fst ` set ts = set argv" using classify_texts [OF Some] by (metis set_map)
  then show ?thesis
    using assms Some scan_Exit [of p ts "initial_state p" n] classify_marked [OF Some assms(2)]
    by (auto simp: parse_known_def bindO_Exit split: if_splits)
qed (use assms(1) in \<open>simp add: parse_known_def\<close>)

section \<open>Values come from the line\<close>

definition values_in :: "string set \<Rightarrow> parse_state \<Rightarrow> bool" where
  "values_in A st \<longleftrightarrow> (\<forall>vs. pa_values st = Some vs \<longrightarrow> set vs \<subseteq> A)"

lemma positional_values_subset: "set (positional_values n ts) \<subseteq> fst ` set ts"
  unfolding positional_values_def using set_remove1_subset [of "''--''" "map fst ts"] by auto

lemma take_positional_values:
  assumes "take_positional p ts st = (ts', st')" "fst ` set ts \<subseteq> A" "values_in A st"
  shows "values_in A st'"
proof -
  have "set (positional_values n (take c ts)) \<subseteq> A" for n c
    using positional_values_subset [of n "take c ts"] image_mono [OF set_take_subset [of c ts]] assms(2) by (meson order_trans)
  then have "values_in A (st\<lparr>pa_values := Some (positional_values n (take c ts))\<rparr>)" for n c by (simp add: values_in_def)
  moreover have "values_in A (st\<lparr>pa_extras := True\<rparr>)" using assms(3) by (simp add: values_in_def)
  ultimately show ?thesis
    using assms(1) by (auto simp: take_positional_def Let_def split: option.splits if_splits)
qed

lemma scan_values_in: "scan p ts st = Parsed st' \<Longrightarrow> fst ` set ts \<subseteq> A \<Longrightarrow> values_in A st \<Longrightarrow> values_in A st'"
proof (induction p ts st rule: scan.induct)
  case (2 p s ts st)
  have "values_in A (st\<lparr>pa_extras := True\<rparr>)" using 2(4) by (simp add: values_in_def)
  then show ?case using 2(1,2,3) by simp
next
  case (3 p s a t e ts st)
  then obtain ts1 st1 where t: "take_option p a t e ts st = Parsed (ts1, st1)" by (auto split: outcome.splits)
  have "values_in A st1" using 3(4) t by (auto simp: take_option_def bindO_Parsed values_in_def)
  moreover have "fst ` set ts1 \<subseteq> A" using take_option_suffix [OF t] 3(3) by auto
  ultimately show ?case using 3(1) [OF t refl] 3(2) t by simp
next
  case (4 p s ts st)
  obtain ts1 st1 where t: "take_positional p ((s, Plain) # ts) st = (ts1, st1)" by force
  have "fst ` set ts1 \<subseteq> A" using image_mono [OF take_positional_suffix [OF t]] 4(3) by (rule order_trans)
  then show ?case using 4(1) [OF t [symmetric]] 4(2) t take_positional_values [OF t 4(3,4)] by simp
next
  case (5 p s ts st)
  obtain ts1 st1 where t: "take_positional p ((s, Dashes) # ts) st = (ts1, st1)" by force
  have "fst ` set ts1 \<subseteq> A" using image_mono [OF take_positional_suffix [OF t]] 5(3) by (rule order_trans)
  then show ?case using 5(1) [OF t [symmetric]] 5(2) t take_positional_values [OF t 5(3,4)] by simp
qed simp

lemma parse_known_from_line:
  assumes "parse_known p argv = Parsed st" "pa_values st = Some vs"
  shows "set vs \<subseteq> set argv"
proof -
  from assms(1) obtain ts where ts: "classify p argv = Some ts" "scan p ts (initial_state p) = Parsed st"
    by (auto simp: parse_known_def bindO_Parsed split: option.splits if_splits)
  have "fst ` set ts = set argv" using classify_texts [OF ts(1)] by (metis set_map)
  then show ?thesis
    using scan_values_in [OF ts(2), of "set argv"] assms(2) by (simp add: values_in_def initial_state_def)
qed

end
