(* ===== verification/CliMain.thy ===== *)
theory CliMain
  imports Cli Argparse
begin

text \<open>
  The entry point of the command line (\<open>cli.py\<close>: \<open>build_parser\<close> and \<open>main\<close>): the argument parser as it
  is declared, the command that its namespace stands for, and the exit status of the process.
\<close>

section \<open>The parser\<close>

definition main_parser :: parser where
  "main_parser = \<lparr>ap_options = [help_argument], ap_positional = Some (''command'', Subcommand)\<rparr>"

definition validate_parser :: parser where
  "validate_parser = \<lparr>ap_options = [help_argument], ap_positional = Some (''paths'', OneOrMore)\<rparr>"

definition render_parser :: parser where
  "render_parser = \<lparr>ap_options = [help_argument, store [''-o'', ''--output''] PNone], ap_positional = Some (''path'', Single)\<rparr>"

definition waiver_parser :: parser where
  "waiver_parser = \<lparr>ap_options = [help_argument, store [''--now''] PNone], ap_positional = Some (''path'', Single)\<rparr>"

definition deploy_verify_parser :: parser where
  "deploy_verify_parser =
     \<lparr>ap_options = [help_argument, store [''--opa-url''] (PStr ''http://localhost:8181''),
        store [''--bundle-version''] (PStr ''unknown''), store [''--run-id''] (PStr ''RUN-deploy-verify''),
        store [''--now''] PNone, store [''--output-dir''] PNone, store [''--bundle-id''] (PStr ''EB-0001''),
        store [''--decision-id''] (PStr ''PD-0001''), store [''--actor-id''] (PStr ''deploy-verify''),
        store [''--actor-role''] (PStr ''release-approver'')],
      ap_positional = Some (''path'', Single)\<rparr>"

definition trace_parser :: parser where
  "trace_parser =
     \<lparr>ap_options = [help_argument, (store [''--feature''] PNone)\<lparr>arg_required := True\<rparr>, store [''--repo-root''] PNone,
        \<lparr>arg_strings = [''--json''], arg_dest = ''as_json'', arg_action = StoreTrue, arg_default = PBool False, arg_required = False\<rparr>],
      ap_positional = None\<rparr>"

definition mcp_parser :: parser where
  "mcp_parser =
     \<lparr>ap_options = [help_argument, store [''--opa-url''] (PStr ''http://localhost:8181''),
        store [''--artifacts-dir''] (PStr ''specs/artifacts''), store [''--evidence-dir''] (PStr ''specs/evidence''),
        store [''--root''] (PStr ''.'')],
      ap_positional = None\<rparr>"

definition build_parser :: "parser \<times> parser dict" where
  "build_parser =
     (main_parser,
      [(''validate'', validate_parser), (''render'', render_parser), (''waiver'', waiver_parser),
       (''deploy-verify'', deploy_verify_parser), (''trace'', trace_parser), (''mcp'', mcp_parser)])"

section \<open>Dispatch\<close>

text \<open>The attributes of the namespace that a command reads.\<close>

definition str_attr :: "pydict \<Rightarrow> string \<Rightarrow> string" where
  "str_attr ns k = (case dget ns k of Some (PStr s) \<Rightarrow> s | _ \<Rightarrow> [])"

definition opt_attr :: "pydict \<Rightarrow> string \<Rightarrow> string option" where
  "opt_attr ns k = (case dget ns k of Some (PStr s) \<Rightarrow> Some s | _ \<Rightarrow> None)"

definition strs_attr :: "pydict \<Rightarrow> string \<Rightarrow> string list" where
  "strs_attr ns k = (case dget ns k of Some (PList vs) \<Rightarrow> map py_str vs | _ \<Rightarrow> [])"

definition command_of :: "string \<Rightarrow> pydict \<Rightarrow> command" where
  "command_of name ns =
     (if name = ''validate'' then Validate (strs_attr ns ''paths'')
      else if name = ''render'' then RenderFile (str_attr ns ''path'') (opt_attr ns ''output'')
      else if name = ''waiver'' then CheckWaiver (str_attr ns ''path'') (opt_attr ns ''now'')
      else if name = ''deploy-verify'' then DeployVerify
        \<lparr>da_path = str_attr ns ''path'', da_opa_url = str_attr ns ''opa_url'', da_bundle_version = str_attr ns ''bundle_version'',
         da_run_id = str_attr ns ''run_id'', da_now = opt_attr ns ''now'', da_output_dir = opt_attr ns ''output_dir'',
         da_bundle_id = str_attr ns ''bundle_id'', da_decision_id = str_attr ns ''decision_id'',
         da_actor_id = str_attr ns ''actor_id'', da_actor_role = str_attr ns ''actor_role''\<rparr>
      else if name = ''trace'' then TraceFeature (str_attr ns ''feature'') (opt_attr ns ''repo_root'') (dget ns ''as_json'' = Some (PBool True))
      else ServeMcp
        \<lparr>ma_opa_url = str_attr ns ''opa_url'', ma_artifacts_dir = str_attr ns ''artifacts_dir'',
         ma_evidence_dir = str_attr ns ''evidence_dir'', ma_root = str_attr ns ''root''\<rparr>)"

definition parse_command :: "string list \<Rightarrow> command outcome" where
  "parse_command argv =
     (case build_parser of (p, subs) \<Rightarrow> bindO (parse_args p subs argv) (\<lambda>(name, ns). Parsed (command_of name ns)))"

text \<open>
  The process, up to its exit status. \<open>argparse\<close> ends it before any command has run when the line asks
  for help, which goes to standard output, or cannot be read, which is reported on standard error;
  the wording is the argument \<open>wording\<close>.
\<close>

definition argparse_exit :: "(string list \<Rightarrow> string list) \<Rightarrow> string list \<Rightarrow> int \<Rightarrow> int cli" where
  "argparse_exit wording argv n =
     (\<lambda>c. (Inr n, if n = 0 then c\<lparr>cs_out := cs_out c @ wording argv\<rparr> else c\<lparr>cs_err := cs_err c @ wording argv\<rparr>))"

definition sdlc :: "(string list \<Rightarrow> string list) \<Rightarrow> cli_env \<Rightarrow> string list \<Rightarrow> int cli" where
  "sdlc wording env argv = (case parse_command argv of Exit n \<Rightarrow> argparse_exit wording argv n | Parsed c \<Rightarrow> main env c)"

section \<open>The first parser\<close>

lemmas parser_defs = main_parser_def validate_parser_def render_parser_def waiver_parser_def deploy_verify_parser_def
  trace_parser_def mcp_parser_def

lemma main_options: "option_strings main_parser = [(''-h'', help_argument), (''--help'', help_argument)]"
  by (simp add: option_strings_def main_parser_def help_argument_def)

lemma main_unambiguous: "parse_optional main_parser s \<noteq> None"
proof -
  have "length (option_tuples main_parser s) \<le> 1" if s: "starts_with ''-'' s" "length s \<noteq> 1"
  proof (cases "starts_with ''--'' s")
    case True
    then obtain r where "s = CHR ''-'' # CHR ''-'' # r" using starts_with_dashes by blast
    then have "\<not> starts_with (before_eq s) ''-h''" by (auto simp: before_eq_def starts_with_def)
    with True show ?thesis by (simp add: option_tuples_def main_options)
  next
    case False
    then have "\<not> starts_with s ''--help''" using s by (cases s; cases "tl s") (auto simp: starts_with_def)
    moreover have "''--help'' \<noteq> take 2 s" by (auto dest: arg_cong [of _ _ length])
    ultimately show ?thesis using False by (simp add: option_tuples_def main_options List.map_filter_simps)
  qed
  then have "(case option_tuples main_parser s of [] \<Rightarrow> Some Plain | [k] \<Rightarrow> Some k | _ \<Rightarrow> None) \<noteq> None"
    if "starts_with ''-'' s" "length s \<noteq> 1" using that by (auto split: list.split)
  then show ?thesis by (auto simp: parse_optional_def split: option.splits list.splits explicit.splits)
qed

lemma main_classifies: "\<exists>ts. classify main_parser argv = Some ts"
proof (induction argv)
  case (Cons s ss)
  then show ?case using main_unambiguous [of s] by auto
qed simp

lemma main_parser_passes_on:
  assumes "\<not> starts_with ''-'' name"
  shows "parse_known main_parser (name # rest)
     = Parsed \<lparr>pa_namespace = [], pa_seen = [], pa_values = Some (name # rest), pa_extras = False\<rparr>"
proof -
  obtain ts where ts: "classify main_parser rest = Some ts" using main_classifies by blast
  have c: "classify main_parser (name # rest) = Some ((name, Plain) # ts)"
    using assms ts by (auto simp: parse_optional_def starts_with_dash)
  have "positional_count Subcommand ((name, Plain) # ts) = Suc (length ts)"
    by (simp add: positional_count_def Let_def)
  then have "scan main_parser ((name, Plain) # ts) (initial_state main_parser)
     = Parsed \<lparr>pa_namespace = [], pa_seen = [], pa_values = Some (name # rest), pa_extras = False\<rparr>"
    using classify_texts [OF ts] by (simp add: main_parser_def initial_state_def help_argument_def positional_values_def take_positional_def Let_def)
  moreover have "complete main_parser \<lparr>pa_namespace = [], pa_seen = [], pa_values = Some (name # rest), pa_extras = False\<rparr>"
    by (simp add: complete_def main_parser_def help_argument_def)
  ultimately show ?thesis unfolding parse_known_def c by (simp del: scan.simps)
qed

lemma parse_command_sub:
  assumes "\<not> starts_with ''-'' name" "dget (snd build_parser) name = Some p"
  shows "parse_command (name # rest) = bindO (run_line p rest (initial_state p)) (\<lambda>st.
     if complete p st \<and> \<not> pa_extras st then Parsed (command_of name (namespace_of p st)) else Exit 2)"
proof -
  have b: "build_parser = (main_parser, snd build_parser)" by (simp add: build_parser_def)
  show ?thesis
    by (subst parse_command_def, subst b)
      (cases "run_line p rest (initial_state p)",
       simp_all add: parse_args_def parse_sub_def main_parser_passes_on [OF assms(1)] assms(2) parse_known_run [of p])
qed

section \<open>Command lines\<close>

text \<open>A line for every command: options with their values after \<open>=\<close>, then the separator and the paths.\<close>

definition opt_given :: "string \<Rightarrow> string option \<Rightarrow> string list" where
  "opt_given name v = (case v of None \<Rightarrow> [] | Some s \<Rightarrow> [given name s])"

fun command_line :: "command \<Rightarrow> string list" where
  "command_line (Validate paths) = ''validate'' # ''--'' # paths"
| "command_line (RenderFile p output) = ''render'' # opt_given ''--output'' output @ [''--'', p]"
| "command_line (CheckWaiver p now) = ''waiver'' # opt_given ''--now'' now @ [''--'', p]"
| "command_line (DeployVerify a) = ''deploy-verify'' # given ''--opa-url'' (da_opa_url a)
     # given ''--bundle-version'' (da_bundle_version a) # given ''--run-id'' (da_run_id a) # opt_given ''--now'' (da_now a)
     @ opt_given ''--output-dir'' (da_output_dir a) @ given ''--bundle-id'' (da_bundle_id a)
     # given ''--decision-id'' (da_decision_id a) # given ''--actor-id'' (da_actor_id a) # given ''--actor-role'' (da_actor_role a)
     # [''--'', da_path a]"
| "command_line (TraceFeature feature repo_root as_json) =
     ''trace'' # given ''--feature'' feature # opt_given ''--repo-root'' repo_root @ (if as_json then [''--json''] else [])"
| "command_line (ServeMcp a) = [''mcp'', given ''--opa-url'' (ma_opa_url a), given ''--artifacts-dir'' (ma_artifacts_dir a),
     given ''--evidence-dir'' (ma_evidence_dir a), given ''--root'' (ma_root a)]"

definition complete_command :: "command \<Rightarrow> bool" where
  "complete_command c \<longleftrightarrow> (\<forall>paths. c = Validate paths \<longrightarrow> paths \<noteq> [])"

lemma run_opt_given:
  "value_option p name a \<Longrightarrow>
   run_line p (opt_given name v @ ss) st = run_line p ss (case v of None \<Rightarrow> st | Some s \<Rightarrow> stored_option a (PStr s) st)"
  by (simp add: opt_given_def run_given split: option.split)

lemma store_simps [simp]:
  "arg_strings (store names v) = names" "arg_dest (store names v) = dest_of names" "arg_action (store names v) = Store"
  "arg_default (store names v) = v" "arg_required (store names v) = False" "takes_value (store names v)"
  by (simp_all add: store_def takes_value_def)

lemma help_simps [simp]:
  "arg_strings help_argument = [''-h'', ''--help'']" "arg_action help_argument = Help" "arg_required help_argument = False"
  by (simp_all add: help_argument_def)

lemma dests [simp]:
  "dest_of [''-o'', ''--output''] = ''output''" "dest_of [''--now''] = ''now''" "dest_of [''--opa-url''] = ''opa_url''"
  "dest_of [''--bundle-version''] = ''bundle_version''" "dest_of [''--run-id''] = ''run_id''" "dest_of [''--output-dir''] = ''output_dir''"
  "dest_of [''--bundle-id''] = ''bundle_id''" "dest_of [''--decision-id''] = ''decision_id''" "dest_of [''--actor-id''] = ''actor_id''"
  "dest_of [''--actor-role''] = ''actor_role''" "dest_of [''--feature''] = ''feature''" "dest_of [''--repo-root''] = ''repo_root''"
  "dest_of [''--artifacts-dir''] = ''artifacts_dir''" "dest_of [''--evidence-dir''] = ''evidence_dir''" "dest_of [''--root''] = ''root''"
  by (simp_all add: dest_of_def starts_with_def replace_char_def Let_def)

lemma value_options:
  "value_option render_parser ''--output'' (store [''-o'', ''--output''] PNone)"
  "value_option waiver_parser ''--now'' (store [''--now''] PNone)"
  "value_option deploy_verify_parser ''--opa-url'' (store [''--opa-url''] (PStr ''http://localhost:8181''))"
  "value_option deploy_verify_parser ''--bundle-version'' (store [''--bundle-version''] (PStr ''unknown''))"
  "value_option deploy_verify_parser ''--run-id'' (store [''--run-id''] (PStr ''RUN-deploy-verify''))"
  "value_option deploy_verify_parser ''--now'' (store [''--now''] PNone)"
  "value_option deploy_verify_parser ''--output-dir'' (store [''--output-dir''] PNone)"
  "value_option deploy_verify_parser ''--bundle-id'' (store [''--bundle-id''] (PStr ''EB-0001''))"
  "value_option deploy_verify_parser ''--decision-id'' (store [''--decision-id''] (PStr ''PD-0001''))"
  "value_option deploy_verify_parser ''--actor-id'' (store [''--actor-id''] (PStr ''deploy-verify''))"
  "value_option deploy_verify_parser ''--actor-role'' (store [''--actor-role''] (PStr ''release-approver''))"
  "value_option trace_parser ''--feature'' ((store [''--feature''] PNone)\<lparr>arg_required := True\<rparr>)"
  "value_option trace_parser ''--repo-root'' (store [''--repo-root''] PNone)"
  "value_option mcp_parser ''--opa-url'' (store [''--opa-url''] (PStr ''http://localhost:8181''))"
  "value_option mcp_parser ''--artifacts-dir'' (store [''--artifacts-dir''] (PStr ''specs/artifacts''))"
  "value_option mcp_parser ''--evidence-dir'' (store [''--evidence-dir''] (PStr ''specs/evidence''))"
  "value_option mcp_parser ''--root'' (store [''--root''] (PStr ''.''))"
  by (simp_all add: value_option_def find_option_def option_strings_def parser_defs starts_with_def, simp_all add: takes_value_def)

lemmas run_options = value_options [THEN run_given] value_options [THEN run_opt_given]

lemma sub_parsers:
  "dget (snd build_parser) ''validate'' = Some validate_parser" "dget (snd build_parser) ''render'' = Some render_parser"
  "dget (snd build_parser) ''waiver'' = Some waiver_parser" "dget (snd build_parser) ''deploy-verify'' = Some deploy_verify_parser"
  "dget (snd build_parser) ''trace'' = Some trace_parser" "dget (snd build_parser) ''mcp'' = Some mcp_parser"
  by (simp_all add: build_parser_def)

lemma command_names:
  "\<not> starts_with ''-'' ''validate''" "\<not> starts_with ''-'' ''render''" "\<not> starts_with ''-'' ''waiver''"
  "\<not> starts_with ''-'' ''deploy-verify''" "\<not> starts_with ''-'' ''trace''" "\<not> starts_with ''-'' ''mcp''"
  by (simp_all add: starts_with_def)

lemmas parse_commands = parse_command_sub [OF command_names(1) sub_parsers(1)] parse_command_sub [OF command_names(2) sub_parsers(2)]
  parse_command_sub [OF command_names(3) sub_parsers(3)] parse_command_sub [OF command_names(4) sub_parsers(4)]
  parse_command_sub [OF command_names(5) sub_parsers(5)] parse_command_sub [OF command_names(6) sub_parsers(6)]

text \<open>What a parser's final state amounts to.\<close>

lemmas parsed_defs = complete_def namespace_of_def positional_entry_def initial_state_def stored_option_def command_of_def
  str_attr_def opt_attr_def strs_attr_def

lemma positionals [simp]:
  "ap_positional validate_parser = Some (''paths'', OneOrMore)" "ap_positional render_parser = Some (''path'', Single)"
  "ap_positional waiver_parser = Some (''path'', Single)" "ap_positional deploy_verify_parser = Some (''path'', Single)"
  by (simp_all add: parser_defs)

lemma stored_values [simp]: "pa_values (stored_option a v st) = pa_values st" "pa_values (initial_state p) = None"
  by (simp_all add: stored_option_def initial_state_def)

lemma validate_line: "paths \<noteq> [] \<Longrightarrow> parse_command (command_line (Validate paths)) = Parsed (Validate paths)"
  by (simp add: parse_commands run_separated_many)
    (simp add: parsed_defs validate_parser_def comp_def)

lemma render_line: "parse_command (command_line (RenderFile p target)) = Parsed (RenderFile p target)"
  by (cases target; simp add: parse_commands run_options run_separated_single)
    (simp_all add: parsed_defs render_parser_def)

lemma waiver_line: "parse_command (command_line (CheckWaiver p now)) = Parsed (CheckWaiver p now)"
  by (cases now; simp add: parse_commands run_options run_separated_single)
    (simp_all add: parsed_defs waiver_parser_def)

lemma deploy_verify_line: "parse_command (command_line (DeployVerify a)) = Parsed (DeployVerify a)"
  by (cases "da_now a"; cases "da_output_dir a"; simp add: parse_commands run_options run_separated_single)
    (simp_all add: parsed_defs deploy_verify_parser_def)

lemma json_flag: "run_line trace_parser (''--json'' # ss) st = run_line trace_parser ss
    (stored_option \<lparr>arg_strings = [''--json''], arg_dest = ''as_json'', arg_action = StoreTrue, arg_default = PBool False, arg_required = False\<rparr> (PBool True) st)"
  by (rule run_flag) (simp_all add: find_option_def option_strings_def trace_parser_def starts_with_def)

lemma trace_line: "parse_command (command_line (TraceFeature feature repo_root as_json)) = Parsed (TraceFeature feature repo_root as_json)"
  by (cases repo_root; cases as_json; simp add: parse_commands run_options json_flag opt_given_def)
    (simp_all add: parsed_defs trace_parser_def)

lemma mcp_line: "parse_command (command_line (ServeMcp a)) = Parsed (ServeMcp a)"
  by (simp add: parse_commands run_options) (simp add: parsed_defs mcp_parser_def)

lemma command_line_complete: "complete_command cmd \<Longrightarrow> parse_command (command_line cmd) = Parsed cmd"
  by (cases cmd) (simp_all only: complete_command_def validate_line render_line waiver_line deploy_verify_line trace_line mcp_line
      simp_thms command.inject)

section \<open>What a parsed command is\<close>

lemma parse_args_Parsed:
  assumes "parse_args p subs argv = Parsed (name, ns)"
  obtains sub rest st where "dget subs name = Some sub" "parse_known sub rest = Parsed st" "ns = namespace_of sub st"
proof -
  from assms obtain st where st: "parse_sub subs st = Parsed (name, ns)" by (auto simp: parse_args_def bindO_Parsed)
  then obtain first rest where v: "pa_values st = Some (first # rest)" by (auto simp: parse_sub_def split: option.splits list.splits)
  with st obtain sub where "dget subs first = Some sub" by (auto simp: parse_sub_def split: option.splits)
  with st v that show ?thesis by (auto simp: parse_sub_def bindO_Parsed split: if_splits)
qed

lemma command_of_Validate: "command_of name ns = Validate paths \<Longrightarrow> name = ''validate'' \<and> paths = strs_attr ns ''paths''"
  by (simp add: command_of_def split: if_splits)

lemma parsed_complete:
  assumes "parse_command argv = Parsed cmd"
  shows "complete_command cmd"
  unfolding complete_command_def
proof (intro allI impI)
  fix paths assume cmd: "cmd = Validate paths"
  from assms obtain name ns where n: "parse_args main_parser (snd build_parser) argv = Parsed (name, ns)" "cmd = command_of name ns"
    by (auto simp: parse_command_def bindO_Parsed split: prod.splits) (simp add: build_parser_def)
  from n(2) cmd have v: "name = ''validate''" "paths = strs_attr ns ''paths''" using command_of_Validate by metis+
  from n(1) obtain rest st where st: "parse_known validate_parser rest = Parsed st" "ns = namespace_of validate_parser st"
    unfolding v(1) by (rule parse_args_Parsed) (simp add: sub_parsers)
  from st(1) have "complete validate_parser st" by (auto simp: parse_known_def bindO_Parsed split: option.splits if_splits)
  then obtain vs where "pa_values st = Some vs" by (auto simp: complete_def)
  moreover from this parse_known_values [OF st(1)] have "vs \<noteq> []" by auto
  ultimately show "paths \<noteq> []"
    by (simp add: v(2) st(2) namespace_of_def positional_entry_def strs_attr_def)
qed

text \<open>
  C22: every command can be typed, and every line that is accepted is a command that can be typed. For each
  command, with whatever texts as its arguments (empty, with spaces, starting with a dash), there
  is a command line that the parser reads as exactly this command; the one exception is
  \<open>validate\<close> without paths, which no line stands for.
\<close>

theorem command_line_reads_back:
  "(parse_command (command_line cmd) = Parsed cmd \<longleftrightarrow> complete_command cmd)
   \<and> ((\<exists>argv. parse_command argv = Parsed cmd) \<longleftrightarrow> complete_command cmd)"
  using command_line_complete parsed_complete by blast

section \<open>The exit status\<close>

lemma help_only_parsers: "help_only main_parser" "list_all (\<lambda>(name, p). help_only p) (snd build_parser)"
  by (simp_all add: help_only_def build_parser_def option_strings_def parser_defs starts_with_def takes_value_def)

lemma parse_args_Exit:
  assumes "parse_args p subs argv = Exit n" "help_only p" "list_all (\<lambda>(name, p). help_only p) subs"
  shows "n = 2 \<or> n = 0 \<and> (\<exists>s \<in> set argv. asks_help s)"
proof (cases "parse_known p argv")
  case (Exit m)
  then show ?thesis using assms(1,2) parse_known_Exit [of p argv m] by (simp add: parse_args_def)
next
  case (Parsed st)
  from assms(1) consider "n = 2"
    | name vs sub where "pa_values st = Some (name # vs)" "dget subs name = Some sub" "parse_known sub vs = Exit n"
    by (cases "pa_values st"; cases "the (pa_values st)")
      (auto simp: parse_args_def parse_sub_def Parsed bindO_Exit split: option.splits if_splits)
  then show ?thesis
  proof cases
    case (2 name vs sub)
    have "help_only sub" using map_of_SomeD [OF 2(2)] assms(3) by (auto simp: list_all_iff)
    from parse_known_Exit [OF 2(3) this] parse_known_from_line [OF Parsed 2(1)] show ?thesis by auto
  qed simp
qed

lemma parse_command_Exit:
  assumes "parse_command argv = Exit n"
  shows "n = 2 \<or> n = 0 \<and> (\<exists>s \<in> set argv. asks_help s)"
proof -
  have b: "build_parser = (main_parser, snd build_parser)" by (simp add: build_parser_def)
  have "parse_args main_parser (snd build_parser) argv = Exit n"
    using assms unfolding parse_command_def by (subst (asm) b) (auto simp: bindO_Exit)
  then show ?thesis using parse_args_Exit help_only_parsers by blast
qed

text \<open>
  C21: the process never reports success without having done its work. Its exit status is that of one
  command, run on arguments that are complete, or it ends before any command with the world
  unchanged: then the status is 2 and standard output is unchanged, or it is 0 and some argument
  asks for the help text.
\<close>

theorem process_status:
  "case parse_command argv of
     Parsed cmd \<Rightarrow> complete_command cmd \<and> sdlc wording env argv c = main env cmd c
   | Exit n \<Rightarrow> (\<exists>c'. sdlc wording env argv c = (Inr n, c') \<and> cs_world c' = cs_world c
       \<and> (n = 2 \<and> cs_out c' = cs_out c \<or> n = 0 \<and> list_ex asks_help argv))"
  using parsed_complete [of argv] parse_command_Exit [of argv]
  by (auto simp: sdlc_def argparse_exit_def list_ex_iff split: outcome.split)

text \<open>
  C23: the validation gate, from the arguments of the process to its exit status. For arguments that do not
  start with a dash, \<open>sdlc validate\<close> changes nothing; when it returns, its status is 2 without paths, 0 if
  every path named is a file whose document meets its schema, and 1 otherwise, and it has printed
  one line for each valid path, in the order of the arguments.
\<close>

theorem validate_process_status:
  assumes "sdlc wording env (''validate'' # paths) c = (Inr code, c')" "list_all (\<lambda>s. \<not> starts_with ''-'' s) paths"
  shows "if paths = [] then code = 2 \<and> cs_world c' = cs_world c \<and> cs_out c' = cs_out c
     else \<exists>root. find_repo_root (w_fs (cs_world c)) (se_module_file (ce_schema env)) = Inr root
       \<and> code = (if list_all (path_valid env root (w_fs (cs_world c))) paths then 0 else 1)
       \<and> cs_world c' = cs_world c
       \<and> cs_out c' = cs_out c @ map ok_line (filter (path_valid env root (w_fs (cs_world c))) paths)"
proof (cases "paths = []")
  case True
  then show ?thesis
    using assms(1) by (simp add: sdlc_def parse_commands) (auto simp: complete_def argparse_exit_def)
next
  case False
  have "parse_command (''validate'' # paths) = Parsed (Validate paths)"
    using False assms(2) by (simp add: parse_commands run_plain_many) (simp add: parsed_defs validate_parser_def comp_def)
  then have "cmd_validate env paths c = (Inr code, c')" using assms(1) by (simp add: sdlc_def)
  from validate_exit_code [OF this] False show ?thesis by simp
qed

end
