(* ===== verification/JsonLayout.thy ===== *)
theory JsonLayout
  imports Json
begin

text \<open>
  JSON texts with white space: the relation \<open>spelled\<close> holds between a value and every text that spells
  it, with any white space around its separators and brackets. The reader returns the value for each of
  its spellings, so a printer that lays a document out is read back whatever its layout.
\<close>

section \<open>Spellings\<close>

definition blank :: "string \<Rightarrow> bool" where
  "blank w \<longleftrightarrow> list_all is_ws w"

fun is_atom :: "pyval \<Rightarrow> bool" where
  "is_atom (PList _) = False"
| "is_atom (PDict _) = False"
| "is_atom _ = True"

inductive spelled :: "pyval \<Rightarrow> string \<Rightarrow> bool"
  and spelled_elems :: "pyval list \<Rightarrow> string \<Rightarrow> bool"
  and spelled_members :: "(string \<times> pyval) list \<Rightarrow> string \<Rightarrow> bool" where
  atom: "is_atom v \<Longrightarrow> \<not> sort_keys opts \<Longrightarrow> printable opts v \<Longrightarrow> spelled v (json_dumps opts v)"
| no_elems: "blank w \<Longrightarrow> spelled (PList []) (CHR ''['' # w @ '']'')"
| elems: "blank w \<Longrightarrow> spelled_elems xs s \<Longrightarrow> spelled (PList xs) (CHR ''['' # w @ s)"
| no_members: "blank w \<Longrightarrow> spelled (PDict []) (CHR ''{'' # w @ ''}'')"
| members: "blank w \<Longrightarrow> spelled_members d s \<Longrightarrow> dict_wf d \<Longrightarrow> spelled (PDict d) (CHR ''{'' # w @ s)"
| last_elem: "spelled x s \<Longrightarrow> blank w \<Longrightarrow> spelled_elems [x] (s @ w @ '']'')"
| more_elems: "spelled x s \<Longrightarrow> blank w \<Longrightarrow> blank w' \<Longrightarrow> spelled_elems xs t \<Longrightarrow>
    spelled_elems (x # xs) (s @ w @ CHR '','' # w' @ t)"
| last_member: "str_ok opts k \<Longrightarrow> blank w \<Longrightarrow> blank w' \<Longrightarrow> spelled v s \<Longrightarrow> blank w'' \<Longrightarrow>
    spelled_members [(k, v)] (esc_str opts k @ w @ CHR '':'' # w' @ s @ w'' @ ''}'')"
| more_members: "str_ok opts k \<Longrightarrow> blank w \<Longrightarrow> blank w' \<Longrightarrow> spelled v s \<Longrightarrow> blank w'' \<Longrightarrow> blank w''' \<Longrightarrow>
    spelled_members d t \<Longrightarrow>
    spelled_members ((k, v) # d) (esc_str opts k @ w @ CHR '':'' # w' @ s @ w'' @ CHR '','' # w''' @ t)"

section \<open>Reading a spelling\<close>

lemma skip_blank: "blank w \<Longrightarrow> skip_ws (w @ s) = skip_ws s"
  by (induction w) (auto simp: blank_def skip_ws_def)

lemma skip_delim: "\<not> is_ws c \<Longrightarrow> skip_ws (c # s) = c # s"
  by (simp add: skip_ws_def)

lemma delims [simp]: "\<not> is_ws CHR '']''" "\<not> is_ws CHR ''}''" "\<not> is_ws CHR '',''" "\<not> is_ws CHR '':''" "\<not> is_ws quote2"
  by (simp_all add: is_ws_def)

lemma ws_stops: "is_ws c \<Longrightarrow> stops (c # s)"
  by (auto simp: is_ws_def stops_def is_digit_def)

lemma blank_stops: "blank w \<Longrightarrow> stops s \<Longrightarrow> stops (w @ s)"
  by (cases w) (auto simp: blank_def intro: ws_stops)

lemma spelled_heads:
  "spelled v s \<Longrightarrow> \<exists>c t. s = c # t \<and> plain_head c"
  "spelled_elems xs s \<Longrightarrow> \<exists>c t. s = c # t \<and> plain_head c"
  "spelled_members d s \<Longrightarrow> \<exists>t. s = quote2 # t"
proof (induction rule: spelled_spelled_elems_spelled_members.inducts)
  case (atom v opts)
  then show ?case using json_dumps_head by blast
qed (auto simp: plain_head_def is_ws_def esc_str_def)

lemma skip_spelled: "spelled v s \<Longrightarrow> skip_ws (s @ r) = s @ r"
  using spelled_heads(1) [of v s] by (auto simp: skip_ws_plain)

lemma skip_elems: "spelled_elems xs s \<Longrightarrow> skip_ws (s @ r) = s @ r"
  using spelled_heads(2) [of xs s] by (auto simp: skip_ws_plain)

lemma skip_members: "spelled_members d s \<Longrightarrow> skip_ws (s @ r) = s @ r"
  using spelled_heads(3) [of d s] by (auto simp: skip_delim)

lemma scan_list_of_elems:
  assumes "blank w" "spelled_elems xs s" "scan_elems f (s @ r) = SOk xs r"
  shows "scan_value (Suc f) (CHR ''['' # w @ s @ r) = SOk (PList xs) r"
proof -
  obtain c t where c: "s = c # t" "plain_head c" using spelled_heads(2) [OF assms(2)] by blast
  then have "skip_ws (w @ s @ r) = c # t @ r" using assms(1) by (simp add: skip_blank skip_ws_plain)
  moreover have "c \<noteq> CHR '']''" using c(2) by (simp add: plain_head_def)
  ultimately show ?thesis using assms(3) c(1) by simp
qed

lemma scan_dict_of_members:
  assumes "blank w" "spelled_members d s" "dict_wf d" "scan_members f (s @ r) = SOk d r"
  shows "scan_value (Suc f) (CHR ''{'' # w @ s @ r) = SOk (PDict d) r"
proof -
  obtain t where t: "s = quote2 # t" using spelled_heads(3) [OF assms(2)] by blast
  then have "skip_ws (w @ s @ r) = quote2 # t @ r" using assms(1) by (simp add: skip_blank skip_delim)
  then show ?thesis using assms(3,4) t by (simp add: dupdate_id)
qed

lemma scan_member_of:
  assumes "str_ok opts k" "blank w" "blank w'" "spelled v s" "scan_value f (s @ q) = SOk v q"
  shows "scan_members (Suc f) (esc_str opts k @ w @ CHR '':'' # w' @ s @ q) =
     (case skip_ws q of
        [] \<Rightarrow> SErr JSONDecodeError
      | x # r3 \<Rightarrow>
          (if x = CHR ''}'' then SOk [(k, v)] r3
           else if x = CHR '','' then bindS (scan_members f (skip_ws r3)) (\<lambda>ps q. SOk ((k, v) # ps) q)
           else SErr JSONDecodeError))"
proof -
  have "expect CHR '':'' (skip_ws (w @ CHR '':'' # w' @ s @ q)) = SOk () (w' @ s @ q)"
    using assms(2) by (simp add: skip_blank skip_delim expect_def)
  moreover have "skip_ws (w' @ s @ q) = s @ q" using assms(3,4) by (simp add: skip_blank skip_spelled)
  ultimately show ?thesis using assms(1,5) by (simp add: scan_key_str_ok)
qed

lemma scan_spelled:
  "spelled v s \<Longrightarrow> stops r \<Longrightarrow> ev (\<lambda>f. scan_value f (s @ r) = SOk v r)"
  "spelled_elems xs s \<Longrightarrow> ev (\<lambda>f. scan_elems f (s @ r) = SOk xs r)"
  "spelled_members d s \<Longrightarrow> ev (\<lambda>f. scan_members f (s @ r) = SOk d r)"
proof (induction arbitrary: r and r and r rule: spelled_spelled_elems_spelled_members.inducts)
  case (atom v opts)
  then show ?case using scan_dumps(1) by blast
next
  case (no_elems w)
  then show ?case by (intro ev_all) (simp add: skip_blank skip_delim)
next
  case (elems w xs s)
  from elems.IH [of r] show ?case by (rule ev_step) (simp add: scan_list_of_elems [OF elems.hyps] del: scan_value.simps)
next
  case (no_members w)
  then show ?case by (intro ev_all) (simp add: skip_blank skip_delim)
next
  case (members w d s)
  from members.IH [of r] show ?case by (rule ev_step) (simp add: scan_dict_of_members [OF members.hyps] del: scan_value.simps)
next
  case (last_elem x s w)
  have "ev (\<lambda>f. scan_value f (s @ w @ CHR '']'' # r) = SOk x (w @ CHR '']'' # r))"
    by (rule last_elem.IH) (simp add: blank_stops last_elem.hyps)
  then show ?case by (rule ev_step) (simp add: skip_blank skip_delim last_elem.hyps)
next
  case (more_elems x s w w' xs t)
  have "ev (\<lambda>f. scan_value f (s @ w @ CHR '','' # w' @ t @ r) = SOk x (w @ CHR '','' # w' @ t @ r))"
    by (rule more_elems.IH(1)) (simp add: blank_stops more_elems.hyps)
  then show ?case using more_elems.IH(2) [of r]
    by (rule ev_step2) (simp add: skip_blank skip_delim skip_elems [OF more_elems.hyps(4)] more_elems.hyps)
next
  case (last_member opts k w w' v s w'')
  have "ev (\<lambda>f. scan_value f (s @ w'' @ CHR ''}'' # r) = SOk v (w'' @ CHR ''}'' # r))"
    by (rule last_member.IH) (simp add: blank_stops last_member.hyps)
  then show ?case
    by (rule ev_step) (simp add: scan_member_of [OF last_member.hyps(1-4)] last_member.hyps(5) skip_blank skip_delim del: scan_members.simps)
next
  case (more_members opts k w w' v s w'' w''' d t)
  have "ev (\<lambda>f. scan_value f (s @ w'' @ CHR '','' # w''' @ t @ r) = SOk v (w'' @ CHR '','' # w''' @ t @ r))"
    by (rule more_members.IH(1)) (simp add: blank_stops more_members.hyps)
  then show ?case using more_members.IH(2) [of r]
    by (rule ev_step2) (simp add: scan_member_of [OF more_members.hyps(1-4)] more_members.hyps(5,6) skip_blank skip_delim
      skip_members [OF more_members.hyps(7)] del: scan_members.simps)
qed

lemma json_decode_spelled:
  assumes "spelled v s" "blank w"
  shows "json_decode (s @ w) = Inr v"
proof -
  let ?s = "s @ w" and ?f = "2 * length (s @ w) + 1"
  have "stops w" using blank_stops [OF assms(2), of "[]"] by (simp add: stops_def)
  then obtain N where N: "\<And>g. g \<ge> N \<Longrightarrow> scan_value g ?s = SOk v w" using scan_spelled(1) [OF assms(1)] by (auto simp: ev_def)
  have skip: "skip_ws ?s = ?s" using skip_spelled [OF assms(1)] .
  have "scan_value (max ?f N) ?s = scan_value ?f ?s"
    using scan_value_fuel [of ?s] unfolding skip by (intro scan_value_mono) simp_all
  then have "scan_value ?f ?s = SOk v w" using N [of "max ?f N"] by simp
  moreover have "skip_ws w = []" using skip_blank [OF assms(2), of "[]"] by (simp add: skip_ws_def)
  ultimately show ?thesis unfolding json_decode_def skip by simp
qed

text \<open>Whatever the layout, \<open>json.loads\<close> returns the value that a text spells.\<close>

theorem json_loads_spelled:
  assumes "spelled v s" "blank w"
  shows "json_loads (s @ w) = Inr v"
proof -
  obtain c t where s: "s = c # t" "plain_head c" using spelled_heads(1) [OF assms(1)] by blast
  then have "\<not> starts_with bom (s @ w)" by (auto simp: plain_head_def starts_with_def bom_def)
  then show ?thesis using json_decode_spelled [OF assms] by (simp add: json_loads_def)
qed

end
