(* ===== verification/ReleaseFiles.thy ===== *)
theory ReleaseFiles
  imports Cli JsonLayout
begin

text \<open>
  The files that \<open>sdlc deploy-verify --output-dir\<close> leaves behind (\<open>cli.py\<close>): the evidence bundle and the
  policy decision, printed with indentation. They are spellings in the sense of \<open>JsonLayout\<close>, so the
  reader of the schema registry gets back exactly what was verified.
\<close>

section \<open>The indented printer spells its value\<close>

lemma blank_indent: "blank (indent n)"
  by (auto simp: blank_def indent_def list_all_iff is_ws_def)

lemma blank_simps [simp]: "blank []" "blank '' ''" "blank [newline]"
  by (simp_all add: blank_def is_ws_def)

lemma unicode_opts [simp]: "\<not> sort_keys opts_unicode" "\<not> ensure_ascii opts_unicode"
  by (simp_all add: opts_unicode_def)

lemma indent_valid: "valid_str (indent n)" "valid_str ('','' @ indent n)"
  by (auto intro!: valid_str_ascii simp: indent_def is_ascii_def list_all_iff)

lemma pretty_spelled:
  "printable opts_unicode v \<Longrightarrow> spelled v (pretty n v)"
  "printables opts_unicode xs \<Longrightarrow> xs \<noteq> [] \<Longrightarrow> blank w \<Longrightarrow> spelled_elems xs (join ('','' @ indent n) (pretty_items n xs) @ w @ '']'')"
  "printable_pairs opts_unicode d \<Longrightarrow> d \<noteq> [] \<Longrightarrow> blank w \<Longrightarrow> spelled_members d (join ('','' @ indent n) (pretty_pairs n d) @ w @ ''}'')"
proof (induction n v and n xs and n d arbitrary: and w and w rule: pretty_pretty_items_pretty_pairs.induct)
  case (1 n xs)
  then show ?case
    using elems [OF blank_indent [of "n + 1"] 1(1) [of "indent n"]] no_elems [of "[]"] by (auto simp: blank_indent)
next
  case (2 n d)
  then show ?case
    using members [OF blank_indent [of "n + 1"] 2(1) [of "indent n"]] no_members [of "[]"] by (auto simp: blank_indent)
next
  case (5 n x xs)
  then show ?case
    using last_elem [of x "pretty n x" w] more_elems [of x "pretty n x" "[]" "indent n" xs]
    by (cases xs) (auto simp: join_Cons blank_indent)
next
  case (7 n k v d)
  then show ?case
    using last_member [of opts_unicode k "[]" "'' ''" v "pretty n v" w]
      more_members [of opts_unicode k "[]" "'' ''" v "pretty n v" "[]" "indent n" d]
    by (cases d) (auto simp: join_Cons blank_indent split: prod.splits)
qed (simp_all add: atom del: json_dumps.simps)

lemma pretty_valid:
  "wf_val v \<Longrightarrow> printable opts_unicode v \<Longrightarrow> valid_str (pretty n v)"
  "wf_vals xs \<Longrightarrow> printables opts_unicode xs \<Longrightarrow> list_all valid_str (pretty_items n xs)"
  "wf_pairs d \<Longrightarrow> printable_pairs opts_unicode d \<Longrightarrow> list_all valid_str (pretty_pairs n d)"
proof (induction n v and n xs and n d rule: pretty_pretty_items_pretty_pairs.induct)
  case (1 n xs)
  then show ?case
    by (auto simp: indent_valid list_all_iff simp del: append_Cons append_Nil intro!: valid_str_append valid_str_join) (simp_all add: valid_str_ascii)
next
  case (2 n d)
  then show ?case
    by (auto simp: indent_valid list_all_iff simp del: append_Cons append_Nil intro!: valid_str_append valid_str_join) (simp_all add: valid_str_ascii)
next
  case (7 n k v d)
  then show ?case by (auto simp: valid_esc_str valid_str_ascii simp del: append_Cons append_Nil intro!: valid_str_append)
qed (simp_all add: valid_dumps(1) del: json_dumps.simps)

section \<open>Reading the files\<close>

text \<open>Both documents hold texts, lists and dictionaries only, with every key once.\<close>

lemma mapR_all: "mapR f xs = Inr ys \<Longrightarrow> (\<And>x y. f x = Inr y \<Longrightarrow> P y) \<Longrightarrow> list_all P ys"
  by (induction xs arbitrary: ys) (auto simp: bindR_eq_Inr)

lemma printables_iff: "printables opts xs \<longleftrightarrow> list_all (printable opts) xs"
  by (induction xs) auto

lemma texts_printable [simp]: "printables opts_unicode (map PStr ss)"
  by (induction ss) (simp_all add: str_ok_def)

lemma bundle_item_printable: "bundle_item kind ref v = Inr item \<Longrightarrow> printable opts_unicode item"
  by (auto simp: bundle_item_def bindR_eq_Inr str_ok_def dict_wf_def)

lemma items_printable: "collect_items d = Inr items \<Longrightarrow> printables opts_unicode items"
  unfolding collect_items_def bindR_eq_Inr printables_iff
  by (auto simp: bindR_eq_Inr elim!: mapR_all) (erule bundle_item_printable)+

lemma release_printable:
  assumes "verify_release env fs policy cand bid did t actor rid root = Inr v" "printable opts_unicode (PDict actor)"
  shows "printable opts_unicode (PDict (rv_bundle v)) \<and> printable opts_unicode (PDict (rv_decision v))"
  using assms
  by (auto simp: verify_release_def build_evidence_bundle_def build_deployment_decision_def build_policy_decision_def Let_def
      bindR_eq_Inr str_ok_def dict_wf_def items_printable)

lemma asked_printable:
  "release_asked env a fs v \<Longrightarrow> printable opts_unicode (PDict (rv_bundle v)) \<and> printable opts_unicode (PDict (rv_decision v))"
  by (auto simp del: printable.simps simp: release_asked_def dest!: release_printable) (simp_all add: str_ok_def dict_wf_def)

lemma read_pretty:
  assumes "read_bytes fs p = Inr (pretty 0 (PDict d) @ [newline])" "printable opts_unicode (PDict d)" "wf_val (PDict d)"
    and "\<not> has_surrogate (pretty 0 (PDict d) @ [newline])"
  shows "read_json fs p = Inr (PDict d)"
proof -
  note d = assms(2,3)
  have "valid_str (pretty 0 (PDict d) @ [newline])"
    by (intro valid_str_append pretty_valid(1) d) (simp add: valid_str_ascii)
  moreover have "json_loads (pretty 0 (PDict d) @ [newline]) = Inr (PDict d)"
    by (rule json_loads_spelled [OF pretty_spelled(1) [OF d(1)]]) simp
  ultimately show ?thesis using assms(1,4) by (simp add: read_json_def)
qed

lemma write_bytes_os_path: "write_bytes fs p data = Inr fs' \<Longrightarrow> os_path fs p' = Inr r \<Longrightarrow> os_path fs' p' = Inr r"
  by (erule write_bytes_cases) (auto intro: os_path_update)

lemma write_bytes_keeps:
  assumes "write_bytes fs p data = Inr fs'" "read_bytes fs p' = Inr b" "os_path fs' p' \<noteq> os_path fs' p"
  shows "read_bytes fs' p' = Inr b"
proof (rule read_other [OF assms(1,2)])
  obtain q where q: "os_path fs p = Inr q" "os_path fs' p = Inr q" using assms(1) by (rule write_bytes_cases)
  then show "os_path fs p' \<noteq> os_path fs p" using assms(3) write_bytes_os_path [OF assms(1), of p' q] by auto
qed

lemma write_text_keeps:
  assumes "write_text p text c = (Inr u, c')" "read_bytes (w_fs (cs_world c)) p' = Inr b"
    and "os_path (w_fs (cs_world c')) p' \<noteq> os_path (w_fs (cs_world c')) p"
  shows "read_bytes (w_fs (cs_world c')) p' = Inr b"
proof -
  from assms(1) obtain fs1 where w: "write_bytes (w_fs (cs_world c)) p [] = Inr fs1" "write_bytes fs1 p text = Inr (w_fs (cs_world c'))"
    by (auto simp: write_text_def bindC_Inr updateC_Inr)
  have "os_path fs1 p' \<noteq> os_path fs1 p"
  proof
    assume same: "os_path fs1 p' = os_path fs1 p"
    obtain q where "os_path fs1 p = Inr q" using w(2) by (rule write_bytes_cases)
    then show False using assms(3) same write_bytes_os_path [OF w(2)] by metis
  qed
  from write_bytes_keeps [OF w(2) write_bytes_keeps [OF w(1) assms(2) this] assms(3)] show ?thesis .
qed

lemma write_text_no_surrogate: "write_text p text c = (Inr u, c') \<Longrightarrow> \<not> has_surrogate text"
  by (auto simp: write_text_def bindC_Inr)

lemma written_release_reads_back:
  assumes "write_release dir v c = (Inr u, c')" "wf_val (PDict (rv_bundle v))" "wf_val (PDict (rv_decision v))"
    and "printable opts_unicode (PDict (rv_bundle v)) \<and> printable opts_unicode (PDict (rv_decision v))"
    and "os_path (w_fs (cs_world c')) (dir @ [''evidence-bundle.json'']) \<noteq> os_path (w_fs (cs_world c')) (dir @ [''policy-decision.json''])"
  shows "read_json (w_fs (cs_world c')) (dir @ [''evidence-bundle.json'']) = Inr (PDict (rv_bundle v))
    \<and> read_json (w_fs (cs_world c')) (dir @ [''policy-decision.json'']) = Inr (PDict (rv_decision v))"
proof -
  from assms(1) obtain c1 c2 where
      b: "write_text (dir @ [''evidence-bundle.json'']) (pretty 0 (PDict (rv_bundle v)) @ [newline]) c1 = (Inr (), c2)"
      and d: "write_text (dir @ [''policy-decision.json'']) (pretty 0 (PDict (rv_decision v)) @ [newline]) c2 = (Inr u, c')"
    unfolding write_release_def bindC_Inr by (auto simp: dumps_pretty_Inr)
  have "read_bytes (w_fs (cs_world c')) (dir @ [''evidence-bundle.json'']) = Inr (pretty 0 (PDict (rv_bundle v)) @ [newline])"
    using write_text_keeps [OF d _ assms(5)] write_text_Inr [OF b] by blast
  moreover have "read_bytes (w_fs (cs_world c')) (dir @ [''policy-decision.json'']) = Inr (pretty 0 (PDict (rv_decision v)) @ [newline])"
    using write_text_Inr [OF d] by blast
  ultimately show ?thesis
    using read_pretty assms(2-4) write_text_no_surrogate [OF b] write_text_no_surrogate [OF d] by blast
qed

text \<open>Writing succeeds on a directory that can be made, when the texts can be encoded.\<close>

lemma ascii_pretty:
  "ascii_val v \<Longrightarrow> is_ascii (pretty n v)"
  "ascii_vals xs \<Longrightarrow> list_all is_ascii (pretty_items n xs)"
  "ascii_pairs d \<Longrightarrow> list_all is_ascii (pretty_pairs n d)"
proof -
  have i: "is_ascii (indent m)" for m by (auto simp: indent_def is_ascii_def list_all_iff)
  show "ascii_val v \<Longrightarrow> is_ascii (pretty n v)" "ascii_vals xs \<Longrightarrow> list_all is_ascii (pretty_items n xs)"
    "ascii_pairs d \<Longrightarrow> list_all is_ascii (pretty_pairs n d)"
    by (induction n v and n xs and n d rule: pretty_pretty_items_pretty_pairs.induct)
      (simp_all add: i ascii_join ascii_esc_str ascii_dumps(1) del: json_dumps.simps)
qed

lemma ascii_wf:
  "ascii_val v \<Longrightarrow> printable opts v \<Longrightarrow> wf_val v"
  "ascii_vals xs \<Longrightarrow> printables opts xs \<Longrightarrow> wf_vals xs"
  "ascii_pairs d \<Longrightarrow> printable_pairs opts d \<Longrightarrow> wf_pairs d"
  by (induction v and xs and d rule: ascii_val_ascii_vals_ascii_pairs.induct) (simp_all add: valid_str_ascii)

lemma rfc3339_ascii: "rfc3339 m = Inr t \<Longrightarrow> is_ascii t"
proof -
  have "is_ascii (zero_pad w n)" for w n by (simp add: zero_pad_def is_ascii_def [of "replicate k c" for k c] list_all_iff)
  then show "rfc3339 m = Inr t \<Longrightarrow> is_ascii t" by (auto simp: rfc3339_def Let_def split: if_splits prod.splits)
qed

lemma link_free_file [simp]: "link_free fs q \<Longrightarrow> link_free (fs(p \<mapsto> File b)) q"
  by (auto simp: link_free_def)

lemma parents_exist_file [simp]: "parents_exist fs (p @ [x]) \<Longrightarrow> parents_exist (fs(p @ [y] \<mapsto> File b)) (p @ [x])"
  by (force simp: parents_exist_def node_at_def strict_prefix_def prefix_snoc dest: prefix_length_le)

lemma write_text_total:
  assumes "link_free (w_fs (cs_world c)) p" "parents_exist (w_fs (cs_world c)) p" "p \<noteq> []" "w_fs (cs_world c) p \<noteq> Some Dir"
    and "\<not> has_surrogate text"
  shows "\<exists>c'. write_text p text c = (Inr (), c') \<and> w_fs (cs_world c') = (w_fs (cs_world c))(p \<mapsto> File text)"
proof -
  let ?fs = "(w_fs (cs_world c))(p \<mapsto> File [])"
  have w: "write_bytes (w_fs (cs_world c)) p [] = Inr ?fs" by (rule write_total [OF assms(1-4)])
  have "link_free ?fs p" "parents_exist ?fs p" using assms(1,2) by (auto simp: parents_exist_def node_at_def strict_prefix_def)
  then have "write_bytes ?fs p text = Inr (?fs(p \<mapsto> File text))" by (rule write_total) (use assms(3) in simp_all)
  with w assms(5) show ?thesis by (simp add: write_text_def bindC_def updateC_def liftC_def encode_utf8_def)
qed

lemma write_release_total:
  assumes "usable_dir (w_fs (cs_world c)) dir" "ascii_val (PDict (rv_bundle v))" "ascii_val (PDict (rv_decision v))"
    and "ints_ok (PDict (rv_bundle v))" "ints_ok (PDict (rv_decision v))"
    and "\<And>x. x \<in> {''evidence-bundle.json'', ''policy-decision.json''}
      \<Longrightarrow> link_free (w_fs (cs_world c)) (dir @ [x]) \<and> w_fs (cs_world c) (dir @ [x]) \<noteq> Some Dir"
  obtains c' where "write_release dir v c = (Inr (), c')"
    "\<And>x. x \<in> {''evidence-bundle.json'', ''policy-decision.json''} \<Longrightarrow> os_path (w_fs (cs_world c')) (dir @ [x]) = Inr (dir @ [x])"
proof -
  let ?fs = "with_dirs (w_fs (cs_world c)) dir" and ?e = "dir @ [''evidence-bundle.json'']" and ?p = "dir @ [''policy-decision.json'']"
  let ?b = "pretty 0 (PDict (rv_bundle v)) @ [newline]" and ?d = "pretty 0 (PDict (rv_decision v)) @ [newline]"
  define c1 where "c1 = c\<lparr>cs_world := (cs_world c)\<lparr>w_fs := ?fs\<rparr>\<rparr>"
  have m: "mkdirs (w_fs (cs_world c)) dir = Inr ?fs" using assms(1) by (rule mkdirs_total)
  have pe: "parents_exist ?fs (dir @ [x])" for x
    using mkdirs_link_free [OF _ m] assms(1) by (simp add: usable_dir_def)
  have lf: "link_free ?fs ?e" "link_free ?fs ?p" using assms(6) by (auto intro: link_free_with_dirs)
  have nd: "?fs ?e \<noteq> Some Dir" "?fs ?p \<noteq> Some Dir" using assms(6) by (auto simp: with_dirs_def)
  have ns: "\<not> has_surrogate ?b" "\<not> has_surrogate ?d"
    using ascii_pretty(1) assms(2,3) by (auto intro!: no_surrogate_ascii simp del: ascii_val.simps pretty.simps)
  obtain c2 where c2: "write_text ?e ?b c1 = (Inr (), c2)" "w_fs (cs_world c2) = ?fs(?e \<mapsto> File ?b)"
    using write_text_total [of c1 ?e ?b] lf(1) pe nd(1) ns(1) by (auto simp: c1_def)
  obtain c3 where c3: "write_text ?p ?d c2 = (Inr (), c3)" "w_fs (cs_world c3) = ?fs(?e \<mapsto> File ?b, ?p \<mapsto> File ?d)"
    using write_text_total [of c2 ?p ?d] lf(2) pe nd(2) ns(2) by (auto simp: c2(2))
  have "write_release dir v c = (Inr (), c3)"
    using m c2(1) c3(1) assms(4,5) by (simp add: write_release_def bindC_def updateC_def liftC_def dumps_pretty_def c1_def)
  moreover have "os_path (w_fs (cs_world c3)) (dir @ [x]) = Inr (dir @ [x])" if "x \<in> {''evidence-bundle.json'', ''policy-decision.json''}" for x
    using that lf pe by (auto simp: c3(2) intro!: os_path_straight)
  ultimately show thesis by (rule that)
qed

text \<open>
  C29: what a release command leaves behind is what it verified. When \<open>sdlc deploy-verify\<close> returns, for
  either outcome, and an output directory was given whose two files are not one through links, the
  files read back as exactly the evidence bundle and the policy decision of the verification, key
  order included.
\<close>

theorem release_files_read_back:
  assumes "cmd_deploy_verify env a c = (Inr code, c')" "release_asked env a (w_fs (cs_world c)) v"
    and "da_output_dir a = Some dir" "dir \<noteq> []" "wf_val (PDict (rv_bundle v))" "wf_val (PDict (rv_decision v))"
    and "os_path (w_fs (cs_world c')) (cli_path env dir @ [''evidence-bundle.json''])
       \<noteq> os_path (w_fs (cs_world c')) (cli_path env dir @ [''policy-decision.json''])"
  shows "read_json (w_fs (cs_world c')) (cli_path env dir @ [''evidence-bundle.json'']) = Inr (PDict (rv_bundle v))
    \<and> read_json (w_fs (cs_world c')) (cli_path env dir @ [''policy-decision.json'']) = Inr (PDict (rv_decision v))"
  using assms(1)
proof (cases rule: deploy_verify_Inr)
  case (asked v')
  have "v' = v" using asked(1) assms(2) unfolding release_asked_def by auto
  with asked(2) obtain u c1 where w: "write_release (cli_path env dir) v c = (Inr u, c1)"
      and out: "(if rv_allow v then bindC (print_out (''ALLOW   '' @ path_text (da_path a))) (\<lambda>_. returnC 0)
       else report_block (''DENY    '' @ path_text (da_path a)) (rv_reason_codes v)) c1 = (Inr code, c')"
    using assms(3,4) unfolding conclude_def bindC_Inr by auto
  have "cs_world c' = cs_world c1" using out by (auto simp: bindC_Inr report_block_eq split: if_splits)
  then show ?thesis using written_release_reads_back [OF w assms(5,6) asked_printable [OF assms(2)]] assms(7) by simp
qed (use assms(2) in blast)

text \<open>The verification of a candidate that could be read, and the command's way to it.\<close>

lemma asked_run:
  assumes "release_asked env a (w_fs (cs_world c)) v"
  shows "cmd_deploy_verify env a c = conclude env a v c"
proof -
  from assms obtain root d now t where "find_repo_root (w_fs (cs_world c)) (se_module_file (ce_schema env)) = Inr root"
      "load_candidate (ce_schema env) (w_fs (cs_world c)) (path_text (da_path a)) (cli_path env (da_path a)) (Some root) = Inr d"
      "cli_now env (da_now a) = Inr now" "rfc3339 now = Inr t"
      "verify_release (ce_schema env) (w_fs (cs_world c)) (evaluate (ce_urlopen env) (new_policy_client (da_opa_url a) (da_bundle_version a)))
        (PDict d) (da_bundle_id a) (da_decision_id a) t
        [(''type'', PStr ''ci''), (''id'', PStr (da_actor_id a)), (''role'', PStr (da_actor_role a))] (da_run_id a) (Some root) = Inr v"
      "is_file (w_fs (cs_world c)) (cli_path env (da_path a))"
    unfolding release_asked_def by blast
  then show ?thesis
    by (simp add: cmd_deploy_verify_def Let_def bindC_def readC_def liftC_def returnC_def cli_repo_root_def candidate_of_def ask_release_def)
qed

end
