(* ===== verification/CliRun.thy ===== *)
theory CliRun
  imports CliMain ReleaseFiles
begin

text \<open>
  Commands run on a small repository: a repository root with its schemas, an artifact and a waiver
  in force. The runs show that the properties of the command line are not vacuous.
\<close>

section \<open>A small repository\<close>

definition cli_schema :: schema_env where
  "cli_schema = \<lparr>se_module_file = [''r'', ''registry.py''], se_listdir = (\<lambda>fs p. []), se_ref_errors = (\<lambda>schema resources v. Inr [])\<rparr>"

definition cli_fs :: fs where
  "cli_fs = demo_schema_fs([''r'', ''contracts'', ''schemas'', ''waiver.schema.json''] \<mapsto> File ''{}'',
     [''r'', ''spec.json''] \<mapsto> File ''{\"id\": \"SPEC-1\", \"artifact_type\": \"spec\"}'',
     [''r'', ''rc.json''] \<mapsto> File (json_dumps opts_default (PDict release_demo)),
     [''r'', ''contracts'', ''schemas'', ''release-candidate.schema.json''] \<mapsto> File ''{}'',
     [''r'', ''w.json''] \<mapsto> File (json_dumps opts_default (PDict (demo_waiver @ [(''artifact_type'', PStr ''waiver'')]))))"

definition cli_demo :: cli_env where
  "cli_demo = \<lparr>ce_cwd = [''r''], ce_schema = cli_schema, ce_now = demo_now 739266,
     ce_urlopen = (\<lambda>_. HttpUnavailable), ce_rglob = (\<lambda>_ _. []), ce_set_order = id, ce_environ = (\<lambda>_. None),
     ce_urandom = ''0123456789abcdef0123456789abcdef'', ce_uuid = ''u'', ce_time = 0,
     ce_run = (\<lambda>_ _ _ fs. (Inl TypeError, fs)), ce_proc = (\<lambda>_ _ _ fs. (ProcFailed [], fs)), ce_github = (\<lambda>_. GhUnavailable []),
     ce_iter_errors = (\<lambda>_ _. Inr []), ce_zlib_size = length, ce_stdin = []\<rparr>"
definition cli_start :: cli_state where
  "cli_start = \<lparr>cs_world = \<lparr>w_fs = cli_fs, w_calls = []\<rparr>, cs_out = [], cs_err = []\<rparr>"

theorem validate_process_status_witness:
  "\<exists>c'. sdlc (\<lambda>_. []) cli_demo [''validate'', ''spec.json'', ''none.json''] cli_start = (Inr 1, c')
     \<and> cs_world c' = cs_world cli_start \<and> cs_out c' = [ok_line ''spec.json'']"
proof -
  have "fst (sdlc (\<lambda>_. []) cli_demo [''validate'', ''spec.json'', ''none.json''] cli_start) = Inr 1" by code_simp
  then obtain c' where c: "sdlc (\<lambda>_. []) cli_demo [''validate'', ''spec.json'', ''none.json''] cli_start = (Inr 1, c')"
    by (metis prod.collapse)
  have p: "list_all (\<lambda>s. \<not> starts_with ''-'' s) [''spec.json'', ''none.json'']" by (simp add: starts_with_def)
  have "find_repo_root cli_fs (se_module_file (ce_schema cli_demo)) = Inr [''r'']"
    "path_valid cli_demo [''r''] cli_fs ''spec.json''" "\<not> path_valid cli_demo [''r''] cli_fs ''none.json''" by code_simp+
  with validate_process_status [OF c p] c show ?thesis by (auto simp: cli_start_def)
qed

lemma dget_extra: "k \<noteq> a \<Longrightarrow> dget (d @ [(a, x)]) k = dget d k"
  by (simp add: map_add_def split: option.splits)

lemma check_extra: "check_waiver (d @ [(''artifact_type'', x)]) now = check_waiver d now"
proof -
  have g: "k \<noteq> ''artifact_type'' \<Longrightarrow> dget_or (d @ [(''artifact_type'', x)]) k y = dget_or d k y" for k y
    by (simp only: dget_or_def dget_extra not_False_eq_True)
  have t: "k \<noteq> ''artifact_type'' \<Longrightarrow> timestamp_field (d @ [(''artifact_type'', x)]) k = timestamp_field d k" for k
    by (simp only: timestamp_field_def dindex_def dget_extra not_False_eq_True)
  have p: "k \<noteq> ''artifact_type'' \<Longrightarrow> party (d @ [(''artifact_type'', x)]) k = party d k" for k
    by (simp only: party_def g not_False_eq_True)
  have r: "time_reasons (d @ [(''artifact_type'', x)]) = time_reasons d" by (simp add: time_reasons_def t)
  have v: "validate_waiver (d @ [(''artifact_type'', x)]) = validate_waiver d"
    unfolding validate_waiver_def Let_def r by (subst g p, simp)+ (rule refl)
  have "waiver_state (d @ [(''artifact_type'', x)]) now = waiver_state d now"
    unfolding waiver_state_def Let_def by (subst g t, simp)+ (rule refl)
  with v show ?thesis by (simp only: check_waiver_def)
qed

lemma waiver_file: "read_json cli_fs [''r'', ''w.json''] = Inr (PDict (demo_waiver @ [(''artifact_type'', PStr ''waiver'')]))" by code_simp

theorem waiver_exit_code_witness:
  "\<exists>c'. cmd_waiver cli_demo ''w.json'' None cli_start = (Inr 0, c')
     \<and> (\<exists>d now. read_json cli_fs [''r'', ''w.json''] = Inr (PDict d) \<and> cli_now cli_demo None = Inr now \<and> in_force d now)"
proof -
  let ?d = "demo_waiver @ [(''artifact_type'', PStr ''waiver'')]"
  have f: "is_file cli_fs (cli_path cli_demo ''w.json'')" "cli_path cli_demo ''w.json'' = [''r'', ''w.json'']"
      "find_repo_root cli_fs (se_module_file (ce_schema cli_demo)) = Inr [''r'']"
      "validate_artifact (ce_schema cli_demo) cli_fs ?d (Some [''r'']) = Inr []"
      "has_surrogate (''OK      '' @ path_text ''w.json'' @ '' (active)'' @ [newline]) = False"
    by code_simp+
  have n: "cli_now cli_demo None = Inr (demo_now 739266)" by (simp add: cli_now_def cli_demo_def)
  obtain chk where "check_waiver ?d (demo_now 739266) = Inr chk" "wc_valid chk"
    unfolding check_extra by (simp add: check_waiver_def demo_state demo_instant)
  then obtain c' where "cmd_waiver cli_demo ''w.json'' None cli_start = (Inr 0, c')"
    using f waiver_file n by (simp add: cmd_waiver_def cli_start_def bindC_def readC_def liftC_def cli_repo_root_def print_out_def
        write_out_def returnC_def del: append.simps path_parts_def)
  then show ?thesis using waiver_exit_code [of cli_demo "''w.json''" None cli_start 0] f(2)
    by (auto simp: cli_start_def)
qed

section \<open>A release without a policy server\<close>

lemma release_file: "read_json cli_fs [''r'', ''rc.json''] = Inr (PDict release_demo)" by code_simp

lemma hex_digest_ascii: "is_ascii (sha256_hex m)"
  by (rule is_hex_ascii) (rule sha256_hex_hex)

lemma release_policy:
  "\<exists>r. evaluate (\<lambda>_. HttpUnavailable) client DEPLOYMENT_POINT release_demo = Inr r \<and> \<not> pr_allow r
     \<and> pr_reason_codes r = [REASON_POLICY_UNAVAILABLE] \<and> pr_bundle_version r = pc_bundle_version client \<and> is_ascii (pr_input_digest r)"
proof -
  have "ascii_val (PDict release_demo)" "ints_ok (PDict release_demo)"
    "ascii_val (PDict [(''input'', PDict release_demo)])" "ints_ok (PDict [(''input'', PDict release_demo)])"
    by (simp_all add: release_demo_def)
  then obtain dg rq where "compute_input_digest release_demo = Inr dg" "is_ascii dg" "build_request client DEPLOYMENT_POINT release_demo = Inr rq"
    by (simp add: compute_input_digest_def build_request_def dumps_def ascii_encodes encode_utf8_def hex_digest_ascii
        del: json_dumps.simps ascii_val.simps ints_ok.simps)
  then show ?thesis by (simp add: evaluate_def fail_closed_def)
qed

lemma release_denied:
  "\<exists>v. release_asked cli_demo (deploy_defaults ''rc.json'') cli_fs v \<and> \<not> rv_allow v
     \<and> ascii_val (PDict (rv_bundle v)) \<and> ascii_val (PDict (rv_decision v))"
proof -
  let ?a = "deploy_defaults ''rc.json''"
  have f: "is_file cli_fs (cli_path cli_demo ''rc.json'')" "cli_path cli_demo ''rc.json'' = [''r'', ''rc.json'']"
      "find_repo_root cli_fs (se_module_file (ce_schema cli_demo)) = Inr [''r'']"
      "validate_document (ce_schema cli_demo) cli_fs release_demo CANDIDATE_SCHEMA (Some [''r'']) = Inr []"
    by code_simp+
  have l: "load_candidate (ce_schema cli_demo) cli_fs (path_text ''rc.json'') [''r'', ''rc.json''] (Some [''r'']) = Inr release_demo"
    using f(4) release_file by (simp add: load_candidate_def validate_candidate_def)
  have i: "instant (demo_now 739266) = 739266 * 86400 * 1000000"
    by (simp add: demo_now_def instant_def micros_per_day_def micros_per_second_def)
  obtain t where t: "rfc3339 (demo_now 739266) = Inr t"
    by (cases "ord2ymd 739266") (simp add: rfc3339_def i micros_per_day_def micros_per_second_def max_ordinal_def)
  let ?actor = "[(''type'', PStr ''ci''), (''id'', PStr (da_actor_id ?a)), (''role'', PStr (da_actor_role ?a))]"
  have d: "is_ascii (da_bundle_id ?a)" "is_ascii (da_decision_id ?a)" "is_ascii (da_run_id ?a)" "is_ascii (da_bundle_version ?a)"
      "ascii_pairs ?actor"
    by (simp_all add: deploy_defaults_def)
  obtain bdl where b: "build_evidence_bundle (da_bundle_id ?a) t ?actor (da_run_id ?a) release_demo [] = Inr bdl" "ascii_pairs bdl"
    using release_bundle_total rfc3339_ascii [OF t] d by blast
  let ?c = "new_policy_client (da_opa_url ?a) (da_bundle_version ?a)"
  obtain r where r: "evaluate (\<lambda>_. HttpUnavailable) ?c DEPLOYMENT_POINT release_demo = Inr r" "\<not> pr_allow r"
      "pr_reason_codes r = [REASON_POLICY_UNAVAILABLE]" "pr_bundle_version r = pc_bundle_version ?c" "is_ascii (pr_input_digest r)"
    using release_policy by blast
  have "evaluate_candidate policy release_demo = policy DEPLOYMENT_POINT release_demo" for policy
    by (simp add: evaluate_candidate_def evaluate_deployment_def build_deployment_input_def dicts_def dindex_def release_demo_def)
  with r have e: "evaluate_candidate (evaluate (\<lambda>_. HttpUnavailable) ?c) release_demo = Inr r" by simp
  have x: "ascii_pairs d' \<Longrightarrow> is_ascii k \<Longrightarrow> ascii_val y \<Longrightarrow> ascii_pairs (dset k y d')" for d' k y
    by (induction d') auto
  obtain v where "verify_release (ce_schema cli_demo) cli_fs (evaluate (\<lambda>_. HttpUnavailable) ?c) (PDict release_demo)
      (da_bundle_id ?a) (da_decision_id ?a) t ?actor (da_run_id ?a) (Some [''r'']) = Inr v" "\<not> rv_allow v"
      "ascii_val (PDict (rv_bundle v))" "ascii_val (PDict (rv_decision v))"
    using f(4) b e r d rfc3339_ascii [OF t]
    by (simp add: verify_release_def validate_candidate_def Let_def x build_deployment_decision_def build_policy_decision_def
        DEPLOYMENT_POINT_def REASON_POLICY_UNAVAILABLE_def new_policy_client_def)
  moreover have "da_path ?a = ''rc.json''" "da_now ?a = None" by (simp_all add: deploy_defaults_def)
  moreover have "cli_now cli_demo None = Inr (demo_now 739266)" "ce_urlopen cli_demo = (\<lambda>_. HttpUnavailable)"
    by (simp_all add: cli_now_def cli_demo_def)
  ultimately show ?thesis unfolding release_asked_def using f(1-3) l t by (intro exI [of _ v]) auto
qed

theorem release_exit_code_witness:
  "\<exists>c' v. cmd_deploy_verify cli_demo (deploy_defaults ''rc.json'') cli_start = (Inr 1, c')
     \<and> \<not> rv_allow v \<and> cs_err c' = deny_lines (deploy_defaults ''rc.json'') v"
proof -
  let ?a = "deploy_defaults ''rc.json''"
  obtain v where v: "release_asked cli_demo ?a cli_fs v" "\<not> rv_allow v" using release_denied by blast
  have w: "w_fs (cs_world cli_start) = cli_fs" "cs_err cli_start = []" by (simp_all add: cli_start_def)
  have "da_output_dir ?a = None" by (simp add: deploy_defaults_def)
  then obtain c' where c: "cmd_deploy_verify cli_demo ?a cli_start = (Inr 1, c')"
    using asked_run [of cli_demo ?a cli_start v] v by (simp add: w conclude_def report_block_eq bindC_def returnC_def)
  from release_exit_code [OF c] v have "cs_err c' = cs_err cli_start @ deny_lines ?a v" unfolding w by auto
  with c v(2) w(2) show ?thesis by auto
qed

theorem release_files_read_back_witness:
  "\<exists>c' v. cmd_deploy_verify cli_demo ((deploy_defaults ''rc.json'')\<lparr>da_output_dir := Some ''out''\<rparr>) cli_start = (Inr 1, c')
     \<and> release_asked cli_demo (deploy_defaults ''rc.json'') cli_fs v
     \<and> read_json (w_fs (cs_world c')) [''r'', ''out'', ''evidence-bundle.json''] = Inr (PDict (rv_bundle v))
     \<and> read_json (w_fs (cs_world c')) [''r'', ''out'', ''policy-decision.json''] = Inr (PDict (rv_decision v))"
proof -
  let ?a = "(deploy_defaults ''rc.json'')\<lparr>da_output_dir := Some ''out''\<rparr>" and ?dir = "[''r'', ''out'']"
  have w: "w_fs (cs_world cli_start) = cli_fs" by (simp add: cli_start_def)
  obtain v where v0: "release_asked cli_demo (deploy_defaults ''rc.json'') cli_fs v" and v: "\<not> rv_allow v"
      "ascii_val (PDict (rv_bundle v))" "ascii_val (PDict (rv_decision v))"
    using release_denied by blast
  from v0 have a: "release_asked cli_demo ?a (w_fs (cs_world cli_start)) v" unfolding release_asked_def w by simp
  from asked_printable [OF a] have p: "printable opts_unicode (PDict (rv_bundle v))" "printable opts_unicode (PDict (rv_decision v))"
    by blast+
  have dir: "cli_path cli_demo ''out'' = ?dir" by code_simp
  have nodes: "cli_fs [] = None" "cli_fs [''r''] = None \<or> cli_fs [''r''] = Some Dir" "cli_fs ?dir = None"
      "cli_fs (?dir @ [''evidence-bundle.json'']) = None" "cli_fs (?dir @ [''policy-decision.json'']) = None"
    by (simp_all add: cli_fs_def demo_schema_fs_def)
  have "usable_dir cli_fs ?dir"
    using nodes by (auto simp: usable_dir_def link_free_def prefix_Cons)
  moreover have "x \<in> {''evidence-bundle.json'', ''policy-decision.json''} \<Longrightarrow> link_free cli_fs (?dir @ [x]) \<and> cli_fs (?dir @ [x]) \<noteq> Some Dir" for x
    using nodes by (auto simp: link_free_def prefix_Cons)
  ultimately obtain c1 where c1: "write_release ?dir v cli_start = (Inr (), c1)"
      "\<And>x. x \<in> {''evidence-bundle.json'', ''policy-decision.json''} \<Longrightarrow> os_path (w_fs (cs_world c1)) (?dir @ [x]) = Inr (?dir @ [x])"
    using write_release_total [of cli_start ?dir v, OF _ v(2,3) printable_ints_ok(1) [OF p(1)] printable_ints_ok(1) [OF p(2)]] unfolding w by blast
  have "da_output_dir ?a = Some ''out''" by simp
  with asked_run [OF a] c1(1) obtain c' where c: "cmd_deploy_verify cli_demo ?a cli_start = (Inr 1, c')" "cs_world c' = cs_world c1"
    using v(1) dir by (simp add: conclude_def report_block_eq bindC_def)
  have o: "os_path (w_fs (cs_world c')) (?dir @ [''evidence-bundle.json'']) \<noteq> os_path (w_fs (cs_world c')) (?dir @ [''policy-decision.json''])"
    using c1(2) by (simp add: c(2))
  from release_files_read_back [OF c(1) a _ _ ascii_wf(1) [OF v(2) p(1)] ascii_wf(1) [OF v(3) p(2)], of "''out''"] o
  show ?thesis by (intro exI [of _ c'] exI [of _ v] conjI c(1) v0) (simp_all add: dir)
qed

section \<open>Further runs\<close>

theorem trace_exit_code_witness:
  "\<exists>c' report. cmd_trace cli_demo ''FEAT-1'' None False cli_start = (Inr 1, c') \<and> \<not> tr_complete report
     \<and> cs_out c' = [format_report report @ [newline]]"
proof -
  have "fst (cmd_trace cli_demo ''FEAT-1'' None False cli_start) = Inr 1" by code_simp
  then obtain c' where c: "cmd_trace cli_demo ''FEAT-1'' None False cli_start = (Inr 1, c')" by (metis prod.collapse)
  from trace_exit_code [OF c] obtain report where "(1 :: int) = (if tr_complete report then 0 else 1)"
      "cs_out c' = cs_out cli_start @ [format_report report @ [newline]]" by auto
  with c show ?thesis by (auto simp: cli_start_def split: if_splits)
qed

theorem checking_changes_nothing_witness:
  "\<exists>r c'. read_only (Validate [''spec.json'']) \<and> main cli_demo (Validate [''spec.json'']) cli_start = (r, c')
     \<and> cs_world c' = cs_world cli_start"
  using checking_changes_nothing [of "Validate [''spec.json'']" cli_demo cli_start]
  by (metis prod.collapse read_only.simps(1))

end
