(* ===== verification/Spec2Isabelle.thy ===== *)
theory Spec2Isabelle
  imports Prelude Capability RunRegistry Policy Waiver Evidence Tools Executor Traceability Artifacts Builtin Commands Vcs
    DeployVerify Skills SkillRunner Mcp McpClient PipelineTrace Render Views Rfc3339 Cli CliSession SessionRun Argparse CliMain JsonLayout
    ReleaseFiles CliRun
begin

text \<open>
  \<^bold>\<open>Verification of the control plane of the secure agentic SDLC platform\<close>
  (the Python package \<open>src/control-plane/src/sdlc\<close>).

  \<^bold>\<open>The program.\<close> Agents and people produce workflow artifacts (ideas, specifications, threat models,
  plans, tasks, reviews), which are JSON documents under a schema. Everything an agent does goes
  through one gate: a run is registered (\<open>runner/registry.py\<close>), capability tokens are issued for it
  (\<open>runner/capability.py\<close>), and the executor (\<open>runner/executor.py\<close>) asks the policy service
  (\<open>policy/\<close>), checks the token, looks up the tool (\<open>tools/registry.py\<close>), validates the arguments, runs
  the handler, validates the result and records evidence (\<open>evidence/\<close>, \<open>trust.py\<close>). External agents reach
  the executor through the MCP bridge (\<open>mcp/\<close>, served by \<open>cli.py\<close>); the built-in tools store
  artifacts, write files, run checks and open pull requests (\<open>tools/\<close>). Skills (\<open>skills/\<close>, \<open>llm/\<close>) turn
  artifacts into new artifacts by asking a language model behind the same gate, and the pipeline
  (\<open>pipeline/orchestrator.py\<close>) chains them from an idea to a review. Waivers (\<open>waiver/\<close>), traceability
  (\<open>traceability.py\<close>), release verification (\<open>deploy_verify/\<close>), rendering (\<open>artifacts/render.py\<close>) and the
  commands of \<open>cli.py\<close> work on the stored documents.

  \<^bold>\<open>How it is modelled.\<close> Every operation is an executable function. A raised exception is a value
  \<open>Inl e\<close> of \<open>'a result\<close> with the exception classes of the code (\<open>Prelude\<close>); operations with effects
  map a world (file system with directories and symbolic links, and the record of external calls)
  to a result and a new world, so that effects before an exception are kept (\<open>World\<close>). Strings are
  lists of the bytes of their UTF-8 encoding, with Python's notion of character, \<open>strip\<close>, \<open>splitlines\<close>
  and encodings on top (\<open>PyString\<close>); JSON values are the datatype \<open>pyval\<close>, dictionaries are
  association lists in insertion order (\<open>PyValue\<close>). What the code takes from outside is an argument: the
  JSON-schema validator, the policy server's answers, the language model, subprocesses and git, the
  GitHub service, the clock, random bytes, the enumeration of directories and of sets, and the
  compressed size of a text.

  \<^bold>\<open>The theories, and what they show.\<close>

    \<^item> \<open>Prelude\<close>, \<open>PyString\<close>, \<open>PyValue\<close>: results, dictionaries, strings and values; the generic lemmas
      and the simplification collections the components use; locale \<open>keyed_collection\<close> of lookup and
      insertion.
    \<^item> \<open>Json\<close>: \<open>json.loads\<close> and \<open>json.dumps\<close> with the option sets in use. The scanner always terminates
      with a value or an error, printing and reading are inverse, and the texts are well formed.
      \<open>JsonLayout\<close>: reading does not depend on the layout, every spelling of a value is read as it.
    \<^item> \<open>Crypto\<close>, \<open>Capability\<close>, \<open>RunRegistry\<close>: Base64, SHA-256 and HMAC on machine words, tokens, and
      the registry. A token is accepted exactly for its run, tool and scope before its expiry while the
      run is unfinished.
    \<^item> \<open>Policy\<close>: the client and the decision documents. A request is allowed exactly when the answer
      says so; every failure of the service denies. Locale \<open>policy_evaluator\<close>, interpreted on the client.
    \<^item> \<open>DateTime\<close>, \<open>Waiver\<close>: ISO 8601, the calendar, and the rules on waivers. The code refines the
      rule \<open>in_force\<close>, which compares roles and not persons, and a risk blocks unless a waiver in force
      covers it.
    \<^item> \<open>FileSystem\<close>, \<open>World\<close>, \<open>Evidence\<close>: paths and links, effects, and the evidence store. Captured output
      can be recovered by its handle; what reaches a context is bounded; sensitive content is
      refused. Locale \<open>content_store\<close>, interpreted on the file store.
    \<^item> \<open>Tools\<close>, \<open>Executor\<close>: the tool registry (locale \<open>unique_registry\<close>) and the gate. A handler runs
      only after every check, refused calls have no effect, every returned call is recorded, and a
      call that passes the gates is executed.
    \<^item> \<open>Traceability\<close>: the search over links. It terminates, selects exactly the connected
      component of a feature, and reports completeness and dangling links exactly.
    \<^item> \<open>Artifacts\<close>, \<open>Builtin\<close>, \<open>Commands\<close>, \<open>Vcs\<close>: the schema registry and the built-in tools. The file
      writer and the command runner stay in the workspace, also through links; a stored artifact is
      valid and readable; a pull request is opened by one documented sequence of calls, after
      every check of the paths asked for (those staged may differ where a backslash was given).
    \<^item> \<open>DeployVerify\<close>: evidence bundles and the release gate; the outcome is the policy's.
    \<^item> \<open>Skills\<close>, \<open>SkillRunner\<close>: contexts, prompts, answers and the gated run of a skill. The model is
      asked only through the gates and never with sensitive inputs; platform fields never come from it.
    \<^item> \<open>Mcp\<close>, \<open>McpClient\<close>: protocol, server, capability injection, the stdio loop and the in-process
      client. Every line is answered, effects pass the gate, identifiers of a session are distinct, and
      a call through the client is the execution of that call.
    \<^item> \<open>Pipeline\<close>, \<open>PipelineRun\<close>, \<open>PipelineTrace\<close>: the chained stages, with a complete concrete run. Every
      stored document passed the executor's gates and validation, stages come in order, each document
      is produced by the skill of its stage from the earlier ones and links to its predecessor, and the security review's verdict is determined by the risks. Composed
      with the search of \<open>Traceability\<close>: the report of a completed run covers exactly its documents.
    \<^item> \<open>Render\<close>, \<open>Views\<close>: the Markdown views. Rendering is well typed, the documents the control plane
      builds itself always have a view, and the view of a security review is given exactly.
    \<^item> \<open>Rfc3339\<close>, \<open>Cli\<close>, \<open>CliSession\<close>, \<open>SessionRun\<close>, \<open>CliRun\<close>: the commands. Exit codes and output are
      characterised, printed time stamps read back, checks change nothing, and a session of the bridge
      starts only allow-listed programs in the workspace, entered without following links, and, with a
      token, git and pull requests there (locale \<open>guarded_executor\<close>, interpreted on the executor of the
      command line). \<open>SessionRun\<close> follows one request from its line to the program it starts.
    \<^item> \<open>Argparse\<close>, \<open>CliMain\<close>: the command line as the shell gives it. \<open>Argparse\<close> is the part of Python's
      argument parser that the program uses (options by exact name, abbreviation, \<open>=\<close> and joined short
      form, required options, positionals, sub-commands, \<open>--\<close>, help); \<open>CliMain\<close> has the parsers of
      \<open>build_parser\<close> and the process. Every command has a line that is read as exactly that command;
      a refused line runs nothing; the status of the process is that of the command.
    \<^item> \<open>ReleaseFiles\<close>: the files written by \<open>deploy-verify\<close> are read back as the verified documents.

  \<^bold>\<open>Bounds.\<close> Resolution of a path follows at most 40 symbolic links (\<open>link_budget\<close>), as the kernel does,
  and fails beyond; the JSON scanner runs with fuel twice the length of the text plus one, which
  \<open>Json\<close> proves to be enough for every text; all other recursion is structural or has a measure.

  \<^bold>\<open>Not modelled.\<close> The wording of help and of usage errors, which \<open>argparse\<close> prints (an argument of
  \<open>sdlc\<close>; the parser follows its version in Python 3.12), the reconfiguration of the standard streams in \<open>_force_utf8\<close>, and the
  package initialisers, which only re-export names. The questions to the policy service are not part of the record of external calls:
  the service is an argument of the policy client. The interpreter's recursion limit, the partial
  effect of a \<open>mkdir\<close> that fails halfway, file permissions, concurrent processes and
  locale-dependent encodings. A float is the decimal it was read from, which agrees with doubles up to
  15 significant digits; negative zero is not distinguished. The Go services, Rego policies, JSON
  schemas, the TypeScript plugin and the tests are other programs or data.
\<close>

end
